(* ===== verification/Tinyco_Prelude.thy ===== *)
theory Tinyco_Prelude
  imports Main "HOL-Library.Word" "HOL-Library.Multiset" "HOL-Library.AList"
begin

text \<open>
  Shared material of the tinyco development: the names of the machine types, the
  theorem collections the component proofs draw on, small facts about lists and
  association lists, and the generic notion of a transition system with an invariant.
\<close>

section \<open>Machine types\<close>

text \<open>
  Unsigned C integers whose width matters are words.  Descriptors and return codes are
  \<open>int\<close>: the code never does arithmetic on them that could leave the range of a C int.
  A pointer is a natural number, and \<open>0\<close> is the null pointer.
\<close>

type_synonym u8 = "8 word"
type_synonym u16 = "16 word"
type_synonym u32 = "32 word"
type_synonym u64 = "64 word"
type_synonym ptr = nat

abbreviation (input) NULL :: ptr where
  "NULL \<equiv> 0"

text \<open>Rewrite rules that compute the effect of an operation on one field of its state.\<close>

named_theorems state_simps

text \<open>Definitions of the straight-line operations, unfolded together in component proofs.\<close>

named_theorems op_defs

section \<open>Lists and association lists\<close>

lemma butlast_snoc_last: "xs \<noteq> [] \<Longrightarrow> mset xs = add_mset (last xs) (mset (butlast xs))"
  by (metis add_mset_add_single append_butlast_last_id mset.simps mset_append)

lemma set_butlast_subset: "set (butlast xs) \<subseteq> set xs"
  by (auto dest: in_set_butlastD)

lemma mset_list_update_swap:
  assumes "i < length xs" and "j < length xs"
  shows "mset (xs[j := xs ! i, i := v]) = mset (xs[j := v])"
proof (cases "i = j")
  case True
  then show ?thesis by simp
next
  case False
  with assms have "xs[j := xs ! i, i := v] = (xs[j := v])[j := (xs[j := v]) ! i, i := (xs[j := v]) ! j]"
    by (simp add: list_update_swap)
  with assms show ?thesis by (metis length_list_update mset_swap)
qed

lemma map_of_delete_other: "k \<noteq> k' \<Longrightarrow> map_of (AList.delete k xs) k' = map_of xs k'"
  by (simp add: delete_conv')

lemma map_of_delete_same: "map_of (AList.delete k xs) k = None"
  by (simp add: delete_conv')

lemma set_alist_delete: "set (AList.delete k xs) = {p \<in> set xs. fst p \<noteq> k}"
  by (auto simp: AList.delete_eq)

lemma alist_update_fresh: "k \<notin> fst ` set xs \<Longrightarrow> AList.update k v xs = xs @ [(k, v)]"
  by (induction xs) auto

lemma mset_alist_delete:
  assumes "distinct (map fst xs)" and "(k, v) \<in> set xs"
  shows "mset xs = add_mset (k, v) (mset (AList.delete k xs))"
  using assms
proof (induction xs)
  case (Cons x xs)
  show ?case
  proof (cases "fst x = k")
    case True
    then have "k \<notin> fst ` set xs" using Cons.prems(1) by simp
    moreover from this have "x = (k, v)" using Cons.prems(2) by force
    ultimately show ?thesis by simp
  next
    case False
    with Cons show ?thesis by (cases x) auto
  qed
qed simp

section \<open>Transition systems with an invariant\<close>

text \<open>
  The interface every state machine of the development offers: initial states, a step
  relation and a predicate that holds initially and is kept by every step.  What the
  clients use is \<open>reachable_inv\<close>: the predicate holds in every state that a run reaches.
\<close>

inductive reachable :: "('s \<Rightarrow> bool) \<Rightarrow> ('s \<Rightarrow> 's \<Rightarrow> bool) \<Rightarrow> 's \<Rightarrow> bool"
  for init :: "'s \<Rightarrow> bool" and step :: "'s \<Rightarrow> 's \<Rightarrow> bool" where
  reach_init: "init s \<Longrightarrow> reachable init step s"
| reach_step: "reachable init step s \<Longrightarrow> step s t \<Longrightarrow> reachable init step t"

locale invariant_system =
  fixes init :: "'s \<Rightarrow> bool"
    and step :: "'s \<Rightarrow> 's \<Rightarrow> bool"
    and inv :: "'s \<Rightarrow> bool"
  assumes inv_init: "init s \<Longrightarrow> inv s"
    and inv_step: "inv s \<Longrightarrow> step s t \<Longrightarrow> inv t"
begin

lemma reachable_inv: "reachable init step s \<Longrightarrow> inv s"
  by (induction rule: reachable.induct) (auto intro: inv_init inv_step)

lemma inv_steps: "step\<^sup>*\<^sup>* s t \<Longrightarrow> inv s \<Longrightarrow> inv t"
  by (induction rule: rtranclp_induct) (auto intro: inv_step)

end

section \<open>Words\<close>

lemma unat_of_nat_small: "n < 2 ^ LENGTH('a) \<Longrightarrow> unat (word_of_nat n :: 'a::len word) = n"
  by (simp add: unsigned_of_nat take_bit_nat_eq_self)

lemma unat_of_nat_diff:
  assumes "m \<le> n" and "n < 2 ^ LENGTH('a)"
  shows "unat (word_of_nat n - word_of_nat m :: 'a::len word) = n - m"
proof -
  have "unat (word_of_nat n :: 'a word) = n" "unat (word_of_nat m :: 'a word) = m"
    using assms by (simp_all add: unat_of_nat_small)
  with assms show ?thesis by (simp add: unat_sub word_le_nat_alt)
qed

end
