(* ===== verification/Coroutine.thy ===== *)
theory Coroutine
  imports Tinyco_Prelude
begin

text \<open>
  thread.h and thread.cc: the stack of a coroutine, its saved machine context and the
  small state the scheduler keeps in it.

  A \<open>ucontext_t\<close> is modelled by where it resumes: nowhere yet, at the entry function that
  \<open>makecontext\<close> installed with its argument and stack, or behind the \<open>getcontext\<close> of the
  coroutine that saved itself.  Members that the constructor leaves indeterminate are
  \<open>None\<close> until the first assignment.  \<open>thread_id_\<close> and \<open>parent_\<close> are never read or
  written by the code and have no field.
\<close>

section \<open>Stack\<close>

record cstack =
  mem :: bool \<comment> \<open>whether \<open>stack_\<close> points to an allocated block\<close>
  size_of :: nat

definition kMaxStackSize :: nat where
  "kMaxStackSize = 128 * 1024"

definition Stack_default :: cstack where
  "Stack_default = \<lparr>mem = False, size_of = 0\<rparr>"

definition Stack_sized :: "nat \<Rightarrow> cstack" where
  "Stack_sized n = \<lparr>mem = True, size_of = (if n > kMaxStackSize then kMaxStackSize else n)\<rparr>"

text \<open>\<open>Init\<close> releases an old block, allocates a new one and always reports success.\<close>

definition Stack_Init :: "nat \<Rightarrow> cstack \<Rightarrow> bool \<times> cstack" where
  "Stack_Init n st =
     (let released = (if mem st then st\<lparr>mem := False\<rparr> else st)
      in (True, released\<lparr>size_of := n, mem := True\<rparr>))"

section \<open>Thread\<close>

datatype thread_state = TS_STOP | TS_RUNNABLE | TS_PENDING | TS_DEAD

text \<open>The two entry functions the framework passes to \<open>SetContext\<close>.\<close>

datatype begin_from = MainThreadLoop_fn | HandleProcess_fn

datatype ucontext =
    UcUnset
  | UcEntry begin_from ptr cstack
  | UcSaved

record thread =
  fun_entry :: "begin_from option"
  stack :: cstack
  state :: "thread_state option"
  uc :: ucontext
  wakeup_ts :: "u64 option"

definition Thread_ctor :: thread where
  "Thread_ctor = \<lparr>fun_entry = None, stack = Stack_default, state = None, uc = UcUnset,
     wakeup_ts = None\<rparr>"

definition Thread_Init :: "thread \<Rightarrow> bool \<times> thread" where
  "Thread_Init t =
     (let (ok, st) = Stack_Init kMaxStackSize (stack t) in
      if \<not> ok then (False, t\<lparr>stack := st\<rparr>)
      else (True, t\<lparr>stack := st, state := Some TS_STOP\<rparr>))"

definition SetState :: "thread_state \<Rightarrow> thread \<Rightarrow> thread" where
  "SetState st t = t\<lparr>state := Some st\<rparr>"

definition Pending :: "u64 \<Rightarrow> thread \<Rightarrow> thread" where
  "Pending ms t = t\<lparr>wakeup_ts := Some ms\<rparr>"

text \<open>
  Reading an indeterminate wake-up time gives some value; \<open>0\<close> stands for it, and
  \<open>frame_inv\<close> of the scheduler shows that no sleeping thread is in that case.
\<close>

definition GetWakeupTime :: "thread \<Rightarrow> u64" where
  "GetWakeupTime t = (case wakeup_ts t of Some w \<Rightarrow> w | None \<Rightarrow> 0)"

text \<open>\<open>Thread::Schedule\<close>: \<open>getcontext\<close> saves the point of execution in the thread.\<close>

definition Thread_Schedule :: "thread \<Rightarrow> thread" where
  "Thread_Schedule t = t\<lparr>uc := UcSaved\<rparr>"

definition SetContext :: "begin_from \<Rightarrow> ptr \<Rightarrow> thread \<Rightarrow> thread" where
  "SetContext func arg t = t\<lparr>fun_entry := Some func, uc := UcEntry func arg (stack t)\<rparr>"

text \<open>\<open>ThreadWrapper\<close> looks at the state of the thread object it points to.\<close>

definition IsDead :: "thread \<Rightarrow> bool" where
  "IsDead t \<longleftrightarrow> state t = Some TS_DEAD"

definition IsValid :: "ptr \<Rightarrow> bool" where
  "IsValid t \<longleftrightarrow> t \<noteq> NULL"

lemma Thread_Init_eq:
  "Thread_Init t = (True, t\<lparr>stack := \<lparr>mem = True, size_of = kMaxStackSize\<rparr>, state := Some TS_STOP\<rparr>)"
  by (auto simp: Thread_Init_def Stack_Init_def Let_def)

lemmas thread_ops [simp] = SetState_def Pending_def Thread_Schedule_def SetContext_def Thread_Init_eq

end
