(* ===== verification/Std_Heap.thy ===== *)
theory Std_Heap
  imports Tinyco_Prelude
begin

text \<open>
  The heap algorithms of the C++ standard library that frame.cc calls on the vector of
  sleeping threads, \<open>std::push_heap\<close> and \<open>std::pop_heap\<close>, with the contract the
  standard gives them as a locale.  The algorithms are the ones of libstdc++: a value is
  moved up from a hole, and popping moves the hole from the root to a leaf along the
  preferred children before the displaced last element is moved up from there.

  \<open>cmp a b\<close> is the comparison object of the call.  frame.cc passes
  \<open>ThreadPendingTimeComp\<close>, which compares a key with \<open>>\<close>, so the root has the least key.
\<close>

section \<open>Algorithms\<close>

definition parent :: "nat \<Rightarrow> nat" where
  "parent i = (i - 1) div 2"

lemma parent_less: "0 < i \<Longrightarrow> parent i < i"
  by (auto simp: parent_def)

function push_hole :: "('a \<Rightarrow> 'a \<Rightarrow> bool) \<Rightarrow> 'a list \<Rightarrow> nat \<Rightarrow> 'a \<Rightarrow> 'a list" where
  "push_hole cmp xs hole v =
     (if 0 < hole \<and> cmp (xs ! parent hole) v
      then push_hole cmp (xs[hole := xs ! parent hole]) (parent hole) v
      else xs[hole := v])"
  by pat_completeness auto
termination
  by (relation "measure (\<lambda>(cmp, xs, hole, v). hole)") (auto simp: parent_less)

declare push_hole.simps [simp del]

definition push_heap :: "('a \<Rightarrow> 'a \<Rightarrow> bool) \<Rightarrow> 'a list \<Rightarrow> 'a list" where
  "push_heap cmp xs =
     (if xs = [] then [] else push_hole cmp xs (length xs - 1) (last xs))"

text \<open>The preferred child of \<open>hole\<close> when it has two: the one \<open>cmp\<close> does not put below.\<close>

definition preferred_child :: "('a \<Rightarrow> 'a \<Rightarrow> bool) \<Rightarrow> 'a list \<Rightarrow> nat \<Rightarrow> nat" where
  "preferred_child cmp xs hole =
     (let c = 2 * (hole + 1) in if cmp (xs ! c) (xs ! (c - 1)) then c - 1 else c)"

function sink_hole :: "('a \<Rightarrow> 'a \<Rightarrow> bool) \<Rightarrow> 'a list \<Rightarrow> nat \<Rightarrow> 'a list \<times> nat" where
  "sink_hole cmp xs hole =
     (let len = length xs in
      if hole < (len - 1) div 2
      then sink_hole cmp (xs[hole := xs ! preferred_child cmp xs hole])
             (preferred_child cmp xs hole)
      else if even len \<and> 2 \<le> len \<and> hole = (len - 2) div 2
      then (xs[hole := xs ! (2 * hole + 1)], 2 * hole + 1)
      else (xs, hole))"
  by pat_completeness auto
termination
  by (relation "measure (\<lambda>(cmp, xs, hole). length xs - hole)")
     (auto simp: preferred_child_def Let_def)

declare sink_hole.simps [simp del]

definition pop_heap :: "('a \<Rightarrow> 'a \<Rightarrow> bool) \<Rightarrow> 'a list \<Rightarrow> 'a list" where
  "pop_heap cmp xs =
     (if length xs \<le> 1 then xs
      else let (ys, hole) = sink_hole cmp (butlast xs) 0
           in push_hole cmp ys hole (last xs) @ [hd xs])"

text \<open>The heap order for a comparison \<open>key a > key b\<close>: no key is below its parent's.\<close>

definition is_min_heap :: "('a \<Rightarrow> 'k::linorder) \<Rightarrow> 'a list \<Rightarrow> bool" where
  "is_min_heap key xs \<longleftrightarrow> (\<forall>i \<in> {1..<length xs}. key (xs ! parent i) \<le> key (xs ! i))"

abbreviation key_gt :: "('a \<Rightarrow> 'k::linorder) \<Rightarrow> 'a \<Rightarrow> 'a \<Rightarrow> bool" where
  "key_gt key \<equiv> (\<lambda>a b. key a > key b)"

section \<open>The contract of the standard\<close>

text \<open>
  The operations rearrange the vector; \<open>push\<close> makes a heap of a heap with one new last
  element, and \<open>pop\<close> moves the root to the end and leaves a heap in front of it.
\<close>

locale std_heap =
  fixes push :: "('a \<Rightarrow> 'a \<Rightarrow> bool) \<Rightarrow> 'a list \<Rightarrow> 'a list"
    and pop :: "('a \<Rightarrow> 'a \<Rightarrow> bool) \<Rightarrow> 'a list \<Rightarrow> 'a list"
    and key_type :: "'k::linorder itself"
  assumes push_perm: "mset (push (key_gt (key :: 'a \<Rightarrow> 'k)) xs) = mset xs"
    and push_makes_heap:
      "is_min_heap (key :: 'a \<Rightarrow> 'k) xs \<Longrightarrow> is_min_heap key (push (key_gt key) (xs @ [x]))"
    and pop_perm: "is_min_heap (key :: 'a \<Rightarrow> 'k) xs \<Longrightarrow> mset (pop (key_gt key) xs) = mset xs"
    and pop_last:
      "is_min_heap (key :: 'a \<Rightarrow> 'k) xs \<Longrightarrow> xs \<noteq> [] \<Longrightarrow> last (pop (key_gt key) xs) = hd xs"
    and pop_keeps_heap:
      "is_min_heap (key :: 'a \<Rightarrow> 'k) xs \<Longrightarrow> is_min_heap key (butlast (pop (key_gt key) xs))"

lemma min_heap_root:
  assumes "is_min_heap key xs" and "i < length xs"
  shows "key (xs ! 0) \<le> key (xs ! i)"
  using assms(2)
proof (induction i rule: less_induct)
  case (less i)
  show ?case
  proof (cases "i = 0")
    case False
    then have p: "parent i < i" by (simp add: parent_less)
    with less have "key (xs ! 0) \<le> key (xs ! parent i)" by simp
    also have "\<dots> \<le> key (xs ! i)"
      using assms(1) less.prems False by (auto simp: is_min_heap_def)
    finally show ?thesis .
  qed simp
qed

lemma min_heap_hd: "is_min_heap key xs \<Longrightarrow> x \<in> set xs \<Longrightarrow> key (hd xs) \<le> key x"
  by (metis hd_conv_nth in_set_conv_nth list.size(3) min_heap_root not_less_zero)

lemma is_min_heap_cong:
  "(\<And>x. x \<in> set xs \<Longrightarrow> key x = key' x) \<Longrightarrow> is_min_heap key xs = is_min_heap key' xs"
proof -
  assume eq: "\<And>x. x \<in> set xs \<Longrightarrow> key x = key' x"
  have "key (xs ! i) = key' (xs ! i)" "key (xs ! parent i) = key' (xs ! parent i)"
    if "i \<in> {1..<length xs}" for i
    using that parent_less [of i] by (auto intro!: eq nth_mem)
  then show ?thesis by (simp add: is_min_heap_def)
qed

lemma is_min_heap_Nil [simp]: "is_min_heap key []"
  by (simp add: is_min_heap_def)

context std_heap
begin

lemma pop_nonempty:
  "is_min_heap (key :: 'a \<Rightarrow> 'k) xs \<Longrightarrow> xs \<noteq> [] \<Longrightarrow> pop (key_gt key) xs \<noteq> []"
  using pop_perm [of key xs] by auto

lemma pop_min:
  assumes "is_min_heap (key :: 'a \<Rightarrow> 'k) xs" and "x \<in> set xs"
  shows "key (last (pop (key_gt key) xs)) \<le> key x"
proof -
  from assms(2) have "xs \<noteq> []" by auto
  then show ?thesis using min_heap_hd [OF assms] assms(1) by (simp add: pop_last)
qed

lemma pop_mset:
  assumes "is_min_heap (key :: 'a \<Rightarrow> 'k) xs" and "xs \<noteq> []"
  shows "mset xs = add_mset (hd xs) (mset (butlast (pop (key_gt key) xs)))"
proof -
  have "mset xs = mset (pop (key_gt key) xs)" using assms(1) by (simp add: pop_perm)
  also have "\<dots> = add_mset (last (pop (key_gt key) xs)) (mset (butlast (pop (key_gt key) xs)))"
    by (rule butlast_snoc_last) (rule pop_nonempty [OF assms])
  finally show ?thesis using assms by (simp add: pop_last)
qed

lemma push_snoc_set: "set (push (key_gt (key :: 'a \<Rightarrow> 'k)) (xs @ [x])) = insert x (set xs)"
  by (metis list.set(2) mset_eq_setD push_perm set_append empty_set Un_insert_right sup_bot_right)

lemma pop_distinct:
  assumes "is_min_heap (key :: 'a \<Rightarrow> 'k) xs" and "distinct xs" and "xs \<noteq> []"
  shows "distinct (butlast (pop (key_gt key) xs))"
    and "hd xs \<notin> set (butlast (pop (key_gt key) xs))"
    and "set (butlast (pop (key_gt key) xs)) = set xs - {hd xs}"
proof -
  let ?ys = "butlast (pop (key_gt key) xs)"
  have m: "mset xs = mset (hd xs # ?ys)" using pop_mset [OF assms(1,3)] by simp
  then have d: "distinct (hd xs # ?ys)" using assms(2) by (metis mset_eq_imp_distinct_iff)
  then show "distinct ?ys" and "hd xs \<notin> set ?ys" by auto
  have "set xs = insert (hd xs) (set ?ys)" using m by (metis list.set(2) mset_eq_setD)
  with d show "set ?ys = set xs - {hd xs}" by auto
qed

end

section \<open>The algorithms meet the contract\<close>

text \<open>
  While a value \<open>v\<close> is moved up from a hole, the vector with \<open>v\<close> stored in the hole is a
  heap but for the hole and its parent; the children of the hole are already above the
  parent.
\<close>

definition heap_except_up :: "('a \<Rightarrow> 'k::linorder) \<Rightarrow> 'a list \<Rightarrow> nat \<Rightarrow> bool" where
  "heap_except_up key ys hole \<longleftrightarrow>
     (\<forall>i \<in> {1..<length ys}. i \<noteq> hole \<longrightarrow> key (ys ! parent i) \<le> key (ys ! i)) \<and>
     (\<forall>i \<in> {1..<length ys}. 0 < hole \<and> parent i = hole \<longrightarrow> key (ys ! parent hole) \<le> key (ys ! i))"

text \<open>While the hole sinks, its own entry does not count.\<close>

definition heap_with_hole :: "('a \<Rightarrow> 'k::linorder) \<Rightarrow> 'a list \<Rightarrow> nat \<Rightarrow> bool" where
  "heap_with_hole key xs hole \<longleftrightarrow>
     (\<forall>i \<in> {1..<length xs}. i \<noteq> hole \<and> parent i \<noteq> hole \<longrightarrow> key (xs ! parent i) \<le> key (xs ! i)) \<and>
     (\<forall>i \<in> {1..<length xs}. 0 < hole \<and> parent i = hole \<longrightarrow> key (xs ! parent hole) \<le> key (xs ! i))"

lemma heap_except_upD:
  assumes "heap_except_up key ys hole" and "0 < i" and "i < length ys"
  shows "i \<noteq> hole \<Longrightarrow> key (ys ! parent i) \<le> key (ys ! i)"
    and "0 < hole \<Longrightarrow> parent i = hole \<Longrightarrow> key (ys ! parent hole) \<le> key (ys ! i)"
  using assms by (auto simp: heap_except_up_def)

lemma heap_with_holeD:
  assumes "heap_with_hole key xs hole" and "0 < i" and "i < length xs"
  shows "i \<noteq> hole \<Longrightarrow> parent i \<noteq> hole \<Longrightarrow> key (xs ! parent i) \<le> key (xs ! i)"
    and "0 < hole \<Longrightarrow> parent i = hole \<Longrightarrow> key (xs ! parent hole) \<le> key (xs ! i)"
  using assms by (auto simp: heap_with_hole_def)

subsection \<open>Moving a value up\<close>

lemma push_hole_up:
  "0 < hole \<Longrightarrow> cmp (xs ! parent hole) v \<Longrightarrow>
     push_hole cmp xs hole v = push_hole cmp (xs[hole := xs ! parent hole]) (parent hole) v"
  by (subst push_hole.simps) simp

lemma push_hole_stop:
  "\<not> (0 < hole \<and> cmp (xs ! parent hole) v) \<Longrightarrow> push_hole cmp xs hole v = xs[hole := v]"
  by (subst push_hole.simps) auto

lemma length_push_hole [simp]: "length (push_hole cmp xs hole v) = length xs"
proof (induction cmp xs hole v rule: push_hole.induct)
  case (1 cmp xs hole v)
  then show ?case by (subst push_hole.simps) simp
qed

lemma mset_push_hole: "hole < length xs \<Longrightarrow> mset (push_hole cmp xs hole v) = mset (xs[hole := v])"
proof (induction cmp xs hole v rule: push_hole.induct)
  case (1 cmp xs hole v)
  show ?case
  proof (cases "0 < hole \<and> cmp (xs ! parent hole) v")
    case True
    then have p: "parent hole < length xs" using "1.prems" parent_less [of hole] by simp
    have "mset (push_hole cmp xs hole v) = mset (xs[hole := xs ! parent hole, parent hole := v])"
      using "1" True p by (simp add: push_hole_up)
    also have "\<dots> = mset (xs[hole := v])"
      using p "1.prems" by (rule mset_list_update_swap)
    finally show ?thesis .
  next
    case False
    then show ?thesis by (simp add: push_hole_stop)
  qed
qed

lemma heap_except_up_step:
  assumes h: "heap_except_up key (xs[hole := v]) hole" and "0 < hole" and "hole < length xs"
    and gt: "key v < key (xs ! parent hole)"
  shows "heap_except_up key (xs[hole := xs ! parent hole, parent hole := v]) (parent hole)"
proof -
  let ?p = "parent hole"
  let ?ys = "xs[hole := v]" and ?zs = "xs[hole := xs ! parent hole, parent hole := v]"
  have p: "?p < hole" "?p < length xs" using assms parent_less [of hole] by auto
  have old: "?ys ! j = xs ! j" if "j \<noteq> hole" for j using that by simp
  have new: "?zs ! j = xs ! j" if "j \<noteq> hole" "j \<noteq> ?p" for j using that by simp
  have at: "?zs ! hole = xs ! ?p" "?zs ! ?p = v" using p assms(3) by auto
  have 1: "key (?zs ! parent i) \<le> key (?zs ! i)" if i: "0 < i" "i < length xs" "i \<noteq> ?p" for i
  proof -
    have ip: "parent i < i" using i parent_less by simp
    note up = heap_except_upD [OF h, of i]
    consider "i = hole" | "i \<noteq> hole" "parent i = ?p" | "i \<noteq> hole" "parent i = hole"
      | "i \<noteq> hole" "parent i \<noteq> ?p" "parent i \<noteq> hole" by blast
    then show ?thesis
    proof cases
      case 1
      then show ?thesis using at gt by simp
    next
      case 2
      then have "key (xs ! ?p) \<le> key (xs ! i)" using up(1) i old p by simp
      then show ?thesis using 2 gt at new i by simp
    next
      case 3
      then have "key (xs ! ?p) \<le> key (xs ! i)" using up(2) i old p assms(2) by simp
      then show ?thesis using 3 at new i by simp
    next
      case 4
      then show ?thesis using up(1) i old new by simp
    qed
  qed
  have 2: "key (?zs ! parent ?p) \<le> key (?zs ! i)"
    if i: "0 < i" "i < length xs" "0 < ?p" "parent i = ?p" for i
  proof -
    have pp: "parent ?p < ?p" using i parent_less by simp
    have a: "key (xs ! parent ?p) \<le> key (xs ! ?p)"
      using heap_except_upD(1) [OF h, of ?p] i p pp by simp
    have ne: "i \<noteq> ?p" using i parent_less [of i] by auto
    show ?thesis
    proof (cases "i = hole")
      case True
      then show ?thesis using a at new pp p by simp
    next
      case False
      then have "key (xs ! ?p) \<le> key (xs ! i)"
        using heap_except_upD(1) [OF h, of i] i p by simp
      with a have "key (xs ! parent ?p) \<le> key (xs ! i)" by simp
      then show ?thesis using False ne new pp p by simp
    qed
  qed
  show ?thesis using 1 2 by (auto simp: heap_except_up_def)
qed

lemma heap_except_up_done:
  assumes "heap_except_up key (xs[hole := v]) hole" and "\<not> (0 < hole \<and> key v < key (xs ! parent hole))"
  shows "is_min_heap key (xs[hole := v])"
proof -
  have "key (xs[hole := v] ! parent i) \<le> key (xs[hole := v] ! i)" if i: "0 < i" "i < length xs" for i
  proof (cases "i = hole")
    case True
    with assms(2) i have "key (xs ! parent hole) \<le> key v" by auto
    with True i show ?thesis using parent_less [of hole] by simp
  next
    case False
    with i assms(1) show ?thesis by (simp add: heap_except_up_def)
  qed
  then show ?thesis by (auto simp: is_min_heap_def)
qed

lemma push_hole_heap:
  "hole < length xs \<Longrightarrow> heap_except_up key (xs[hole := v]) hole \<Longrightarrow>
     is_min_heap key (push_hole (key_gt key) xs hole v)"
proof (induction hole arbitrary: xs rule: less_induct)
  case (less hole)
  show ?case
  proof (cases "0 < hole \<and> key v < key (xs ! parent hole)")
    case True
    then have "heap_except_up key (xs[hole := xs ! parent hole, parent hole := v]) (parent hole)"
      by (intro heap_except_up_step [OF less.prems(2) _ less.prems(1)]) simp_all
    moreover have "parent hole < hole" "parent hole < length (xs[hole := xs ! parent hole])"
      using True less.prems(1) parent_less [of hole] by auto
    ultimately have "is_min_heap key (push_hole (key_gt key) (xs[hole := xs ! parent hole]) (parent hole) v)"
      by (intro less.IH)
    with True show ?thesis by (subst push_hole_up) simp_all
  next
    case False
    with less.prems(2) have "is_min_heap key (xs[hole := v])" by (rule heap_except_up_done)
    with False show ?thesis by (subst push_hole_stop) simp_all
  qed
qed

subsection \<open>Sinking the hole\<close>

lemma sink_hole_two:
  "hole < (length xs - 1) div 2 \<Longrightarrow>
     sink_hole cmp xs hole =
       sink_hole cmp (xs[hole := xs ! preferred_child cmp xs hole]) (preferred_child cmp xs hole)"
  by (subst sink_hole.simps) (simp add: Let_def)

lemma sink_hole_one:
  "even (length xs) \<Longrightarrow> 2 \<le> length xs \<Longrightarrow> hole = (length xs - 2) div 2 \<Longrightarrow>
     sink_hole cmp xs hole = (xs[hole := xs ! (2 * hole + 1)], 2 * hole + 1)"
proof -
  assume e: "even (length xs)" "2 \<le> length xs" "hole = (length xs - 2) div 2"
  then have "\<not> hole < (length xs - 1) div 2" by presburger
  with e show ?thesis by (subst sink_hole.simps) (simp add: Let_def)
qed

lemma sink_hole_leaf:
  "\<not> hole < (length xs - 1) div 2 \<Longrightarrow>
   \<not> (even (length xs) \<and> 2 \<le> length xs \<and> hole = (length xs - 2) div 2) \<Longrightarrow>
     sink_hole cmp xs hole = (xs, hole)"
  by (subst sink_hole.simps) (auto simp: Let_def)

lemma parent_children: "parent i = hole \<Longrightarrow> 0 < i \<Longrightarrow> i = 2 * hole + 1 \<or> i = 2 * hole + 2"
  by (auto simp: parent_def)

lemma preferred_child_least:
  fixes key :: "'a \<Rightarrow> 'k::linorder"
  assumes "hole < (length xs - 1) div 2"
  defines "c \<equiv> preferred_child (key_gt key) xs hole"
  shows "c < length xs" and "parent c = hole" and "hole < c"
    and "0 < i \<Longrightarrow> parent i = hole \<Longrightarrow> key (xs ! c) \<le> key (xs ! i)"
proof -
  have b: "2 * hole + 2 < length xs" using assms(1) by linarith
  have c: "c = (if key (xs ! (2 * hole + 2)) > key (xs ! (2 * hole + 1)) then 2 * hole + 1 else 2 * hole + 2)"
    by (simp add: c_def preferred_child_def Let_def)
  show "c < length xs" "parent c = hole" "hole < c"
    using b by (auto simp: c parent_def)
  assume "0 < i" "parent i = hole"
  then have "i = 2 * hole + 1 \<or> i = 2 * hole + 2" by (rule parent_children [rotated])
  then show "key (xs ! c) \<le> key (xs ! i)" by (auto simp: c)
qed

text \<open>Moving the least child into the hole keeps the order everywhere else.\<close>

lemma heap_with_hole_step:
  assumes h: "heap_with_hole key xs hole" and c: "c < length xs" "parent c = hole" "hole < c"
    and least: "\<And>i. 0 < i \<Longrightarrow> i < length xs \<Longrightarrow> parent i = hole \<Longrightarrow> key (xs ! c) \<le> key (xs ! i)"
  shows "heap_with_hole key (xs[hole := xs ! c]) c"
proof -
  let ?ys = "xs[hole := xs ! c]"
  have new: "?ys ! j = xs ! j" if "j \<noteq> hole" for j using that by simp
  have at: "?ys ! hole = xs ! c" using c by simp
  have 1: "key (?ys ! parent i) \<le> key (?ys ! i)"
    if i: "0 < i" "i < length xs" "i \<noteq> c" "parent i \<noteq> c" for i
  proof -
    have ip: "parent i < i" using i parent_less by simp
    consider "i = hole" | "i \<noteq> hole" "parent i = hole" | "i \<noteq> hole" "parent i \<noteq> hole" by blast
    then show ?thesis
    proof cases
      case 1
      then show ?thesis using heap_with_holeD(2) [OF h, of c] c i at new ip by auto
    next
      case 2
      then show ?thesis using least i at new by simp
    next
      case 3
      then show ?thesis using heap_with_holeD(1) [OF h] i new by simp
    qed
  qed
  have 2: "key (?ys ! parent c) \<le> key (?ys ! i)" if i: "0 < i" "i < length xs" "parent i = c" for i
  proof -
    have "i \<noteq> hole" using i c parent_less [of i] by auto
    moreover have "key (xs ! c) \<le> key (xs ! i)"
      using heap_with_holeD(1) [OF h, of i] i c \<open>i \<noteq> hole\<close> by auto
    ultimately show ?thesis using c at new by simp
  qed
  show ?thesis using 1 2 by (auto simp: heap_with_hole_def)
qed

lemma heap_with_hole_leaf:
  assumes h: "heap_with_hole key xs hole" and "length xs \<le> 2 * hole + 1"
  shows "heap_except_up key (xs[hole := v]) hole"
proof -
  have leaf: "parent i \<noteq> hole" if "0 < i" "i < length xs" for i
    using parent_children [of i hole] that assms(2) by auto
  have "key (xs[hole := v] ! parent i) \<le> key (xs[hole := v] ! i)"
    if "0 < i" "i < length xs" "i \<noteq> hole" for i
    using heap_with_holeD(1) [OF h that(1,2,3)] leaf [OF that(1,2)] that(3) by simp
  with leaf show ?thesis by (auto simp: heap_except_up_def)
qed

lemma hole_leaf:
  fixes n hole :: nat
  assumes "\<not> hole < (n - 1) div 2" and "\<not> (even n \<and> 2 \<le> n \<and> hole = (n - 2) div 2)"
  shows "n \<le> 2 * hole + 1"
proof (cases "even n")
  case True
  then obtain k where "n = 2 * k" by blast
  with assms show ?thesis by (cases k) auto
next
  case False
  then obtain k where "n = 2 * k + 1" by (rule oddE)
  with assms(1) show ?thesis by simp
qed

lemma sink_hole_spec:
  assumes "hole < length xs" and "heap_with_hole key xs hole"
    and "sink_hole (key_gt key) xs hole = (ys, h)"
  shows "length ys = length xs \<and> h < length ys \<and> mset (ys[h := v]) = mset (xs[hole := v]) \<and>
     heap_except_up key (ys[h := v]) h"
  using assms
proof (induction "length xs - hole" arbitrary: xs hole rule: less_induct)
  case less
  let ?c = "preferred_child (key_gt key) xs hole"
  consider (two) "hole < (length xs - 1) div 2"
    | (one) "even (length xs)" "2 \<le> length xs" "hole = (length xs - 2) div 2"
    | (leaf) "\<not> hole < (length xs - 1) div 2"
        "\<not> (even (length xs) \<and> 2 \<le> length xs \<and> hole = (length xs - 2) div 2)" by blast
  then show ?case
  proof cases
    case two
    note c = preferred_child_least [OF two, where key = key]
    have "heap_with_hole key (xs[hole := xs ! ?c]) ?c"
      using less.prems(2) c by (intro heap_with_hole_step) auto
    moreover have "mset (xs[hole := xs ! ?c, ?c := v]) = mset (xs[hole := v])"
      using c(1) less.prems(1) by (rule mset_list_update_swap)
    moreover have "length xs - ?c < length xs - hole" using c by simp
    moreover have "sink_hole (key_gt key) (xs[hole := xs ! ?c]) ?c = (ys, h)"
      using less.prems(3) by (simp add: sink_hole_two [OF two])
    ultimately show ?thesis
      using less.hyps [of "xs[hole := xs ! ?c]" ?c] c(1) by simp
  next
    case one
    let ?d = "2 * hole + 1"
    have d: "?d < length xs" "parent ?d = hole" using one by (auto simp: parent_def)
    have e: "ys = xs[hole := xs ! ?d]" "h = ?d"
      using less.prems(3) unfolding sink_hole_one [OF one] by auto
    have len: "length xs = 2 * hole + 2" using one by presburger
    have only: "i = ?d" if "0 < i" "i < length xs" "parent i = hole" for i
      using parent_children [OF that(3,1)] that(2) len by simp
    have "heap_with_hole key (xs[hole := xs ! ?d]) ?d"
    proof (rule heap_with_hole_step [OF less.prems(2) d])
      fix i assume "0 < i" "i < length xs" "parent i = hole"
      then have "i = ?d" by (rule only)
      then show "key (xs ! ?d) \<le> key (xs ! i)" by simp
    qed simp
    then have "heap_except_up key (ys[h := v]) h"
      unfolding e using len by (intro heap_with_hole_leaf) simp_all
    moreover have "mset (ys[h := v]) = mset (xs[hole := v])"
      unfolding e using d(1) less.prems(1) by (rule mset_list_update_swap)
    ultimately show ?thesis using e d by simp
  next
    case leaf
    then have e: "ys = xs" "h = hole" using less.prems(3) by (simp_all add: sink_hole_leaf)
    have "length xs \<le> 2 * hole + 1" using leaf by (rule hole_leaf)
    then have "heap_except_up key (ys[h := v]) h"
      unfolding e using less.prems(2) by (intro heap_with_hole_leaf)
    then show ?thesis using e less.prems(1) by simp
  qed
qed

subsection \<open>push and pop\<close>

lemma mset_push_heap: "mset (push_heap cmp xs) = mset xs"
proof (cases "xs = []")
  case False
  then have "xs[length xs - 1 := last xs] = xs" by (simp add: last_conv_nth)
  with False show ?thesis by (simp add: push_heap_def mset_push_hole)
qed (simp add: push_heap_def)

lemma push_heap_heap:
  assumes "is_min_heap key xs"
  shows "is_min_heap key (push_heap (key_gt key) (xs @ [x]))"
proof -
  have "heap_except_up key (xs @ [x]) (length xs)"
    unfolding heap_except_up_def
  proof (intro conjI ballI impI)
    fix i assume i: "i \<in> {1..<length (xs @ [x])}" "i \<noteq> length xs"
    then have "parent i < i" "i < length xs" using parent_less [of i] by auto
    with assms i show "key ((xs @ [x]) ! parent i) \<le> key ((xs @ [x]) ! i)"
      by (simp add: is_min_heap_def nth_append)
  next
    fix i assume i: "i \<in> {1..<length (xs @ [x])}" "0 < length xs \<and> parent i = length xs"
    then have False using parent_less [of i] by auto
    then show "key ((xs @ [x]) ! parent (length xs)) \<le> key ((xs @ [x]) ! i)" ..
  qed
  then have "is_min_heap key (push_hole (key_gt key) (xs @ [x]) (length xs) x)"
    by (intro push_hole_heap) auto
  then show ?thesis by (simp add: push_heap_def)
qed

lemma min_heap_butlast: "is_min_heap key xs \<Longrightarrow> is_min_heap key (butlast xs)"
proof -
  assume h: "is_min_heap key xs"
  have "key (butlast xs ! parent i) \<le> key (butlast xs ! i)" if "i \<in> {1..<length (butlast xs)}" for i
    using h that parent_less [of i] by (auto simp: is_min_heap_def nth_butlast)
  then show ?thesis by (simp add: is_min_heap_def)
qed

lemma pop_heap_spec:
  assumes "1 < length xs" and h: "is_min_heap key xs"
  obtains zs where "pop_heap (key_gt key) xs = zs @ [hd xs]" "is_min_heap key zs"
    "mset zs = mset (tl xs)"
proof -
  let ?b = "butlast xs" and ?v = "last xs"
  obtain ys h' where s: "sink_hole (key_gt key) ?b 0 = (ys, h')" by force
  have b: "0 < length ?b" using assms(1) by simp
  have "heap_with_hole key ?b 0"
    using min_heap_butlast [OF h] by (auto simp: heap_with_hole_def is_min_heap_def)
  from sink_hole_spec [OF b this s, of ?v]
  have r: "h' < length ys" "mset (ys[h' := ?v]) = mset (?b[0 := ?v])" "heap_except_up key (ys[h' := ?v]) h'"
    by auto
  let ?zs = "push_hole (key_gt key) ys h' ?v"
  have "pop_heap (key_gt key) xs = ?zs @ [hd xs]"
    using assms(1) s by (simp add: pop_heap_def)
  moreover have "is_min_heap key ?zs" using r(1,3) by (rule push_hole_heap)
  moreover have "mset ?zs = mset (tl xs)"
  proof -
    obtain a as where xs: "xs = a # as" "as \<noteq> []" using assms(1) by (cases xs) auto
    then have "mset ?zs = add_mset (last as) (mset (butlast as))"
      using r by (simp add: mset_push_hole)
    also have "\<dots> = mset as" using xs(2) by (rule butlast_snoc_last [symmetric])
    finally show ?thesis by (simp add: xs)
  qed
  ultimately show ?thesis by (rule that)
qed

lemma pop_heap_small: "length xs \<le> 1 \<Longrightarrow> pop_heap cmp xs = xs"
  by (simp add: pop_heap_def)

lemma pop_heap_facts:
  assumes "is_min_heap key xs"
  shows "mset (pop_heap (key_gt key) xs) = mset xs \<and>
    (xs \<noteq> [] \<longrightarrow> last (pop_heap (key_gt key) xs) = hd xs) \<and>
    is_min_heap key (butlast (pop_heap (key_gt key) xs))"
proof (cases "1 < length xs")
  case True
  then show ?thesis
  proof (rule pop_heap_spec [OF _ assms])
    fix zs assume z: "pop_heap (key_gt key) xs = zs @ [hd xs]" "is_min_heap key zs" "mset zs = mset (tl xs)"
    have "mset xs = add_mset (hd xs) (mset (tl xs))" using True by (cases xs) auto
    then show ?thesis using z by simp
  qed
next
  case False
  then show ?thesis by (cases xs) (auto simp: pop_heap_small)
qed

interpretation libstdcxx: std_heap push_heap pop_heap "TYPE('k::linorder)"
proof unfold_locales
  fix key :: "'a \<Rightarrow> 'k" and xs x
  show "mset (push_heap (key_gt key) xs) = mset xs" by (rule mset_push_heap)
  assume h: "is_min_heap key xs"
  then show "is_min_heap key (push_heap (key_gt key) (xs @ [x]))" by (rule push_heap_heap)
  from pop_heap_facts [OF h]
  show "mset (pop_heap (key_gt key) xs) = mset xs"
    and "xs \<noteq> [] \<Longrightarrow> last (pop_heap (key_gt key) xs) = hd xs"
    and "is_min_heap key (butlast (pop_heap (key_gt key) xs))" by blast+
qed

end
