(* ===== verification/Frame_Sched.thy ===== *)
theory Frame_Sched
  imports Coroutine Std_Heap
begin

text \<open>
  frame.h and frame.cc without the socket calls: the scheduler.  The static members of
  \<open>Frame\<close> are the record \<open>frame\<close>; thread objects live in \<open>threads\<close>, a store indexed by
  address; \<open>cpu\<close> says whose context the processor executes.

  \<open>setcontext\<close> transfers control, so an operation that ends in \<open>Frame::Schedule\<close> is
  modelled up to the transfer: the state it returns is the one in which the chosen
  context starts to run.  A coroutine that is chosen again goes on behind its call.

  libevent is not part of the sources.  What the scheduler uses of it is which of the
  registered events fires during one pass of the event loop; that choice is the parameter
  \<open>poll\<close>.  Every callback breaks the loop, so one pass delivers at most one event.
\<close>

section \<open>State\<close>

text \<open>
  \<open>Boot\<close> is the process before \<open>Frame::Init\<close>, \<open>On p\<close> the context of thread \<open>p\<close>, and
  \<open>Crashed\<close> the result of using a null or dangling pointer or an indeterminate value.
\<close>

datatype cpu = Boot | On ptr | Crashed

text \<open>
  The event flags of libevent that the sources name; a combination of flags is a set.  A
  registered event is the thread on whose stack the \<open>struct event\<close> is, the descriptor and
  the flags.  \<open>io_wait_map\<close> is an association list with at most one entry per descriptor.
\<close>

datatype ev_flag = EV_TIMEOUT | EV_READ | EV_WRITE | EV_CLOSED

type_synonym event = "ptr \<times> int \<times> ev_flag set"

record frame =
  threads :: "ptr \<Rightarrow> thread option"
  next_ptr :: ptr
  io_wait_map :: "(int \<times> ptr) list"
  thread_runnable :: "ptr list"
  thread_free :: "ptr list"
  thread_pending :: "ptr list"
  main_thread :: ptr
  running_thread :: ptr
  base :: bool
  last_loop_ts :: u64
  evs :: "event list"
  cur :: cpu

record timeval =
  tv_sec :: u64
  tv_usec :: u64

definition Frame_static :: frame where
  "Frame_static = \<lparr>threads = Map.empty, next_ptr = 1, io_wait_map = [], thread_runnable = [],
     thread_free = [], thread_pending = [], main_thread = NULL, running_thread = NULL,
     base = False, last_loop_ts = 0, evs = [], cur = Boot\<rparr>"

section \<open>Thread objects\<close>

definition new_thread :: "frame \<Rightarrow> ptr \<times> frame" where
  "new_thread s =
     (next_ptr s, s\<lparr>threads := (threads s)(next_ptr s \<mapsto> Thread_ctor), next_ptr := next_ptr s + 1\<rparr>)"

definition upd_thread :: "ptr \<Rightarrow> (thread \<Rightarrow> thread) \<Rightarrow> frame \<Rightarrow> frame" where
  "upd_thread p f s =
     (case threads s p of None \<Rightarrow> s\<lparr>cur := Crashed\<rparr> | Some t \<Rightarrow> s\<lparr>threads := (threads s)(p \<mapsto> f t)\<rparr>)"

definition delete_thread :: "ptr \<Rightarrow> frame \<Rightarrow> frame" where
  "delete_thread p s =
     (if p = NULL then s
      else case threads s p of
        None \<Rightarrow> s\<lparr>cur := Crashed\<rparr>
      | Some _ \<Rightarrow> s\<lparr>threads := (threads s)(p := None)\<rparr>)"

text \<open>\<open>Thread::RestoreContext\<close>: \<open>setcontext\<close> on the saved context of the thread.\<close>

definition RestoreContext :: "ptr \<Rightarrow> frame \<Rightarrow> frame" where
  "RestoreContext p s =
     (case threads s p of
        None \<Rightarrow> s\<lparr>cur := Crashed\<rparr>
      | Some t \<Rightarrow> (if uc t = UcUnset then s\<lparr>cur := Crashed\<rparr> else s\<lparr>cur := On p\<rparr>))"

text \<open>The key by which sleeping threads are ordered.\<close>

definition wake_key :: "frame \<Rightarrow> ptr \<Rightarrow> u64" where
  "wake_key s p = (case threads s p of None \<Rightarrow> 0 | Some t \<Rightarrow> GetWakeupTime t)"

definition ThreadPendingTimeComp :: "frame \<Rightarrow> ptr \<Rightarrow> ptr \<Rightarrow> bool" where
  "ThreadPendingTimeComp s a b \<longleftrightarrow> wake_key s a > wake_key s b"

section \<open>Switching\<close>

definition Frame_Schedule :: "frame \<Rightarrow> frame" where
  "Frame_Schedule s =
     (case thread_runnable s of
        [] \<Rightarrow> RestoreContext (main_thread s) s
      | t # ts \<Rightarrow> RestoreContext t (s\<lparr>running_thread := t, thread_runnable := ts\<rparr>))"

definition RecycleRunningThread :: "frame \<Rightarrow> frame" where
  "RecycleRunningThread s =
     (let s1 = upd_thread (running_thread s) (SetState TS_DEAD) s
      in s1\<lparr>thread_free := thread_free s1 @ [running_thread s1], running_thread := NULL\<rparr>)"

text \<open>
  \<open>HandleProcess\<close> runs the work, deletes it, recycles the thread and schedules.  The work
  is user code made of the other operations; this is what happens once it has returned.
\<close>

definition HandleProcess_return :: "frame \<Rightarrow> frame" where
  "HandleProcess_return s = Frame_Schedule (RecycleRunningThread s)"

definition AllocNewThread :: "frame \<Rightarrow> ptr \<times> frame" where
  "AllocNewThread s =
     (if thread_free s = [] then new_thread s
      else let t = last (thread_free s);
               s1 = s\<lparr>thread_free := butlast (thread_free s)\<rparr>
           in (t, upd_thread t (SetState TS_STOP) s1))"

definition CreateThread :: "ptr \<Rightarrow> frame \<Rightarrow> ptr \<times> frame" where
  "CreateThread w s =
     (let (t, s1) = AllocNewThread s in
      if t = NULL then (NULL, s1)
      else let s2 = upd_thread t (\<lambda>th. snd (Thread_Init th)) s1;
               s3 = upd_thread t (SetContext HandleProcess_fn w) s2
           in (t, s3\<lparr>thread_runnable := thread_runnable s3 @ [t]\<rparr>))"

section \<open>Sleeping\<close>

definition PendThread :: "ptr \<Rightarrow> frame \<Rightarrow> frame" where
  "PendThread t s =
     (let v = thread_pending s @ [t]
      in s\<lparr>thread_pending := push_heap (ThreadPendingTimeComp s) v\<rparr>)"

definition PopPendingTop :: "frame \<Rightarrow> ptr \<times> frame" where
  "PopPendingTop s =
     (let v = pop_heap (ThreadPendingTimeComp s) (thread_pending s)
      in (last v, s\<lparr>thread_pending := butlast v\<rparr>))"

text \<open>\<open>now\<close> is what \<open>time::mstime()\<close> returns at the call; the addition wraps at 64 bits.\<close>

definition Sleep :: "u32 \<Rightarrow> u64 \<Rightarrow> frame \<Rightarrow> frame" where
  "Sleep ms now s =
     (let s' =
        (if running_thread s \<noteq> NULL
         then let r = running_thread s;
                  s1 = upd_thread r (Pending (now + ucast ms)) s;
                  s2 = upd_thread r (SetState TS_STOP) s1;
                  s3 = PendThread r s2;
                  s4 = upd_thread r Thread_Schedule s3
              in s4\<lparr>running_thread := NULL\<rparr>
         else s)
      in Frame_Schedule s')"

text \<open>
  \<open>*thread_pending_.begin()\<close>: the first element, or nothing defined when the vector is
  empty.
\<close>

definition begin_elem :: "ptr list \<Rightarrow> ptr option" where
  "begin_elem v = (case v of [] \<Rightarrow> None | t # _ \<Rightarrow> Some t)"

text \<open>
  The loop \<open>while (sz-- && n->GetWakeupTime() <= nowms)\<close>.  The last round reads
  \<open>begin()\<close> of a vector that may just have become empty; using that value would be
  undefined, so the model crashes if it is ever inspected.
\<close>

fun wakeup_loop :: "u64 \<Rightarrow> nat \<Rightarrow> ptr option \<Rightarrow> frame \<Rightarrow> frame" where
  "wakeup_loop now 0 n s = s"
| "wakeup_loop now (Suc sz) None s = s\<lparr>cur := Crashed\<rparr>"
| "wakeup_loop now (Suc sz) (Some n) s =
     (if wake_key s n \<le> now
      then let (t, s1) = PopPendingTop s;
               s2 = upd_thread t (Pending 0) s1;
               s3 = upd_thread t (SetState TS_RUNNABLE) s2;
               s4 = s3\<lparr>thread_runnable := thread_runnable s3 @ [t]\<rparr>
           in wakeup_loop now sz (begin_elem (thread_pending s4)) s4
      else s)"

definition WakeupPendingThread :: "frame \<Rightarrow> frame" where
  "WakeupPendingThread s =
     (if thread_pending s \<noteq> []
      then wakeup_loop (last_loop_ts s) (length (thread_pending s))
             (begin_elem (thread_pending s)) s
      else s)"

section \<open>The event loop\<close>

definition UpdateLoopTimestamp :: "u64 \<Rightarrow> frame \<Rightarrow> frame" where
  "UpdateLoopTimestamp now s = s\<lparr>last_loop_ts := now\<rparr>"

text \<open>
  The difference of the unsigned times is stored in a C int, so it is cut to 32 bits and
  read as signed; dividing it by \<open>1000llu\<close> widens it again with its sign.
\<close>

definition GetEventLoopTimeout :: "frame \<Rightarrow> timeval" where
  "GetEventLoopTimeout s =
     (let nowms = last_loop_ts s in
      case thread_pending s of
        [] \<Rightarrow> \<lparr>tv_sec = 0, tv_usec = 100000\<rparr>
      | mint # _ \<Rightarrow>
          (if wake_key s mint < nowms then \<lparr>tv_sec = 0, tv_usec = 0\<rparr>
           else let delta = (ucast (wake_key s mint - nowms) :: 32 word);
                    wide = (scast delta :: u64);
                    sec = wide div 1000
                in \<lparr>tv_sec = sec, tv_usec = (wide - sec * 1000) * 1000\<rparr>))"

text \<open>\<open>io_wait_map_[fd]\<close> makes a null entry when there is none.\<close>

definition io_lookup :: "(int \<times> ptr) list \<Rightarrow> int \<Rightarrow> ptr" where
  "io_lookup m fd = (case map_of m fd of None \<Rightarrow> NULL | Some t \<Rightarrow> t)"

definition SocketReadOrWrite :: "event \<Rightarrow> frame \<Rightarrow> frame" where
  "SocketReadOrWrite ev s =
     (let fd = fst (snd ev);
          s1 = s\<lparr>evs := remove1 ev (evs s)\<rparr>;
          s2 = s1\<lparr>thread_runnable := thread_runnable s1 @ [io_lookup (io_wait_map s1) fd]\<rparr>
      in s2\<lparr>io_wait_map := AList.delete fd (io_wait_map s2)\<rparr>)"

definition EventLoop :: "(timeval \<Rightarrow> event list \<Rightarrow> event option) \<Rightarrow> timeval \<Rightarrow> frame \<Rightarrow> frame" where
  "EventLoop poll tv s =
     (let s1 = s\<lparr>base := True\<rparr> in
      case poll tv (evs s1) of None \<Rightarrow> s1 | Some ev \<Rightarrow> SocketReadOrWrite ev s1)"

text \<open>One round of \<open>while (true)\<close> in \<open>MainThreadLoop\<close>.\<close>

definition MainThreadLoop_round :: "(timeval \<Rightarrow> event list \<Rightarrow> event option) \<Rightarrow> u64 \<Rightarrow> frame \<Rightarrow> frame" where
  "MainThreadLoop_round poll now s =
     (let s1 = UpdateLoopTimestamp now s;
          tv = GetEventLoopTimeout s1;
          s2 = EventLoop poll tv s1;
          s3 = WakeupPendingThread s2
      in Frame_Schedule s3)"

text \<open>
  The block that every blocking socket call executes when the descriptor is not ready:
  register an event, enter the thread into \<open>io_wait_map_\<close>, save the context, stop and
  schedule.
\<close>

definition wait_io :: "int \<Rightarrow> ev_flag set \<Rightarrow> frame \<Rightarrow> frame" where
  "wait_io fd flags s =
     (let r = running_thread s;
          s1 = s\<lparr>base := True, evs := evs s @ [(r, fd, flags)]\<rparr>;
          s2 = s1\<lparr>io_wait_map := AList.update fd r (io_wait_map s1)\<rparr>;
          s3 = upd_thread r Thread_Schedule s2;
          s4 = upd_thread r (SetState TS_STOP) s3
      in Frame_Schedule s4)"

section \<open>Start and end\<close>

fun push_free :: "nat \<Rightarrow> frame \<Rightarrow> frame" where
  "push_free 0 s = s"
| "push_free (Suc n) s =
     (let (t, s1) = new_thread s in push_free n (s1\<lparr>thread_free := thread_free s1 @ [t]\<rparr>))"

definition Frame_Init :: "frame \<Rightarrow> bool \<times> frame" where
  "Frame_Init s =
     (if main_thread s \<noteq> NULL \<or> base s then (False, s)
      else let (m, s1) = new_thread s;
               s2 = upd_thread m (\<lambda>th. snd (Thread_Init th)) s1;
               s3 = upd_thread m (SetContext MainThreadLoop_fn NULL) s2;
               s4 = s3\<lparr>main_thread := m\<rparr>;
               (r, s5) = new_thread s4;
               ok = (case threads s5 r of None \<Rightarrow> False | Some th \<Rightarrow> fst (Thread_Init th));
               s6 = upd_thread r (\<lambda>th. snd (Thread_Init th)) (s5\<lparr>running_thread := r, cur := On r\<rparr>)
           in if \<not> ok then (False, s6)
              else let s7 = push_free 1000 s6;
                       s8 = upd_thread r Thread_Schedule s7
                   in (True, s8\<lparr>base := False\<rparr>))"

text \<open>
  \<open>Fini\<close> deletes the running and the main thread and the threads of three of the four
  containers; it empties none of them and leaves the sleeping threads alone.
\<close>

definition Frame_Fini :: "frame \<Rightarrow> bool \<times> frame" where
  "Frame_Fini s =
     (let s1 = (delete_thread (running_thread s) s)\<lparr>running_thread := NULL\<rparr>;
          s2 = (delete_thread (main_thread s1) s1)\<lparr>main_thread := NULL\<rparr>;
          s3 = fold delete_thread (thread_runnable s2) s2;
          s4 = fold delete_thread (thread_free s3) s3;
          s5 = fold delete_thread (map snd (io_wait_map s4)) s4
      in (True, s5))"

text \<open>
  \<open>InitHereAsNewThread\<close> makes the calling context a fresh running thread: from the start
  of the call it is the context of that thread that executes.  Its body has no return
  statement, so it has no result to model.
\<close>

definition InitHereAsNewThread :: "frame \<Rightarrow> frame" where
  "InitHereAsNewThread s =
     (let (t, s1) = new_thread s;
          s2 = upd_thread t (\<lambda>th. snd (Thread_Init th)) (s1\<lparr>cur := On t\<rparr>);
          s3 = upd_thread t Thread_Schedule s2
      in s3\<lparr>running_thread := t\<rparr>)"

end
