(* ===== verification/Frame_Inv.thy ===== *)
theory Frame_Inv
  imports Frame_Sched
begin

text \<open>
  The invariant of the scheduler and the proof that every operation keeps it.  A thread
  object is in exactly one place: the main loop's thread, the thread that executes, or one
  entry of the run queue, the heap of sleepers, the map of waiters or the free list.
\<close>

section \<open>Invariant\<close>

definition stored :: "frame \<Rightarrow> ptr list" where
  "stored s = thread_runnable s @ thread_pending s @ map snd (io_wait_map s) @ thread_free s"

definition suspended :: "frame \<Rightarrow> ptr list" where
  "suspended s = thread_runnable s @ thread_pending s @ map snd (io_wait_map s)"

definition resumable :: "frame \<Rightarrow> ptr \<Rightarrow> bool" where
  "resumable s p \<longleftrightarrow> (\<exists>t. threads s p = Some t \<and> uc t \<noteq> UcUnset)"

definition has_wakeup :: "frame \<Rightarrow> ptr \<Rightarrow> bool" where
  "has_wakeup s p \<longleftrightarrow> (\<exists>t. threads s p = Some t \<and> wakeup_ts t \<noteq> None)"

definition main_ready :: "frame \<Rightarrow> bool" where
  "main_ready s \<longleftrightarrow>
     (\<exists>t k. threads s (main_thread s) = Some t \<and> uc t = UcEntry MainThreadLoop_fn NULL k)"

definition ev_entry :: "event \<Rightarrow> int \<times> ptr" where
  "ev_entry ev = (fst (snd ev), fst ev)"

text \<open>
  The thread objects at addresses \<open>d\<close>, all below \<open>n\<close>, are each either at one position of
  \<open>ps\<close> or in \<open>L\<close>, the objects the framework no longer refers to.
\<close>

definition placed :: "ptr set \<Rightarrow> ptr list \<Rightarrow> ptr set \<Rightarrow> ptr \<Rightarrow> bool" where
  "placed L ps d n \<longleftrightarrow> distinct ps \<and> d = set ps \<union> L \<and> set ps \<inter> L = {} \<and> d \<subseteq> {0<..<n}"

definition contexts_ok :: "frame \<Rightarrow> bool" where
  "contexts_ok s \<longleftrightarrow> (\<forall>p \<in> set (suspended s). resumable s p)"

definition sleepers_ok :: "frame \<Rightarrow> bool" where
  "sleepers_ok s \<longleftrightarrow>
     (\<forall>p \<in> set (thread_pending s). has_wakeup s p) \<and> is_min_heap (wake_key s) (thread_pending s)"

definition waiters_ok :: "frame \<Rightarrow> bool" where
  "waiters_ok s \<longleftrightarrow> distinct (map fst (io_wait_map s)) \<and> map ev_entry (evs s) = io_wait_map s"

text \<open>\<open>core_inv L a s\<close>: the containers of \<open>s\<close> are in order when the threads \<open>a\<close> execute.\<close>

definition core_inv :: "ptr set \<Rightarrow> ptr list \<Rightarrow> frame \<Rightarrow> bool" where
  "core_inv L a s \<longleftrightarrow>
     placed L (main_thread s # a @ stored s) (dom (threads s)) (next_ptr s) \<and>
     main_ready s \<and> contexts_ok s \<and> sleepers_ok s \<and> waiters_ok s"

text \<open>
  The invariant between two operations: either the main loop runs, or \<open>running_thread_\<close> is
  the thread whose context executes.
\<close>

definition frame_inv :: "ptr set \<Rightarrow> frame \<Rightarrow> bool" where
  "frame_inv L s \<longleftrightarrow>
     (cur s = On (main_thread s) \<and> core_inv L [] s) \<or>
     (cur s = On (running_thread s) \<and> core_inv L [running_thread s] s)"

text \<open>A coroutine other than the main loop executes.\<close>

definition in_thread :: "frame \<Rightarrow> bool" where
  "in_thread s \<longleftrightarrow> cur s = On (running_thread s) \<and> running_thread s \<noteq> main_thread s"

section \<open>Rewriting\<close>

lemmas part_defs = stored_def suspended_def resumable_def has_wakeup_def main_ready_def
  contexts_ok_def sleepers_ok_def waiters_ok_def wake_key_def [abs_def]

text \<open>Where a thread is does not matter for \<open>placed\<close>; operations that move threads keep it.\<close>

lemma placed_cong: "mset ps = mset qs \<Longrightarrow> placed L ps d n = placed L qs d n"
  unfolding placed_def by (metis mset_eq_imp_distinct_iff mset_eq_setD)

lemma placed_live: "placed L ps (dom (threads s)) n \<Longrightarrow> p \<in> set ps \<Longrightarrow> \<exists>t. threads s p = Some t"
  by (auto simp: placed_def)

lemma placed_pos: "placed L ps d n \<Longrightarrow> p \<in> set ps \<Longrightarrow> 0 < p \<and> p < n"
  by (auto simp: placed_def)

lemma core_inv_update [simp]:
  "core_inv L a (s\<lparr>cur := c\<rparr>) = core_inv L a s"
  "core_inv L a (s\<lparr>running_thread := r\<rparr>) = core_inv L a s"
  "core_inv L a (s\<lparr>base := b\<rparr>) = core_inv L a s"
  "core_inv L a (s\<lparr>last_loop_ts := ts\<rparr>) = core_inv L a s"
  by (simp_all add: core_inv_def part_defs)

lemma core_inv_cong:
  assumes "threads s' = threads s" "next_ptr s' = next_ptr s" "main_thread s' = main_thread s"
    "thread_runnable s' = thread_runnable s" "thread_pending s' = thread_pending s"
    "io_wait_map s' = io_wait_map s" "thread_free s' = thread_free s" "evs s' = evs s"
  shows "core_inv L a s' = core_inv L a s"
  using assms by (simp add: core_inv_def part_defs)

lemma frame_inv_main: "frame_inv L s \<Longrightarrow> cur s = On (main_thread s) \<Longrightarrow> core_inv L [] s"
  by (auto simp: frame_inv_def core_inv_def placed_def)

lemma frame_inv_thread: "frame_inv L s \<Longrightarrow> in_thread s \<Longrightarrow> core_inv L [running_thread s] s"
  by (auto simp: frame_inv_def in_thread_def)

lemma upd_thread_live:
  "threads s p = Some t \<Longrightarrow> upd_thread p f s = s\<lparr>threads := (threads s)(p \<mapsto> f t)\<rparr>"
  by (simp add: upd_thread_def)

lemma ThreadPendingTimeComp_eq: "ThreadPendingTimeComp s = key_gt (wake_key s)"
  by (auto simp: ThreadPendingTimeComp_def fun_eq_iff)

lemma map_remove1_delete:
  assumes "distinct (map fst (map ev_entry xs))" and "ev \<in> set xs"
  shows "map ev_entry (remove1 ev xs) = AList.delete (fst (snd ev)) (map ev_entry xs)"
  using assms
proof (induction xs)
  case (Cons x xs)
  show ?case
  proof (cases "x = ev")
    case True
    with Cons.prems(1) have "fst (snd ev) \<notin> fst ` set (map ev_entry xs)"
      by (force simp: ev_entry_def)
    with True show ?thesis by (simp add: ev_entry_def)
  next
    case False
    with Cons.prems have ev: "ev \<in> set xs" by simp
    then have "ev_entry ev \<in> set (map ev_entry xs)" by simp
    with Cons.prems(1) have "fst (snd x) \<noteq> fst (snd ev)"
      by (force simp: ev_entry_def)
    with False Cons ev show ?thesis by (simp add: ev_entry_def)
  qed
qed simp

section \<open>Switching\<close>

lemma RestoreContext_resumable: "resumable s p \<Longrightarrow> RestoreContext p s = s\<lparr>cur := On p\<rparr>"
  by (auto simp: RestoreContext_def resumable_def)

lemma Frame_Schedule_idle:
  assumes "core_inv L [] s" and "thread_runnable s = []"
  shows "Frame_Schedule s = s\<lparr>cur := On (main_thread s)\<rparr>"
proof -
  from assms(1) have "resumable s (main_thread s)"
    by (auto simp: core_inv_def main_ready_def resumable_def)
  with assms(2) show ?thesis by (simp add: Frame_Schedule_def RestoreContext_resumable)
qed

lemma Frame_Schedule_next:
  assumes "core_inv L [] s" and "thread_runnable s = t # ts"
  shows "Frame_Schedule s = s\<lparr>running_thread := t, thread_runnable := ts, cur := On t\<rparr>"
proof -
  let ?s = "s\<lparr>running_thread := t, thread_runnable := ts\<rparr>"
  have "resumable s t" using assms by (simp add: core_inv_def contexts_ok_def suspended_def)
  then have "resumable ?s t" by (simp add: resumable_def)
  then show ?thesis using assms(2) by (simp add: Frame_Schedule_def RestoreContext_resumable)
qed

lemma core_inv_pop_runnable:
  assumes c: "core_inv L [] s" and r: "thread_runnable s = t # ts"
  shows "core_inv L [t] (s\<lparr>thread_runnable := ts\<rparr>)"
proof -
  let ?s = "s\<lparr>thread_runnable := ts\<rparr>"
  have "main_thread ?s # [t] @ stored ?s = main_thread s # [] @ stored s"
    using r by (simp add: stored_def)
  with c have "placed L (main_thread ?s # [t] @ stored ?s) (dom (threads ?s)) (next_ptr ?s)"
    by (simp add: core_inv_def)
  with c r show ?thesis by (auto simp: core_inv_def part_defs)
qed

lemma Frame_Schedule_inv:
  assumes "core_inv L [] s"
  shows "frame_inv L (Frame_Schedule s)"
proof (cases "thread_runnable s")
  case Nil
  with assms show ?thesis by (simp add: frame_inv_def Frame_Schedule_idle)
next
  case (Cons t ts)
  then have "core_inv L [t] (s\<lparr>thread_runnable := ts\<rparr>)"
    using assms by (rule core_inv_pop_runnable [rotated])
  then have "core_inv L [t] (Frame_Schedule s)"
    by (rule core_inv_cong [THEN iffD1, rotated -1]) (simp_all add: Frame_Schedule_next [OF assms Cons])
  then show ?thesis
    using Frame_Schedule_next [OF assms Cons] by (simp add: frame_inv_def)
qed

section \<open>Leaving the processor\<close>

lemma core_inv_parts:
  assumes "core_inv L a s"
  shows "placed L (main_thread s # a @ stored s) (dom (threads s)) (next_ptr s)"
    and "main_ready s" and "contexts_ok s" and "sleepers_ok s" and "waiters_ok s"
  using assms by (auto simp: core_inv_def)

text \<open>The thread that executes is live and in none of the containers.\<close>

lemma active_thread:
  assumes "core_inv L [r] s"
  obtains t where "threads s r = Some t" and "r \<noteq> main_thread s" and "r \<notin> set (stored s)"
    and "r \<noteq> NULL"
proof -
  note p = core_inv_parts(1) [OF assms]
  obtain t where "threads s r = Some t" using placed_live [OF p, of r] by auto
  moreover have "r \<noteq> main_thread s" "r \<notin> set (stored s)" using p by (auto simp: placed_def)
  moreover have "r \<noteq> NULL" using placed_pos [OF p, of r] by auto
  ultimately show ?thesis by (rule that)
qed

lemma wake_key_other: "q \<noteq> p \<Longrightarrow> wake_key (s\<lparr>threads := (threads s)(p \<mapsto> t)\<rparr>) q = wake_key s q"
  by (simp add: wake_key_def)

lemma is_min_heap_other:
  assumes "p \<notin> set xs"
  shows "is_min_heap (wake_key (s\<lparr>threads := (threads s)(p \<mapsto> t)\<rparr>)) xs = is_min_heap (wake_key s) xs"
  by (rule is_min_heap_cong) (use assms wake_key_other in metis)

lemma sleepers_ok_agree:
  assumes "thread_pending s' = thread_pending s"
    and agree: "\<And>p. p \<in> set (thread_pending s) \<Longrightarrow>
      map_option wakeup_ts (threads s' p) = map_option wakeup_ts (threads s p)"
  shows "sleepers_ok s' = sleepers_ok s"
proof -
  have "wake_key s' p = wake_key s p" "has_wakeup s' p = has_wakeup s p"
    if "p \<in> set (thread_pending s)" for p
    using agree [OF that]
    by (auto simp: wake_key_def has_wakeup_def GetWakeupTime_def map_option_case split: option.splits)
  moreover from this have "is_min_heap (wake_key s') (thread_pending s) =
      is_min_heap (wake_key s) (thread_pending s)" by (intro is_min_heap_cong) simp
  ultimately show ?thesis using assms(1) by (simp add: sleepers_ok_def)
qed

text \<open>
  The state in which \<open>Sleep\<close> schedules: the thread is stopped, has its wake-up time and is
  in the heap.
\<close>

definition slept :: "ptr \<Rightarrow> u64 \<Rightarrow> thread \<Rightarrow> frame \<Rightarrow> frame" where
  "slept r w t s =
     (let s' = s\<lparr>threads := (threads s)(r \<mapsto> t\<lparr>wakeup_ts := Some w, state := Some TS_STOP, uc := UcSaved\<rparr>)\<rparr>
      in s\<lparr>thread_pending := push_heap (key_gt (wake_key s')) (thread_pending s @ [r]),
           threads := threads s', running_thread := NULL\<rparr>)"

lemma Sleep_eq:
  assumes "threads s (running_thread s) = Some t" and "running_thread s \<noteq> NULL"
  shows "Sleep ms now s = Frame_Schedule (slept (running_thread s) (now + ucast ms) t s)"
proof -
  let ?r = "running_thread s" and ?w = "now + ucast ms"
  let ?s2 = "s\<lparr>threads := (threads s)(?r \<mapsto> t\<lparr>wakeup_ts := Some ?w, state := Some TS_STOP\<rparr>)\<rparr>"
  let ?s4 = "s\<lparr>threads := (threads s)(?r \<mapsto> t\<lparr>wakeup_ts := Some ?w, state := Some TS_STOP, uc := UcSaved\<rparr>)\<rparr>"
  have "wake_key ?s2 = wake_key ?s4"
    by (auto simp: wake_key_def GetWakeupTime_def fun_eq_iff)
  then show ?thesis
    using assms
    by (simp add: Sleep_def Let_def upd_thread_live PendThread_def ThreadPendingTimeComp_eq slept_def)
qed

lemma slept_core_inv:
  assumes c: "core_inv L [r] s" and t: "threads s r = Some t"
  shows "core_inv L [] (slept r w t s)"
proof -
  let ?t = "t\<lparr>wakeup_ts := Some w, state := Some TS_STOP, uc := UcSaved\<rparr>"
  let ?s' = "s\<lparr>threads := (threads s)(r \<mapsto> ?t)\<rparr>"
  let ?v = "push_heap (key_gt (wake_key ?s')) (thread_pending s @ [r])"
  have s: "slept r w t s = s\<lparr>thread_pending := ?v, threads := threads ?s', running_thread := NULL\<rparr>"
    by (simp add: slept_def Let_def)
  note parts = core_inv_parts [OF c]
  from c have r: "r \<noteq> main_thread s" "r \<notin> set (stored s)" by (auto elim: active_thread)
  have m: "mset ?v = add_mset r (mset (thread_pending s))"
    by (simp add: libstdcxx.push_perm)
  then have sv: "set ?v = insert r (set (thread_pending s))" by (metis set_mset_add_mset_insert set_mset_mset)
  have dom: "dom (threads ?s') = dom (threads s)" using t by auto
  have key: "wake_key (slept r w t s) = wake_key ?s'" by (simp add: s wake_key_def [abs_def])
  have eq: "mset (main_thread s # [r] @ stored s) = mset (main_thread s # [] @ stored (slept r w t s))"
    by (simp add: s stored_def m)
  have "placed L (main_thread s # [] @ stored (slept r w t s)) (dom (threads s)) (next_ptr s)"
    by (rule placed_cong [THEN iffD1, OF eq parts(1)])
  then have "placed L (main_thread (slept r w t s) # [] @ stored (slept r w t s))
      (dom (threads (slept r w t s))) (next_ptr (slept r w t s))"
    unfolding s using dom by simp
  moreover have "sleepers_ok (slept r w t s)"
  proof -
    have "is_min_heap (wake_key ?s') (thread_pending s)"
      using parts(4) r(2) by (simp add: is_min_heap_other sleepers_ok_def stored_def)
    then have "is_min_heap (wake_key ?s') ?v" by (rule libstdcxx.push_makes_heap)
    moreover have "has_wakeup (slept r w t s) p" if "p \<in> set ?v" for p
      using that parts(4) unfolding sv by (cases "p = r") (auto simp: s has_wakeup_def sleepers_ok_def)
    ultimately show ?thesis unfolding sleepers_ok_def key by (simp add: s)
  qed
  moreover have "contexts_ok (slept r w t s)"
  proof -
    have "set (suspended (slept r w t s)) = insert r (set (suspended s))"
      by (auto simp: suspended_def s sv)
    then show ?thesis using parts(3) by (auto simp: contexts_ok_def resumable_def s)
  qed
  moreover have "main_ready (slept r w t s)" "waiters_ok (slept r w t s)"
    using parts(2,5) r(1) by (simp_all add: main_ready_def waiters_ok_def s)
  ultimately show ?thesis by (simp add: core_inv_def)
qed

lemma Sleep_inv:
  assumes "core_inv L [running_thread s] s"
  shows "frame_inv L (Sleep ms now s)"
proof -
  obtain t where "threads s (running_thread s) = Some t" "running_thread s \<noteq> NULL"
    using assms by (rule active_thread)
  then show ?thesis
    using assms by (simp add: Sleep_eq Frame_Schedule_inv slept_core_inv)
qed

text \<open>The state in which a blocking socket call schedules.\<close>

definition parked :: "ptr \<Rightarrow> int \<Rightarrow> ev_flag set \<Rightarrow> thread \<Rightarrow> frame \<Rightarrow> frame" where
  "parked r fd flags t s =
     s\<lparr>base := True, evs := evs s @ [(r, fd, flags)], io_wait_map := AList.update fd r (io_wait_map s),
       threads := (threads s)(r \<mapsto> t\<lparr>uc := UcSaved, state := Some TS_STOP\<rparr>)\<rparr>"

lemma wait_io_eq:
  "threads s (running_thread s) = Some t \<Longrightarrow>
     wait_io fd flags s = Frame_Schedule (parked (running_thread s) fd flags t s)"
  by (simp add: wait_io_def Let_def upd_thread_live parked_def)

lemma parked_core_inv:
  assumes c: "core_inv L [r] s" and t: "threads s r = Some t" and fd: "fd \<notin> fst ` set (io_wait_map s)"
  shows "core_inv L [] (parked r fd flags t s)"
proof -
  let ?s = "parked r fd flags t s"
  note parts = core_inv_parts [OF c]
  from c have r: "r \<noteq> main_thread s" "r \<notin> set (stored s)" by (auto elim: active_thread)
  have io: "io_wait_map ?s = io_wait_map s @ [(fd, r)]"
    using fd by (simp add: parked_def alist_update_fresh)
  have dom: "dom (threads ?s) = dom (threads s)" using t by (auto simp: parked_def)
  have eq: "mset (main_thread s # [r] @ stored s) = mset (main_thread s # [] @ stored ?s)"
    unfolding stored_def io by (simp add: parked_def)
  have "placed L (main_thread s # [] @ stored ?s) (dom (threads s)) (next_ptr s)"
    by (rule placed_cong [THEN iffD1, OF eq parts(1)])
  then have "placed L (main_thread ?s # [] @ stored ?s) (dom (threads ?s)) (next_ptr ?s)"
    unfolding dom by (simp add: parked_def)
  moreover have "sleepers_ok ?s = sleepers_ok s"
    by (rule sleepers_ok_agree) (use r in \<open>auto simp: parked_def stored_def\<close>)
  then have "sleepers_ok ?s" using parts(4) by simp
  moreover have "contexts_ok ?s"
  proof -
    have "set (suspended ?s) = insert r (set (suspended s))"
      unfolding suspended_def io by (auto simp: parked_def)
    then show ?thesis using parts(3) by (auto simp: contexts_ok_def resumable_def parked_def)
  qed
  moreover have "main_ready ?s" using parts(2) r by (simp add: main_ready_def parked_def)
  moreover have "waiters_ok ?s"
    using parts(5) fd by (auto simp: waiters_ok_def io, simp add: parked_def ev_entry_def)
  ultimately show ?thesis by (simp add: core_inv_def)
qed

lemma wait_io_inv:
  assumes "core_inv L [running_thread s] s" and "fd \<notin> fst ` set (io_wait_map s)"
  shows "frame_inv L (wait_io fd flags s)"
proof -
  obtain t where "threads s (running_thread s) = Some t"
    using assms(1) by (rule active_thread)
  then show ?thesis
    using assms by (simp add: wait_io_eq Frame_Schedule_inv parked_core_inv)
qed

text \<open>A finished thread goes to the end of the free list.\<close>

definition recycled :: "ptr \<Rightarrow> thread \<Rightarrow> frame \<Rightarrow> frame" where
  "recycled r t s =
     s\<lparr>threads := (threads s)(r \<mapsto> t\<lparr>state := Some TS_DEAD\<rparr>), thread_free := thread_free s @ [r],
       running_thread := NULL\<rparr>"

lemma RecycleRunningThread_eq:
  "threads s (running_thread s) = Some t \<Longrightarrow>
     RecycleRunningThread s = recycled (running_thread s) t s"
  by (simp add: RecycleRunningThread_def Let_def upd_thread_live recycled_def)

lemma recycled_core_inv:
  assumes c: "core_inv L [r] s" and t: "threads s r = Some t"
  shows "core_inv L [] (recycled r t s)"
proof -
  let ?s = "recycled r t s"
  note parts = core_inv_parts [OF c]
  from c have r: "r \<noteq> main_thread s" "r \<notin> set (stored s)" by (auto elim: active_thread)
  have dom: "dom (threads ?s) = dom (threads s)" using t by (auto simp: recycled_def)
  have eq: "mset (main_thread s # [r] @ stored s) = mset (main_thread s # [] @ stored ?s)"
    by (simp add: stored_def recycled_def)
  have "placed L (main_thread s # [] @ stored ?s) (dom (threads s)) (next_ptr s)"
    by (rule placed_cong [THEN iffD1, OF eq parts(1)])
  then have "placed L (main_thread ?s # [] @ stored ?s) (dom (threads ?s)) (next_ptr ?s)"
    unfolding dom by (simp add: recycled_def)
  moreover have "sleepers_ok ?s = sleepers_ok s"
    by (rule sleepers_ok_agree) (use r in \<open>auto simp: recycled_def stored_def\<close>)
  then have "sleepers_ok ?s" using parts(4) by simp
  moreover have "contexts_ok ?s"
  proof -
    have "suspended ?s = suspended s" by (simp add: suspended_def recycled_def)
    then show ?thesis using parts(3) t by (auto simp: contexts_ok_def resumable_def recycled_def)
  qed
  moreover have "main_ready ?s" "waiters_ok ?s"
    using parts(2,5) r by (simp_all add: main_ready_def waiters_ok_def recycled_def)
  ultimately show ?thesis by (simp add: core_inv_def)
qed

lemma HandleProcess_return_inv:
  assumes "core_inv L [running_thread s] s"
  shows "frame_inv L (HandleProcess_return s)"
proof -
  obtain t where "threads s (running_thread s) = Some t"
    using assms by (rule active_thread)
  then show ?thesis
    using assms
    by (simp add: HandleProcess_return_def RecycleRunningThread_eq Frame_Schedule_inv recycled_core_inv)
qed

section \<open>Creating a thread\<close>

text \<open>A thread with a fresh stack and context, entered into the run queue.\<close>

definition launched :: "ptr \<Rightarrow> thread \<Rightarrow> ptr \<Rightarrow> frame \<Rightarrow> frame" where
  "launched p t w s =
     (let st = \<lparr>mem = True, size_of = kMaxStackSize\<rparr>
      in s\<lparr>threads := (threads s)(p \<mapsto> t\<lparr>stack := st, state := Some TS_STOP,
              fun_entry := Some HandleProcess_fn, uc := UcEntry HandleProcess_fn w st\<rparr>),
           thread_runnable := thread_runnable s @ [p]\<rparr>)"

lemma launched_core_inv:
  assumes c: "core_inv L (p # a) s" and t: "threads s p = Some t0"
  shows "core_inv L a (launched p t w s)"
proof -
  let ?s = "launched p t w s"
  note parts = core_inv_parts [OF c]
  have p: "p \<noteq> main_thread s" "p \<notin> set (stored s)" using parts(1) by (auto simp: placed_def)
  have dom: "dom (threads ?s) = dom (threads s)" using t by (auto simp: launched_def Let_def)
  have eq: "mset (main_thread s # (p # a) @ stored s) = mset (main_thread s # a @ stored ?s)"
    by (simp add: stored_def launched_def Let_def)
  have "placed L (main_thread s # a @ stored ?s) (dom (threads s)) (next_ptr s)"
    by (rule placed_cong [THEN iffD1, OF eq parts(1)])
  then have "placed L (main_thread ?s # a @ stored ?s) (dom (threads ?s)) (next_ptr ?s)"
    unfolding dom by (simp add: launched_def Let_def)
  moreover have "sleepers_ok ?s = sleepers_ok s"
    by (rule sleepers_ok_agree) (use p in \<open>auto simp: launched_def Let_def stored_def\<close>)
  then have "sleepers_ok ?s" using parts(4) by simp
  moreover have "contexts_ok ?s"
  proof -
    have "set (suspended ?s) = insert p (set (suspended s))"
      by (auto simp: suspended_def launched_def Let_def)
    then show ?thesis using parts(3) by (auto simp: contexts_ok_def resumable_def launched_def Let_def)
  qed
  moreover have "main_ready ?s" "waiters_ok ?s"
    using parts(2,5) p by (simp_all add: main_ready_def waiters_ok_def launched_def Let_def)
  ultimately show ?thesis by (simp add: core_inv_def)
qed

lemma placed_fresh: "placed L ps d n \<Longrightarrow> 0 < n \<Longrightarrow> placed L (n # ps) (insert n d) (Suc n)"
  by (fastforce simp: placed_def)

lemma new_thread_core_inv:
  assumes c: "core_inv L a s"
  shows "core_inv L (next_ptr s # a) (snd (new_thread s))"
proof -
  let ?s = "snd (new_thread s)" and ?p = "next_ptr s"
  note parts = core_inv_parts [OF c]
  have fresh: "threads s ?p = None" using parts(1) by (auto simp: placed_def)
  have pos: "0 < ?p" using placed_pos [OF parts(1), of "main_thread s"] by simp
  have eq: "mset (?p # main_thread s # a @ stored s) = mset (main_thread ?s # (?p # a) @ stored ?s)"
    by (simp add: new_thread_def stored_def)
  have "placed L (main_thread ?s # (?p # a) @ stored ?s) (insert ?p (dom (threads s))) (Suc ?p)"
    by (rule placed_cong [THEN iffD1, OF eq placed_fresh [OF parts(1) pos]])
  then have "placed L (main_thread ?s # (?p # a) @ stored ?s) (dom (threads ?s)) (next_ptr ?s)"
    by (simp add: new_thread_def)
  moreover have "sleepers_ok ?s = sleepers_ok s"
  proof (rule sleepers_ok_agree)
    fix q assume "q \<in> set (thread_pending s)"
    with parts(4) fresh have "q \<noteq> ?p" by (auto simp: sleepers_ok_def has_wakeup_def)
    then show "map_option wakeup_ts (threads ?s q) = map_option wakeup_ts (threads s q)"
      by (simp add: new_thread_def)
  qed (simp add: new_thread_def)
  then have "sleepers_ok ?s" using parts(4) by simp
  moreover have "contexts_ok ?s"
    unfolding contexts_ok_def
  proof
    fix q assume "q \<in> set (suspended ?s)"
    then have "q \<in> set (suspended s)" by (simp add: suspended_def new_thread_def)
    with parts(3) have "resumable s q" by (simp add: contexts_ok_def)
    with fresh show "resumable ?s q" by (auto simp: resumable_def new_thread_def)
  qed
  moreover have "main_ready ?s" "waiters_ok ?s"
    using parts(2,5) fresh by (auto simp: main_ready_def waiters_ok_def new_thread_def)
  ultimately show ?thesis by (simp add: core_inv_def)
qed

lemma pop_free_core_inv:
  assumes c: "core_inv L a s" and f: "thread_free s \<noteq> []"
  shows "core_inv L (last (thread_free s) # a) (s\<lparr>thread_free := butlast (thread_free s)\<rparr>)"
proof -
  let ?s = "s\<lparr>thread_free := butlast (thread_free s)\<rparr>"
  note parts = core_inv_parts [OF c]
  have eq: "mset (main_thread s # a @ stored s) =
      mset (main_thread s # (last (thread_free s) # a) @ stored ?s)"
    using butlast_snoc_last [OF f] by (simp add: stored_def)
  have "placed L (main_thread s # (last (thread_free s) # a) @ stored ?s) (dom (threads s)) (next_ptr s)"
    by (rule placed_cong [THEN iffD1, OF eq parts(1)])
  then show ?thesis using parts(2-5) by (simp add: core_inv_def part_defs)
qed

text \<open>
  What \<open>AllocNewThread\<close> hands out: the thread recycled last, or a new object when the free
  list is empty.
\<close>

lemma CreateThread_obtain:
  assumes c: "core_inv L a s"
  obtains p t t0 s0 where "CreateThread w s = (p, launched p t w s0)" and "core_inv L (p # a) s0"
    and "threads s0 p = Some t0"
    and "p = (if thread_free s = [] then next_ptr s else last (thread_free s))"
    and "s0 = s\<lparr>threads := threads s0, next_ptr := next_ptr s0, thread_free := thread_free s0\<rparr>"
    and "\<And>q. q \<noteq> p \<Longrightarrow> threads s0 q = threads s q"
proof (cases "thread_free s = []")
  case True
  let ?p = "next_ptr s" and ?s0 = "snd (new_thread s)"
  have p: "?p \<noteq> NULL"
    using placed_pos [OF core_inv_parts(1) [OF c], of "main_thread s"] by auto
  have eq: "CreateThread w s = (?p, launched ?p Thread_ctor w ?s0)"
    using True p by (simp add: CreateThread_def AllocNewThread_def new_thread_def upd_thread_def
        launched_def Let_def)
  show ?thesis
    by (rule that [OF eq new_thread_core_inv [OF c]]) (simp_all add: True new_thread_def)
next
  case False
  let ?p = "last (thread_free s)" and ?s0 = "s\<lparr>thread_free := butlast (thread_free s)\<rparr>"
  have c0: "core_inv L (?p # a) ?s0" using c False by (rule pop_free_core_inv)
  have p: "?p \<noteq> NULL" using placed_pos [OF core_inv_parts(1) [OF c0], of ?p] by auto
  obtain t where t: "threads ?s0 ?p = Some t"
    using placed_live [OF core_inv_parts(1) [OF c0], of ?p] by auto
  then have eq: "CreateThread w s = (?p, launched ?p (t\<lparr>state := Some TS_STOP\<rparr>) w ?s0)"
    using False p by (simp add: CreateThread_def AllocNewThread_def upd_thread_def launched_def Let_def)
  show ?thesis by (rule that [OF eq c0 t]) (simp_all add: False)
qed

lemma CreateThread_core_inv:
  assumes "core_inv L a s"
  shows "core_inv L a (snd (CreateThread w s))"
proof -
  obtain p t t0 s0 where "CreateThread w s = (p, launched p t w s0)" "core_inv L (p # a) s0"
    "threads s0 p = Some t0" using assms by (rule CreateThread_obtain [of _ _ _ w])
  then show ?thesis by (simp add: launched_core_inv)
qed

lemma CreateThread_fields:
  assumes "core_inv L a s"
  shows "cur (snd (CreateThread w s)) = cur s \<and>
    running_thread (snd (CreateThread w s)) = running_thread s \<and>
    main_thread (snd (CreateThread w s)) = main_thread s \<and>
    thread_runnable (snd (CreateThread w s)) = thread_runnable s @ [fst (CreateThread w s)] \<and>
    thread_pending (snd (CreateThread w s)) = thread_pending s \<and>
    io_wait_map (snd (CreateThread w s)) = io_wait_map s \<and>
    last_loop_ts (snd (CreateThread w s)) = last_loop_ts s"
proof -
  obtain p t s0 where eq: "CreateThread w s = (p, launched p t w s0)"
    and s0: "s0 = s\<lparr>threads := threads s0, next_ptr := next_ptr s0, thread_free := thread_free s0\<rparr>"
    using assms by (rule CreateThread_obtain [of _ _ _ w])
  have "cur s0 = cur s \<and> running_thread s0 = running_thread s \<and> main_thread s0 = main_thread s \<and>
    thread_runnable s0 = thread_runnable s \<and> thread_pending s0 = thread_pending s \<and>
    io_wait_map s0 = io_wait_map s \<and> last_loop_ts s0 = last_loop_ts s"
    by (subst (1 2 3 4 5 6 7) s0) simp
  then show ?thesis unfolding eq by (simp add: launched_def Let_def)
qed

lemma CreateThread_inv:
  assumes "core_inv L [running_thread s] s" and "cur s = On (running_thread s)"
  shows "frame_inv L (snd (CreateThread w s))"
  using CreateThread_core_inv [OF assms(1), of w] CreateThread_fields [OF assms(1), of w] assms(2)
  by (simp add: frame_inv_def)

section \<open>Waking sleepers\<close>

text \<open>What waking does to the thread objects \<open>W\<close>.\<close>

definition awaken :: "ptr list \<Rightarrow> (ptr \<Rightarrow> thread option) \<Rightarrow> ptr \<Rightarrow> thread option" where
  "awaken W ths p =
     (if p \<in> set W
      then map_option (\<lambda>t. t\<lparr>wakeup_ts := Some 0, state := Some TS_RUNNABLE\<rparr>) (ths p) else ths p)"

lemma PopPendingTop_spec:
  assumes "is_min_heap (wake_key s) (thread_pending s)" and "distinct (thread_pending s)"
    and "thread_pending s \<noteq> []"
  obtains v where "PopPendingTop s = (hd (thread_pending s), s\<lparr>thread_pending := v\<rparr>)"
    and "is_min_heap (wake_key s) v" and "distinct v" and "hd (thread_pending s) \<notin> set v"
    and "mset (thread_pending s) = add_mset (hd (thread_pending s)) (mset v)"
proof -
  let ?v = "butlast (pop_heap (key_gt (wake_key s)) (thread_pending s))"
  have "PopPendingTop s = (hd (thread_pending s), s\<lparr>thread_pending := ?v\<rparr>)"
    using assms by (simp add: PopPendingTop_def Let_def ThreadPendingTimeComp_eq libstdcxx.pop_last)
  then show ?thesis
    using assms libstdcxx.pop_keeps_heap libstdcxx.pop_distinct(1,2) libstdcxx.pop_mset by (intro that)
qed

text \<open>
  \<open>woke now s W s'\<close>: from \<open>s\<close> to \<open>s'\<close> exactly the sleepers whose time has come, \<open>W\<close>, have
  been moved to the end of the run queue, earliest first, and nothing else has changed.
\<close>

definition woke :: "u64 \<Rightarrow> frame \<Rightarrow> ptr list \<Rightarrow> frame \<Rightarrow> bool" where
  "woke now s W s' \<longleftrightarrow>
     s' = s\<lparr>thread_pending := thread_pending s', threads := awaken W (threads s),
            thread_runnable := thread_runnable s @ W\<rparr> \<and>
     mset (thread_pending s) = mset W + mset (thread_pending s') \<and>
     (\<forall>p \<in> set W. wake_key s p \<le> now) \<and> (\<forall>p \<in> set (thread_pending s'). now < wake_key s p) \<and>
     sorted (map (wake_key s) W) \<and> is_min_heap (wake_key s) (thread_pending s')"

lemma woke_Nil:
  assumes "is_min_heap (wake_key s) (thread_pending s)"
    and "\<And>p. p \<in> set (thread_pending s) \<Longrightarrow> now < wake_key s p"
  shows "woke now s [] s"
proof -
  have "awaken [] (threads s) = threads s" by (simp add: awaken_def fun_eq_iff)
  with assms show ?thesis by (simp add: woke_def)
qed

lemma woke_Cons:
  assumes s4: "s4 = s\<lparr>thread_pending := v, threads := awaken [x] (threads s),
      thread_runnable := thread_runnable s @ [x]\<rparr>"
    and v: "mset (thread_pending s) = add_mset x (mset v)" "x \<notin> set v"
    and least: "\<And>p. p \<in> set v \<Longrightarrow> wake_key s x \<le> wake_key s p" and now: "wake_key s x \<le> now"
    and w: "woke now s4 W s'"
  shows "woke now s (x # W) s'"
proof -
  have m: "mset v = mset W + mset (thread_pending s')"
    using w by (simp add: woke_def s4)
  then have sub: "set v = set W \<union> set (thread_pending s')"
    by (metis set_mset_mset set_mset_union)
  have key: "wake_key s4 p = wake_key s p" if "p \<in> set v" for p
    using that v(2) by (auto simp: wake_key_def s4 awaken_def)
  have aw: "awaken W (threads s4) = awaken (x # W) (threads s)"
    using v(2) sub by (auto simp: s4 awaken_def fun_eq_iff)
  have "sorted (map (wake_key s4) W)" using w by (simp add: woke_def)
  moreover have "map (wake_key s4) W = map (wake_key s) W" using key sub by auto
  ultimately have "sorted (map (wake_key s) W)" by simp
  moreover have "is_min_heap (wake_key s4) (thread_pending s') = is_min_heap (wake_key s) (thread_pending s')"
    using key sub by (intro is_min_heap_cong) auto
  ultimately show ?thesis
    using w aw m v(1) key sub least now unfolding woke_def
    by (auto simp: s4 intro!: frame.equality)
qed

lemma wakeup_loop_round:
  assumes "wake_key s (hd (thread_pending s)) \<le> now" and "thread_pending s \<noteq> []"
    and "PopPendingTop s = (x, s\<lparr>thread_pending := v\<rparr>)" and "threads s x = Some t"
    and x: "x = hd (thread_pending s)"
  shows "wakeup_loop now (Suc n) (begin_elem (thread_pending s)) s =
    wakeup_loop now n (begin_elem v)
      (s\<lparr>thread_pending := v, threads := awaken [x] (threads s), thread_runnable := thread_runnable s @ [x]\<rparr>)"
proof -
  have "begin_elem (thread_pending s) = Some x"
    using assms(2) x by (cases "thread_pending s") (auto simp: begin_elem_def)
  moreover have "(threads s)(x \<mapsto> t\<lparr>wakeup_ts := Some 0, state := Some TS_RUNNABLE\<rparr>) = awaken [x] (threads s)"
    using assms(4) by (auto simp: awaken_def fun_eq_iff)
  ultimately show ?thesis
    using assms(1,3,4) x by (simp add: upd_thread_def Let_def)
qed

lemma wakeup_loop_woke:
  assumes "is_min_heap (wake_key s) (thread_pending s)" and "distinct (thread_pending s)"
    and "set (thread_pending s) \<subseteq> dom (threads s)"
  shows "\<exists>W. woke now s W (wakeup_loop now (length (thread_pending s)) (begin_elem (thread_pending s)) s)"
  using assms
proof (induction "length (thread_pending s)" arbitrary: s)
  case 0
  then show ?case using woke_Nil [of s now] by auto
next
  case (Suc n)
  let ?k = "wake_key s" and ?x = "hd (thread_pending s)"
  have ne: "thread_pending s \<noteq> []" using Suc.hyps(2) by auto
  show ?case
  proof (cases "?k ?x \<le> now")
    case False
    have "begin_elem (thread_pending s) = Some ?x"
      using ne by (cases "thread_pending s") (auto simp: begin_elem_def)
    with False have stop: "wakeup_loop now (Suc n) (begin_elem (thread_pending s)) s = s" by simp
    have "now < ?k p" if "p \<in> set (thread_pending s)" for p
      using min_heap_hd [OF Suc.prems(1) that] False by simp
    then have "woke now s [] s" using Suc.prems(1) by (intro woke_Nil)
    then show ?thesis unfolding Suc.hyps(2) [symmetric] stop ..
  next
    case True
    obtain v where v: "PopPendingTop s = (?x, s\<lparr>thread_pending := v\<rparr>)" "is_min_heap ?k v" "distinct v"
      "?x \<notin> set v" "mset (thread_pending s) = add_mset ?x (mset v)"
      using PopPendingTop_spec [OF Suc.prems(1,2) ne] by blast
    have sv: "set (thread_pending s) = insert ?x (set v)"
      using v(5) by (metis set_mset_add_mset_insert set_mset_mset)
    obtain t where t: "threads s ?x = Some t" using Suc.prems(3) ne by force
    define s4 where "s4 = s\<lparr>thread_pending := v, threads := awaken [?x] (threads s),
      thread_runnable := thread_runnable s @ [?x]\<rparr>"
    have round: "wakeup_loop now (Suc n) (begin_elem (thread_pending s)) s = wakeup_loop now n (begin_elem v) s4"
      unfolding s4_def using True ne v(1) t by (rule wakeup_loop_round) simp
    have "n = length (thread_pending s4)"
      using Suc.hyps(2) v(5) by (simp add: s4_def) (metis diff_Suc_1 size_add_mset size_mset)
    moreover have "is_min_heap (wake_key s4) (thread_pending s4) = is_min_heap ?k v"
      using v(4) unfolding s4_def by simp (intro is_min_heap_cong, auto simp: wake_key_def awaken_def)
    moreover have "set (thread_pending s4) \<subseteq> dom (threads s4)"
      using Suc.prems(3) sv by (auto simp: s4_def awaken_def)
    ultimately obtain W where "woke now s4 W (wakeup_loop now n (begin_elem v) s4)"
      using Suc.hyps(1) [of s4] v(2,3) by (auto simp: s4_def)
    then have "woke now s (?x # W) (wakeup_loop now n (begin_elem v) s4)"
      using s4_def v(5,4) min_heap_hd [OF Suc.prems(1)] True by (intro woke_Cons) (auto simp: sv)
    then show ?thesis unfolding Suc.hyps(2) [symmetric] round ..
  qed
qed

end
