(* ===== verification/Frame_Step.thy ===== *)
theory Frame_Step
  imports Frame_Inv
begin

text \<open>
  The scheduler as a state machine: one step is one operation of the code that runs, a
  round of the main loop or a call of a coroutine.  \<open>Frame::Init\<close> establishes the invariant
  of Frame_Inv and every step keeps it.
\<close>

section \<open>The round of the main loop\<close>

lemma woke_core_inv:
  assumes c: "core_inv L a s" and w: "woke now s W s'"
  shows "core_inv L a s'"
proof -
  note parts = core_inv_parts [OF c]
  have s': "s' = s\<lparr>thread_pending := thread_pending s', threads := awaken W (threads s),
      thread_runnable := thread_runnable s @ W\<rparr>"
    and m: "mset (thread_pending s) = mset W + mset (thread_pending s')"
    and h: "is_min_heap (wake_key s) (thread_pending s')" using w by (auto simp: woke_def)
  have f: "threads s' = awaken W (threads s)" "thread_runnable s' = thread_runnable s @ W"
    "next_ptr s' = next_ptr s" "main_thread s' = main_thread s" "io_wait_map s' = io_wait_map s"
    "thread_free s' = thread_free s" "evs s' = evs s"
    by (subst s', simp)+
  have eq: "mset (main_thread s # a @ stored s) = mset (main_thread s # a @ stored s')"
    by (simp add: stored_def f m)
  have sp: "set (thread_pending s) = set W \<union> set (thread_pending s')"
    using m by (metis set_mset_mset set_mset_union)
  have dist: "set W \<inter> set (thread_pending s') = {}" "main_thread s \<notin> set W"
    using placed_cong [THEN iffD1, OF eq parts(1)] by (auto simp: placed_def stored_def f)
  have ths: "threads s' p = threads s p" if "p \<notin> set W" for p
    using that by (simp add: f awaken_def)
  have key: "wake_key s' p = wake_key s p" if "p \<in> set (thread_pending s')" for p
  proof -
    have "p \<notin> set W" using that dist(1) by blast
    then show ?thesis by (simp add: wake_key_def ths)
  qed
  have "dom (threads s') = dom (threads s)" by (auto simp: f awaken_def split: if_splits)
  then have "placed L (main_thread s' # a @ stored s') (dom (threads s')) (next_ptr s')"
    using placed_cong [THEN iffD1, OF eq parts(1)] by (simp add: f)
  moreover have "main_ready s'" using parts(2) dist(2) ths by (simp add: main_ready_def f)
  moreover have "contexts_ok s'"
  proof -
    have "set (suspended s') = set (suspended s)" using sp by (auto simp: suspended_def f)
    moreover have "resumable s' p" if "resumable s p" for p
      using that by (auto simp: resumable_def f awaken_def)
    ultimately show ?thesis using parts(3) by (simp add: contexts_ok_def)
  qed
  moreover have "sleepers_ok s'"
  proof -
    have "has_wakeup s' p" if "p \<in> set (thread_pending s')" for p
    proof -
      have "has_wakeup s p" using parts(4) sp that by (simp add: sleepers_ok_def)
      moreover have "p \<notin> set W" using that dist(1) by blast
      ultimately show ?thesis by (simp add: has_wakeup_def ths)
    qed
    moreover have "is_min_heap (wake_key s') (thread_pending s')"
      using h is_min_heap_cong [of "thread_pending s'" "wake_key s'" "wake_key s"] key by simp
    ultimately show ?thesis by (simp add: sleepers_ok_def)
  qed
  moreover have "waiters_ok s'" using parts(5) by (simp add: waiters_ok_def f)
  ultimately show ?thesis by (simp add: core_inv_def)
qed

lemma WakeupPendingThread_woke:
  assumes "core_inv L a s"
  shows "\<exists>W. woke (last_loop_ts s) s W (WakeupPendingThread s)"
proof (cases "thread_pending s = []")
  case True
  then have "woke (last_loop_ts s) s [] s" using core_inv_parts(4) [OF assms]
    by (intro woke_Nil) (simp_all add: sleepers_ok_def)
  moreover have "WakeupPendingThread s = s" using True by (simp add: WakeupPendingThread_def)
  ultimately show ?thesis by metis
next
  case False
  have "set (thread_pending s) \<subseteq> dom (threads s)" "distinct (thread_pending s)"
    using core_inv_parts(1) [OF assms] by (auto simp: placed_def stored_def)
  then show ?thesis using wakeup_loop_woke [of s "last_loop_ts s"] core_inv_parts(4) [OF assms] False
    by (simp add: sleepers_ok_def WakeupPendingThread_def)
qed

lemma io_lookup_in:
  assumes "distinct (map fst m)" and "(fd, p) \<in> set m"
  shows "io_lookup m fd = p"
  using assms by (simp add: io_lookup_def)

lemma SocketReadOrWrite_core_inv:
  assumes c: "core_inv L a s" and ev: "ev \<in> set (evs s)"
  shows "core_inv L a (SocketReadOrWrite ev s)"
proof -
  obtain p fd fl where e: "ev = (p, fd, fl)" by (metis prod_cases3)
  let ?m = "io_wait_map s" and ?s = "SocketReadOrWrite ev s"
  note parts = core_inv_parts [OF c]
  have w: "distinct (map fst ?m)" "map ev_entry (evs s) = ?m" using parts(5) by (auto simp: waiters_ok_def)
  have "ev_entry ev \<in> ev_entry ` set (evs s)" using ev by (rule imageI)
  then have mem: "(fd, p) \<in> set ?m" unfolding w(2) [symmetric] by (simp add: e ev_entry_def)
  have s': "?s = s\<lparr>evs := remove1 ev (evs s), thread_runnable := thread_runnable s @ [p],
      io_wait_map := AList.delete fd ?m\<rparr>"
    using io_lookup_in [OF w(1) mem] by (simp add: SocketReadOrWrite_def Let_def e)
  have "mset ?m = add_mset (fd, p) (mset (AList.delete fd ?m))" using w(1) mem
    by (rule mset_alist_delete)
  then have m: "image_mset snd (mset ?m) = add_mset p (image_mset snd (mset (AList.delete fd ?m)))" by simp
  then have eq: "mset (main_thread s # a @ stored s) = mset (main_thread s # a @ stored ?s)"
    using m by (simp add: stored_def s')
  have "mset (suspended ?s) = mset (suspended s)" using m by (simp add: suspended_def s')
  then have "set (suspended ?s) = set (suspended s)" by (rule mset_eq_setD)
  then have "contexts_ok ?s" using parts(3) by (simp add: contexts_ok_def) (simp add: resumable_def s')
  moreover have "placed L (main_thread ?s # a @ stored ?s) (dom (threads ?s)) (next_ptr ?s)"
    using placed_cong [THEN iffD1, OF eq parts(1)] by (simp add: s')
  moreover have "waiters_ok ?s"
    using w map_remove1_delete [of "evs s" ev] ev
    by (simp add: waiters_ok_def s' distinct_delete) (simp add: e)
  moreover have "main_ready ?s" "sleepers_ok ?s"
    using parts(2,4) by (simp_all add: s' part_defs)
  ultimately show ?thesis by (simp add: core_inv_def)
qed

text \<open>What is relied on of libevent: an event that fires has been registered.\<close>

definition poll_ok :: "(timeval \<Rightarrow> event list \<Rightarrow> event option) \<Rightarrow> bool" where
  "poll_ok poll \<longleftrightarrow> (\<forall>tv es ev. poll tv es = Some ev \<longrightarrow> ev \<in> set es)"

lemma EventLoop_core_inv:
  assumes "core_inv L a s" and "poll_ok poll"
  shows "core_inv L a (EventLoop poll tv s)"
proof (cases "poll tv (evs s)")
  case None
  with assms(1) show ?thesis by (simp add: EventLoop_def)
next
  case (Some ev)
  with assms(2) have "ev \<in> set (evs s)" unfolding poll_ok_def by blast
  with assms(1) have "core_inv L a (SocketReadOrWrite ev (s\<lparr>base := True\<rparr>))"
    by (intro SocketReadOrWrite_core_inv) simp_all
  with Some show ?thesis by (simp add: EventLoop_def)
qed

lemma MainThreadLoop_round_inv:
  assumes "core_inv L [] s" and "poll_ok poll"
  shows "frame_inv L (MainThreadLoop_round poll now s)"
proof -
  define s2 where "s2 = EventLoop poll (GetEventLoopTimeout (UpdateLoopTimestamp now s)) (UpdateLoopTimestamp now s)"
  have c2: "core_inv L [] s2" unfolding s2_def using assms
    by (intro EventLoop_core_inv) (simp_all add: UpdateLoopTimestamp_def)
  from WakeupPendingThread_woke [OF c2]
  obtain W where "woke (last_loop_ts s2) s2 W (WakeupPendingThread s2)" ..
  then have "core_inv L [] (WakeupPendingThread s2)" by (rule woke_core_inv [OF c2])
  then show ?thesis by (simp add: MainThreadLoop_round_def Let_def s2_def Frame_Schedule_inv)
qed

section \<open>Start\<close>

lemma core_inv_upd_active:
  assumes c: "core_inv L (p # a) s"
  shows "core_inv L (p # a) (s\<lparr>threads := (threads s)(p \<mapsto> t)\<rparr>)"
proof -
  let ?s = "s\<lparr>threads := (threads s)(p \<mapsto> t)\<rparr>"
  note parts = core_inv_parts [OF c]
  have p: "p \<noteq> main_thread s" "p \<notin> set (stored s)" "p \<in> dom (threads s)"
    using parts(1) by (auto simp: placed_def)
  have "dom (threads ?s) = dom (threads s)" using p(3) by auto
  then have "placed L (main_thread ?s # (p # a) @ stored ?s) (dom (threads ?s)) (next_ptr ?s)"
    using parts(1) by (simp add: stored_def)
  moreover have "contexts_ok ?s" using parts(3) p(2)
    by (auto simp: contexts_ok_def suspended_def stored_def resumable_def)
  moreover have "sleepers_ok ?s" using parts(4) p(2)
    by (subst sleepers_ok_agree [of ?s s]) (auto simp: stored_def)
  moreover have "main_ready ?s" "waiters_ok ?s"
    using parts(2,5) p(1) by (simp_all add: main_ready_def waiters_ok_def)
  ultimately show ?thesis by (simp add: core_inv_def)
qed

lemma core_inv_push_free:
  assumes c: "core_inv L (p # a) s"
  shows "core_inv L a (s\<lparr>thread_free := thread_free s @ [p]\<rparr>)"
proof -
  let ?s = "s\<lparr>thread_free := thread_free s @ [p]\<rparr>"
  note parts = core_inv_parts [OF c]
  have eq: "mset (main_thread s # (p # a) @ stored s) = mset (main_thread s # a @ stored ?s)"
    by (simp add: stored_def)
  have "placed L (main_thread ?s # a @ stored ?s) (dom (threads ?s)) (next_ptr ?s)"
    using placed_cong [THEN iffD1, OF eq parts(1)] by simp
  then show ?thesis using parts(2-5) by (simp add: core_inv_def part_defs)
qed

lemma push_free_spec:
  assumes "core_inv L a s"
  shows "core_inv L a (push_free n s) \<and> length (thread_free (push_free n s)) = length (thread_free s) + n \<and>
    push_free n s = s\<lparr>threads := threads (push_free n s), next_ptr := next_ptr s + n,
      thread_free := thread_free (push_free n s)\<rparr>"
  using assms
proof (induction n arbitrary: s)
  case (Suc n)
  let ?s = "(snd (new_thread s))\<lparr>thread_free := thread_free (snd (new_thread s)) @ [next_ptr s]\<rparr>"
  have step: "push_free (Suc n) s = push_free n ?s" by (simp add: new_thread_def)
  have "core_inv L a ?s" by (intro core_inv_push_free new_thread_core_inv Suc.prems)
  from Suc.IH [OF this] show ?case unfolding step
    by (auto simp: new_thread_def intro!: frame.equality)
qed simp

lemma Init_main_core_inv:
  "core_inv {} [] (Frame_static\<lparr>threads := [1 \<mapsto> t\<lparr>uc := UcEntry MainThreadLoop_fn NULL k\<rparr>],
     next_ptr := 2, main_thread := 1\<rparr>)"
  by (auto simp: core_inv_def placed_def part_defs Frame_static_def is_min_heap_def)

lemma Frame_Init_spec:
  obtains s where "Frame_Init Frame_static = (True, s)" and "core_inv {} [running_thread s] s"
    and "cur s = On (running_thread s)" and "length (thread_free s) = 1000" and "thread_runnable s = []"
    and "main_thread s = 1" and "running_thread s = 2" and "fun_entry (the (threads s 2)) = None"
proof -
  let ?st = "\<lparr>mem = True, size_of = kMaxStackSize\<rparr>"
  let ?m = "Thread_ctor\<lparr>stack := ?st, state := Some TS_STOP, fun_entry := Some MainThreadLoop_fn,
    uc := UcEntry MainThreadLoop_fn NULL ?st\<rparr>"
  let ?r = "Thread_ctor\<lparr>stack := ?st, state := Some TS_STOP\<rparr>"
  define s4 where "s4 = Frame_static\<lparr>threads := [1 \<mapsto> ?m], next_ptr := 2, main_thread := 1\<rparr>"
  define s6 where "s6 = s4\<lparr>threads := [1 \<mapsto> ?m, 2 \<mapsto> ?r], next_ptr := 3, running_thread := 2, cur := On 2\<rparr>"
  define s7 where "s7 = push_free 1000 s6"
  have c4: "core_inv {} [] s4"
    using Init_main_core_inv [of ?st ?m] unfolding s4_def by simp
  have "core_inv {} [2] ((snd (new_thread s4))\<lparr>threads := (threads (snd (new_thread s4)))(2 \<mapsto> ?r)\<rparr>)"
    using new_thread_core_inv [OF c4] by (intro core_inv_upd_active) (simp add: s4_def)
  then have c6: "core_inv {} [2] s6"
    by (rule core_inv_cong [THEN iffD1, rotated -1]) (simp_all add: s6_def s4_def new_thread_def)
  note push = push_free_spec [OF c6, of 1000, folded s7_def]
  have "thread_free s6 = []" by (simp add: s6_def s4_def Frame_static_def)
  then have n7: "length (thread_free s7) = 1000" using push by simp
  note c7 = conjunct1 [OF push] and s7 = conjunct2 [OF conjunct2 [OF push]]
  have keep: "threads (push_free n s) 2 = threads s 2" if "2 < next_ptr s" for n s
    using that by (induction n arbitrary: s) (simp_all add: new_thread_def)
  have t2: "threads s7 2 = Some ?r" unfolding s7_def by (subst keep) (simp_all add: s6_def)
  define s8 where "s8 = s7\<lparr>threads := (threads s7)(2 \<mapsto> ?r\<lparr>uc := UcSaved\<rparr>), base := False\<rparr>"
  have "Frame_Init Frame_static = (True, (upd_thread 2 Thread_Schedule s7)\<lparr>base := False\<rparr>)"
    by (simp add: Frame_Init_def Frame_static_def new_thread_def upd_thread_live Let_def
          s7_def s6_def s4_def numeral_2_eq_2 numeral_3_eq_3)
  then have init: "Frame_Init Frame_static = (True, s8)" by (simp add: upd_thread_live [OF t2] s8_def)
  have c8: "core_inv {} [2] s8" unfolding s8_def using core_inv_upd_active [OF c7] by simp
  have f: "running_thread s8 = 2" "cur s8 = On 2" "thread_runnable s8 = []" "main_thread s8 = 1"
    unfolding s8_def by (simp, subst s7, simp add: s6_def s4_def Frame_static_def)+
  show thesis using init c8 n7 f by (intro that [of s8]) (simp_all add: s8_def Thread_ctor_def)
qed

section \<open>The state machine\<close>

text \<open>
  The operations that code on top of the framework can perform: a round of the main loop,
  with the poll of libevent and the clock it meets; and, in a coroutine, starting another
  one, waiting for a descriptor, sleeping, returning from \<open>Work::Run\<close> and adopting the
  current context as a thread.  A descriptor that another coroutine waits for is not
  waited for again: \<open>double_wait_loses_a_coroutine\<close> below shows why that is required.
\<close>

datatype frame_op =
    Round "timeval \<Rightarrow> event list \<Rightarrow> event option" u64
  | Create ptr
  | WaitIO int "ev_flag set"
  | SleepFor u32 u64
  | Finish
  | InitHere

fun perform :: "frame_op \<Rightarrow> frame \<Rightarrow> frame" where
  "perform (Round poll now) s = MainThreadLoop_round poll now s"
| "perform (Create w) s = snd (CreateThread w s)"
| "perform (WaitIO fd flags) s = wait_io fd flags s"
| "perform (SleepFor ms now) s = Sleep ms now s"
| "perform Finish s = HandleProcess_return s"
| "perform InitHere s = InitHereAsNewThread s"

fun enabled :: "frame_op \<Rightarrow> frame \<Rightarrow> bool" where
  "enabled (Round poll now) s \<longleftrightarrow> cur s = On (main_thread s) \<and> poll_ok poll"
| "enabled (WaitIO fd flags) s \<longleftrightarrow> in_thread s \<and> fd \<notin> fst ` set (io_wait_map s)"
| "enabled Finish s \<longleftrightarrow>
     in_thread s \<and> map_option fun_entry (threads s (running_thread s)) = Some (Some HandleProcess_fn)"
| "enabled _ s \<longleftrightarrow> in_thread s"

inductive frame_step :: "frame \<Rightarrow> frame \<Rightarrow> bool" where
  step: "enabled f s \<Longrightarrow> frame_step s (perform f s)"

inductive_cases frame_stepE: "frame_step s s'"

text \<open>\<open>exec fs s\<close> performs the operations \<open>fs\<close>, each of which must be enabled in its turn.\<close>

fun exec :: "frame_op list \<Rightarrow> frame \<Rightarrow> frame option" where
  "exec [] s = Some s"
| "exec (f # fs) s = (if enabled f s then exec fs (perform f s) else None)"

definition frame_start :: "frame \<Rightarrow> bool" where
  "frame_start s \<longleftrightarrow> Frame_Init Frame_static = (True, s)"

definition frame_ok :: "frame \<Rightarrow> bool" where
  "frame_ok s \<longleftrightarrow> (\<exists>L. frame_inv L s)"

lemma placed_forget:
  assumes "placed L (r # ps) d n"
  shows "placed (insert r L) ps d n"
proof -
  have "distinct ps" "d = set ps \<union> insert r L" "set ps \<inter> insert r L = {}"
    using assms by (auto simp: placed_def)
  moreover have "d \<subseteq> {0<..<n}" using assms unfolding placed_def by blast
  ultimately show ?thesis by (simp only: placed_def simp_thms)
qed

lemma core_inv_forget:
  assumes "core_inv L (a @ [r]) s"
  shows "core_inv (insert r L) a s"
proof -
  let ?ps = "main_thread s # a @ stored s"
  have eq: "mset (main_thread s # (a @ [r]) @ stored s) = mset (r # ?ps)" by simp
  have "placed L (r # ?ps) (dom (threads s)) (next_ptr s)"
    using placed_cong [THEN iffD1, OF eq core_inv_parts(1) [OF assms]] .
  then have "placed (insert r L) ?ps (dom (threads s)) (next_ptr s)"
    by (rule placed_forget)
  then show ?thesis using core_inv_parts(2-) [OF assms] by (simp add: core_inv_def)
qed

lemma InitHereAsNewThread_inv:
  assumes c: "core_inv L [r] s"
  shows "frame_inv (insert r L) (InitHereAsNewThread s)"
proof -
  let ?n = "next_ptr s" and ?s = "InitHereAsNewThread s" and ?s1 = "snd (new_thread s)"
  define t where "t = Thread_ctor\<lparr>stack := \<lparr>mem = True, size_of = kMaxStackSize\<rparr>, state := Some TS_STOP, uc := UcSaved\<rparr>"
  have eq: "?s = s\<lparr>threads := (threads s)(?n \<mapsto> t), next_ptr := ?n + 1, cur := On ?n, running_thread := ?n\<rparr>"
    by (simp add: InitHereAsNewThread_def new_thread_def upd_thread_live t_def)
  have "core_inv L ([?n] @ [r]) (?s1\<lparr>threads := (threads ?s1)(?n \<mapsto> t)\<rparr>)"
    using new_thread_core_inv [OF c] core_inv_upd_active by simp
  then have "core_inv (insert r L) [?n] (?s1\<lparr>threads := (threads ?s1)(?n \<mapsto> t)\<rparr>)"
    by (rule core_inv_forget)
  then have "core_inv (insert r L) [?n] ?s"
    by (rule core_inv_cong [THEN iffD1, rotated -1]) (simp_all add: eq new_thread_def)
  then show ?thesis by (simp add: frame_inv_def eq)
qed

lemma perform_inv:
  assumes inv: "frame_inv L s" and en: "enabled f s"
  shows "\<exists>L'. L \<subseteq> L' \<and> frame_inv L' (perform f s)"
proof (cases "\<exists>poll now. f = Round poll now")
  case True
  then obtain poll now where f: "f = Round poll now" by blast
  with inv en show ?thesis by (auto intro!: exI [of _ L] MainThreadLoop_round_inv frame_inv_main)
next
  case False
  then have th: "in_thread s" using en by (cases f) auto
  note c = frame_inv_thread [OF inv th]
  show ?thesis
  proof (cases f)
    case (Create w)
    with th CreateThread_inv [OF c] show ?thesis by (auto simp: in_thread_def)
  next
    case (WaitIO fd flags)
    with en wait_io_inv [OF c] show ?thesis by auto
  next
    case (SleepFor ms now)
    with Sleep_inv [OF c] show ?thesis by auto
  next
    case Finish
    with HandleProcess_return_inv [OF c] show ?thesis by auto
  next
    case InitHere
    with InitHereAsNewThread_inv [OF c] show ?thesis by auto
  qed (use False in auto)
qed

lemma frame_start_inv: "frame_start s \<Longrightarrow> frame_inv {} s"
  by (rule Frame_Init_spec) (auto simp: frame_start_def frame_inv_def)

interpretation sched: invariant_system frame_start frame_step frame_ok
proof
  show "frame_ok s" if "frame_start s" for s
    using frame_start_inv [OF that] by (auto simp: frame_ok_def)
  show "frame_ok t" if "frame_ok s" and "frame_step s t" for s t
    using that by (auto simp: frame_ok_def elim!: frame_stepE dest: perform_inv)
qed

lemma exec_reachable:
  assumes "exec fs s = Some s'" and "reachable frame_start frame_step s"
  shows "reachable frame_start frame_step s'"
  using assms
  by (induction fs arbitrary: s) (auto split: if_splits intro: reach_step step)

section \<open>Order of execution\<close>

text \<open>The operations that give up the processor.\<close>

fun switching :: "frame_op \<Rightarrow> bool" where
  "switching (Create w) = False"
| "switching InitHere = False"
| "switching _ = True"

definition queued_step :: "frame \<Rightarrow> frame \<Rightarrow> bool" where
  "queued_step s s' \<longleftrightarrow>
     (\<exists>new. (thread_runnable s @ new = [] \<and> thread_runnable s' = [] \<and> cur s' = On (main_thread s')) \<or>
       (\<exists>t. t # thread_runnable s' = thread_runnable s @ new \<and> cur s' = On t \<and> running_thread s' = t))"

lemma Frame_Schedule_queued:
  assumes c: "core_inv L [] s1" and q: "thread_runnable s1 = thread_runnable s @ new"
  shows "queued_step s (Frame_Schedule s1)"
proof (cases "thread_runnable s1")
  case Nil
  with q Frame_Schedule_idle [OF c Nil] show ?thesis
    by (simp add: queued_step_def exI [of _ "[]"])
next
  case (Cons t ts)
  with q Frame_Schedule_next [OF c Cons] show ?thesis
    by (auto simp: queued_step_def intro!: exI [of _ new] exI [of _ t])
qed

lemma woke_runnable:
  assumes "woke now s W s'"
  shows "thread_runnable s' = thread_runnable s @ W"
proof -
  have eq: "s' = s\<lparr>thread_pending := thread_pending s', threads := awaken W (threads s),
      thread_runnable := thread_runnable s @ W\<rparr>" using assms by (simp add: woke_def)
  show ?thesis by (subst eq) simp
qed

lemma Round_queued:
  assumes c: "core_inv L [] s" and ok: "poll_ok poll"
  shows "queued_step s (MainThreadLoop_round poll now s)"
proof -
  define s1 where "s1 = UpdateLoopTimestamp now s"
  define s2 where "s2 = EventLoop poll (GetEventLoopTimeout s1) s1"
  have c2: "core_inv L [] s2" unfolding s2_def s1_def using c ok
    by (intro EventLoop_core_inv) (simp_all add: UpdateLoopTimestamp_def)
  from WakeupPendingThread_woke [OF c2]
  obtain W where W: "woke (last_loop_ts s2) s2 W (WakeupPendingThread s2)" ..
  have "\<exists>e. thread_runnable s2 = thread_runnable s @ e"
    by (simp add: s2_def s1_def EventLoop_def UpdateLoopTimestamp_def SocketReadOrWrite_def Let_def
          split: option.split)
  then obtain e where "thread_runnable s2 = thread_runnable s @ e" ..
  moreover have "thread_runnable (WakeupPendingThread s2) = thread_runnable s2 @ W"
    using W by (rule woke_runnable)
  ultimately have "thread_runnable (WakeupPendingThread s2) = thread_runnable s @ (e @ W)" by simp
  from Frame_Schedule_queued [OF woke_core_inv [OF c2 W] this] show ?thesis
    by (simp add: MainThreadLoop_round_def Let_def s2_def s1_def)
qed

lemma perform_queued:
  assumes inv: "frame_inv L s" and en: "enabled f s" and sw: "switching f"
  shows "queued_step s (perform f s)"
proof (cases "\<exists>poll now. f = Round poll now")
  case True
  then obtain poll now where f: "f = Round poll now" by blast
  with inv en show ?thesis by (auto intro!: Round_queued frame_inv_main)
next
  case False
  then have th: "in_thread s" using en by (cases f) auto
  note c = frame_inv_thread [OF inv th]
  obtain t where t: "threads s (running_thread s) = Some t" "running_thread s \<noteq> NULL"
    using c by (rule active_thread)
  show ?thesis
  proof (cases f)
    case (WaitIO fd flags)
    then show ?thesis using en Frame_Schedule_queued [OF parked_core_inv [OF c t(1)], where s = s and new = "[]"]
      by (simp add: wait_io_eq [OF t(1)] parked_def)
  next
    case (SleepFor ms now)
    then show ?thesis using Frame_Schedule_queued [OF slept_core_inv [OF c t(1)], where s = s and new = "[]"]
      by (simp add: Sleep_eq [OF t] slept_def Let_def)
  next
    case Finish
    then show ?thesis using Frame_Schedule_queued [OF recycled_core_inv [OF c t(1)], where s = s and new = "[]"]
      by (simp add: HandleProcess_return_def RecycleRunningThread_eq [OF t(1)] recycled_def)
  qed (use False sw in auto)
qed

lemma perform_not_switching:
  assumes inv: "frame_inv L s" and en: "enabled f s" and sw: "\<not> switching f"
  shows "\<exists>new. thread_runnable (perform f s) = thread_runnable s @ new"
proof (cases f)
  case (Create w)
  with en have "in_thread s" by simp
  from CreateThread_fields [OF frame_inv_thread [OF inv this], of w] Create show ?thesis by simp
next
  case InitHere
  then show ?thesis
    by (simp add: InitHereAsNewThread_def new_thread_def upd_thread_live)
qed (use sw in auto)

lemma exec_turn:
  assumes "exec fs s = Some s'" and "frame_ok s" and "i < length (thread_runnable s)"
    and "i < length (filter switching fs)"
  shows "\<exists>fs1 fs2 s1. fs = fs1 @ fs2 \<and> exec fs1 s = Some s1 \<and>
    cur s1 = On (thread_runnable s ! i) \<and> running_thread s1 = thread_runnable s ! i"
  using assms
proof (induction fs arbitrary: s i)
  case (Cons f fs)
  let ?s = "perform f s"
  obtain L where L: "frame_inv L s" using Cons.prems(2) by (auto simp: frame_ok_def)
  have en: "enabled f s" and ex: "exec fs ?s = Some s'" using Cons.prems(1) by (auto split: if_splits)
  have ok: "frame_ok ?s" using perform_inv [OF L en] by (auto simp: frame_ok_def)
  have later: "\<exists>fs1 fs2 s1. f # fs = fs1 @ fs2 \<and> exec fs1 s = Some s1 \<and>
    cur s1 = On (thread_runnable s ! i) \<and> running_thread s1 = thread_runnable s ! i"
    if j: "j < length (thread_runnable ?s)" "thread_runnable ?s ! j = thread_runnable s ! i"
    "j < length (filter switching fs)" for j
  proof -
    obtain fs1 fs2 s1 where "fs = fs1 @ fs2" "exec fs1 ?s = Some s1" "cur s1 = On (thread_runnable s ! i)"
      "running_thread s1 = thread_runnable s ! i"
      using Cons.IH [OF ex ok j(1,3)] unfolding j(2) by blast
    then have "f # fs = (f # fs1) @ fs2 \<and> exec (f # fs1) s = Some s1 \<and>
      cur s1 = On (thread_runnable s ! i) \<and> running_thread s1 = thread_runnable s ! i" using en by simp
    then show ?thesis by (rule exI [of _ s1, THEN exI [of _ fs2], THEN exI [of _ "f # fs1"]])
  qed
  show ?case
  proof (cases "switching f")
    case False
    then obtain new where "thread_runnable ?s = thread_runnable s @ new"
      using perform_not_switching [OF L en False] by blast
    with False Cons.prems(3,4) have "i < length (thread_runnable ?s)"
      "thread_runnable ?s ! i = thread_runnable s ! i" "i < length (filter switching fs)"
      by (simp_all add: nth_append)
    then show ?thesis by (rule later)
  next
    case True
    with Cons.prems(3) obtain new t where t: "t # thread_runnable ?s = thread_runnable s @ new"
      "cur ?s = On t" "running_thread ?s = t"
      using perform_queued [OF L en True] by (auto simp: queued_step_def)
    have nth: "(t # thread_runnable ?s) ! i = thread_runnable s ! i"
      unfolding t(1) using Cons.prems(3) by (simp add: nth_append)
    show ?thesis
    proof (cases i)
      case 0
      then have "t = thread_runnable s ! i" using nth by simp
      then have "f # fs = [f] @ fs \<and> exec [f] s = Some ?s \<and> cur ?s = On (thread_runnable s ! i) \<and>
        running_thread ?s = thread_runnable s ! i" using t(2,3) en by simp
      then show ?thesis by (rule exI [of _ ?s, THEN exI [of _ fs], THEN exI [of _ "[f]"]])
    next
      case (Suc j)
      have "length (t # thread_runnable ?s) = length (thread_runnable s @ new)" by (simp only: t(1))
      then have "j < length (thread_runnable ?s)" using Suc Cons.prems(3) by simp
      moreover have "thread_runnable ?s ! j = thread_runnable s ! i" using nth unfolding Suc by simp
      moreover have "j < length (filter switching fs)" using Suc True Cons.prems(4) by simp
      ultimately show ?thesis by (rule later)
    qed
  qed
qed simp

end
