(* ===== verification/Frame_Props.thy ===== *)
theory Frame_Props
  imports Frame_Step
begin

text \<open>
  What the scheduler promises to the code on top of it: no run reaches a crash, sleepers
  are woken in order and in time, the run queue is served first come first served; and the
  places where the code does less than that.
\<close>

section \<open>The 32-bit time difference\<close>

lemma scast_ucast_32:
  fixes x :: u64
  shows "(scast (ucast x :: 32 word) :: u64) = word_of_int ((uint x + 2^31) mod 2^32 - 2^31)"
proof -
  have "sint (ucast x :: 32 word) = signed_take_bit 31 (take_bit 32 (uint x))"
    by (simp add: sint_uint uint_up_ucast unsigned_ucast_eq)
  also have "\<dots> = signed_take_bit 31 (uint x)" by (simp add: signed_take_bit_take_bit)
  also have "\<dots> = (uint x + 2^31) mod 2^32 - 2^31"
    by (simp add: signed_take_bit_eq_take_bit_shift take_bit_eq_mod)
  finally show ?thesis by (simp add: scast_eq)
qed

lemma scast_ucast_small:
  fixes x :: u64
  assumes "unat x < 2^31"
  shows "(scast (ucast x :: 32 word) :: u64) = x"
proof -
  have "int (unat x) < int (2^31)" using assms by (simp only: of_nat_less_iff)
  then have "uint x < 2^31" by simp
  then have "(uint x + 2^31) mod 2^32 = uint x + 2^31" by (intro mod_pos_pos_trivial) simp_all
  then show ?thesis unfolding scast_ucast_32 by simp
qed

lemma scast_ucast_large:
  fixes x :: u64
  assumes "2^31 \<le> unat x" "unat x < 2^32"
  shows "unat (scast (ucast x :: 32 word) :: u64) = unat x + (2^64 - 2^32)"
proof -
  have "int (unat x) < int (2^32)" "int (2^31) \<le> int (unat x)"
    using assms by (simp_all only: of_nat_less_iff of_nat_le_iff)
  then have u: "uint x < 2^32" "2^31 \<le> uint x" by simp_all
  have "(uint x + 2^31) mod 2^32 = (uint x + 2^31 - 2^32) mod 2^32" by (rule minus_mod_self2 [symmetric])
  also have "\<dots> = uint x + 2^31 - 2^32" using u by (intro mod_pos_pos_trivial) simp_all
  finally have t: "(scast (ucast x :: 32 word) :: u64) = word_of_int (uint x - 2^32)"
    unfolding scast_ucast_32 by simp
  have "(uint x - 2^32) mod 2^64 = (uint x - 2^32 + 2^64) mod 2^64" by (rule mod_add_self2 [symmetric])
  also have "\<dots> = uint x - 2^32 + 2^64" using u by (intro mod_pos_pos_trivial) simp_all
  finally have "uint (scast (ucast x :: 32 word) :: u64) = uint x + (2^64 - 2^32)"
    unfolding t uint_word_of_int by simp
  then have "int (unat (scast (ucast x :: 32 word) :: u64)) = int (unat x + (2^64 - 2^32))" by simp
  then show ?thesis by (simp only: of_nat_eq_iff)
qed

lemma unat_millis:
  fixes w :: u64
  shows "unat (w div 1000) = unat w div 1000"
    and "unat ((w - w div 1000 * 1000) * 1000) = unat w mod 1000 * 1000"
proof -
  show "unat (w div 1000) = unat w div 1000" by (simp add: unat_div)
  have "w - w div 1000 * 1000 = w mod 1000" by (rule minus_div_mult_eq_mod)
  moreover have "unat w mod 1000 * 1000 < 2^64"
    using mod_less_divisor [of 1000 "unat w"] by simp
  ultimately show "unat ((w - w div 1000 * 1000) * 1000) = unat w mod 1000 * 1000"
    by (simp add: unat_word_ariths unat_mod)
qed

lemma GetEventLoopTimeout_wait:
  fixes s :: frame
  assumes "thread_pending s = p # ps" and "last_loop_ts s \<le> wake_key s p"
  defines "wide \<equiv> (scast (ucast (wake_key s p - last_loop_ts s) :: 32 word) :: u64)"
  shows "unat (tv_sec (GetEventLoopTimeout s)) = unat wide div 1000"
    and "unat (tv_usec (GetEventLoopTimeout s)) = unat wide mod 1000 * 1000"
proof -
  have eq: "GetEventLoopTimeout s =
      \<lparr>tv_sec = wide div 1000, tv_usec = (wide - wide div 1000 * 1000) * 1000\<rparr>"
    using assms(1,2) by (simp add: GetEventLoopTimeout_def Let_def wide_def not_less [THEN iffD2])
  show "unat (tv_sec (GetEventLoopTimeout s)) = unat wide div 1000"
    and "unat (tv_usec (GetEventLoopTimeout s)) = unat wide mod 1000 * 1000"
    unfolding eq timeval.select_convs by (rule unat_millis)+
qed

section \<open>Finishing\<close>

lemma delete_thread_live:
  "threads s p \<noteq> None \<Longrightarrow> p \<noteq> NULL \<Longrightarrow> delete_thread p s = s\<lparr>threads := (threads s) |` (- {p})\<rparr>"
  by (auto simp: delete_thread_def restrict_map_def fun_eq_iff intro!: frame.equality)

lemma fold_delete_thread:
  assumes "distinct ps" and "set ps \<subseteq> dom (threads s)" and "NULL \<notin> set ps"
  shows "fold delete_thread ps s = s\<lparr>threads := threads s |` (- set ps)\<rparr>"
  using assms
proof (induction ps arbitrary: s)
  case Nil
  then show ?case by (simp add: restrict_map_def)
next
  case (Cons p ps)
  let ?s = "s\<lparr>threads := threads s |` (- {p})\<rparr>"
  have "delete_thread p s = ?s" using Cons.prems by (intro delete_thread_live) auto
  moreover have "fold delete_thread ps ?s = ?s\<lparr>threads := threads ?s |` (- set ps)\<rparr>"
    using Cons.prems by (intro Cons.IH) (auto simp: restrict_map_def)
  moreover have "- {p} \<inter> - set ps = - set (p # ps)" by auto
  ultimately show ?case by simp
qed

lemma fold_delete_fields [simp]:
  "thread_free (fold delete_thread ps s) = thread_free s"
  "io_wait_map (fold delete_thread ps s) = io_wait_map s"
  by (induction ps arbitrary: s) (auto simp: delete_thread_def split: option.split)

lemma Frame_Fini_eq:
  assumes c: "core_inv L [running_thread s] s"
  shows "Frame_Fini s = (True, s\<lparr>threads := threads s |` (- set (running_thread s # main_thread s # thread_runnable s @
      thread_free s @ map snd (io_wait_map s))), running_thread := NULL, main_thread := NULL\<rparr>)"
proof -
  let ?r = "running_thread s" and ?m = "main_thread s"
  define Q where "Q = thread_runnable s @ thread_free s @ map snd (io_wait_map s)"
  note p = core_inv_parts(1) [OF c]
  have d: "distinct (?r # ?m # Q)" and sub: "set (?r # ?m # Q) \<subseteq> dom (threads s)"
    and nn: "NULL \<notin> set (?r # ?m # Q)"
    using p placed_pos [OF p, of 0] by (auto simp: placed_def stored_def Q_def)
  define s2 where "s2 = s\<lparr>threads := threads s |` (- {?r, ?m}), running_thread := NULL, main_thread := NULL\<rparr>"
  have del: "delete_thread ?r s = s\<lparr>threads := threads s |` (- {?r})\<rparr>"
    using sub nn by (intro delete_thread_live) auto
  have "delete_thread ?m (s\<lparr>threads := threads s |` (- {?r}), running_thread := NULL\<rparr>) =
      s\<lparr>threads := threads s |` (- {?r} \<inter> - {?m}), running_thread := NULL\<rparr>"
    using d sub nn by (subst delete_thread_live) (auto simp: restrict_map_def intro!: frame.equality)
  moreover have "- {?r} \<inter> - {?m} = - {?r, ?m}" by auto
  ultimately have "Frame_Fini s = (True, fold delete_thread Q s2)"
    unfolding Frame_Fini_def Let_def del by (simp add: s2_def Q_def)
  also have "fold delete_thread Q s2 = s2\<lparr>threads := threads s2 |` (- set Q)\<rparr>"
    using d sub nn by (intro fold_delete_thread) (auto simp: s2_def restrict_map_def)
  also have "\<dots> = s\<lparr>threads := threads s |` (- {?r, ?m} \<inter> - set Q), running_thread := NULL,
      main_thread := NULL\<rparr>" by (simp add: s2_def)
  also have "- {?r, ?m} \<inter> - set Q = - set (?r # ?m # Q)" by auto
  finally show ?thesis unfolding Q_def .
qed

section \<open>Waiting twice\<close>

lemma update_forgets:
  assumes "distinct (map snd m)" and "(k, v) \<in> set m" and "distinct (map fst m)" and "v \<noteq> v'"
  shows "v \<notin> snd ` set (AList.update k v' m)"
  using assms
proof (induction m)
  case (Cons x m)
  show ?case
  proof (cases "fst x = k")
    case True
    then have "k \<notin> fst ` set m" using Cons.prems(3) by auto
    then have "(k, v) \<notin> set m" by force
    then have "x = (k, v)" using Cons.prems(2) by auto
    with Cons.prems(1,4) show ?thesis by simp
  next
    case False
    then have "(k, v) \<in> set m" using Cons.prems(2) by auto
    moreover from this have "v \<in> snd ` set m" by force
    then have "snd x \<noteq> v" using Cons.prems(1) by auto
    ultimately show ?thesis using Cons False by (cases x) auto
  qed
qed simp

section \<open>Properties\<close>

text \<open>A state with three sleepers, two of them due, and a coroutine that waits on descriptor 5.\<close>

definition napping :: frame where
  "napping = (let t = (\<lambda>w. Thread_ctor\<lparr>uc := UcSaved, wakeup_ts := w\<rparr>) in
     Frame_static\<lparr>threads := [1 \<mapsto> Thread_ctor\<lparr>uc := UcEntry MainThreadLoop_fn NULL Stack_default\<rparr>,
         2 \<mapsto> t (Some 50), 3 \<mapsto> t (Some 10), 4 \<mapsto> t (Some 99), 5 \<mapsto> t None, 6 \<mapsto> t None],
       next_ptr := 7, thread_pending := [3, 2, 4], io_wait_map := [(5, 5)], evs := [(5, 5, {EV_READ})],
       main_thread := 1, running_thread := 6, last_loop_ts := 60, cur := On 6\<rparr>)"

text \<open>The state after \<open>Frame::Init\<close>, and after a first \<open>CreateThread\<close>.\<close>

definition booted :: frame where
  "booted = snd (Frame_Init Frame_static)"

definition launched_one :: frame where
  "launched_one = perform (Create 7) booted"

lemma booted_start: "frame_start booted" and booted_in_thread: "in_thread booted"
  by (rule Frame_Init_spec, simp add: booted_def frame_start_def in_thread_def)+

lemma launched_one_reachable: "reachable frame_start frame_step launched_one"
  using exec_reachable [of "[Create 7]" booted launched_one] booted_in_thread
    reach_init [of frame_start booted frame_step, OF booted_start] by (simp add: launched_one_def)

lemma launched_one_ready: "in_thread launched_one" "length (thread_runnable launched_one) = 1"
  and launched_one_ok: "frame_ok launched_one"
proof -
  have c: "core_inv {} [running_thread booted] booted"
    using frame_inv_thread [OF frame_start_inv [OF booted_start] booted_in_thread] .
  have "thread_runnable booted = []" by (rule Frame_Init_spec) (simp add: booted_def)
  with CreateThread_fields [OF c, of 7] booted_in_thread
  show "in_thread launched_one" "length (thread_runnable launched_one) = 1"
    by (simp_all add: launched_one_def in_thread_def)
  show "frame_ok launched_one" using launched_one_reachable by (rule sched.reachable_inv)
qed

lemma napping_threads:
  "threads napping = [1 \<mapsto> Thread_ctor\<lparr>uc := UcEntry MainThreadLoop_fn NULL Stack_default\<rparr>,
     2 \<mapsto> Thread_ctor\<lparr>uc := UcSaved, wakeup_ts := Some 50\<rparr>,
     3 \<mapsto> Thread_ctor\<lparr>uc := UcSaved, wakeup_ts := Some 10\<rparr>,
     4 \<mapsto> Thread_ctor\<lparr>uc := UcSaved, wakeup_ts := Some 99\<rparr>,
     5 \<mapsto> Thread_ctor\<lparr>uc := UcSaved, wakeup_ts := None\<rparr>,
     6 \<mapsto> Thread_ctor\<lparr>uc := UcSaved, wakeup_ts := None\<rparr>]"
  by (simp add: napping_def Let_def)

lemma napping_fields [simp]:
  "next_ptr napping = 7" "thread_pending napping = [3, 2, 4]" "io_wait_map napping = [(5, 5)]"
  "evs napping = [(5, 5, {EV_READ})]" "main_thread napping = 1" "running_thread napping = 6"
  "last_loop_ts napping = 60" "thread_runnable napping = []" "thread_free napping = []"
  by (simp_all add: napping_def Let_def Frame_static_def)

lemma napping_inv: "core_inv {} [6] napping"
proof -
  have "placed {} (main_thread napping # [6] @ stored napping) (dom (threads napping)) (next_ptr napping)"
    by (auto simp: placed_def stored_def napping_threads)
  moreover have "main_ready napping" "contexts_ok napping" "waiters_ok napping"
    by (auto simp: part_defs napping_threads ev_entry_def)
  moreover have "{1..<Suc (Suc (Suc 0))} = {1, 2}" by auto
  then have "sleepers_ok napping"
    by (simp add: part_defs napping_threads is_min_heap_def parent_def GetWakeupTime_def)
  ultimately show ?thesis by (simp add: core_inv_def)
qed



text \<open>
  C2: a round of \<open>WakeupPendingThread\<close> moves exactly the sleepers whose wake-up time is not
  after the loop's time stamp to the end of the run queue, in the order of their wake-up
  times, makes them runnable with their time cleared, and leaves all others, still as a
  heap; nothing else changes and the vector is never read when it is empty.
\<close>

theorem WakeupPendingThread_wakes_the_due:
  assumes "core_inv L a s"
  shows "\<exists>W. let s' = WakeupPendingThread s in
    thread_runnable s' = thread_runnable s @ W \<and>
    mset (thread_pending s) = mset W + mset (thread_pending s') \<and>
    (\<forall>p. p \<in> set W \<longleftrightarrow> p \<in> set (thread_pending s) \<and> wake_key s p \<le> last_loop_ts s) \<and>
    sorted (map (wake_key s) W) \<and>
    (\<forall>p. threads s' p = (if p \<in> set W
       then map_option (\<lambda>t. t\<lparr>wakeup_ts := Some 0, state := Some TS_RUNNABLE\<rparr>) (threads s p) else threads s p)) \<and>
    s' = s\<lparr>thread_pending := thread_pending s', threads := threads s', thread_runnable := thread_runnable s'\<rparr> \<and>
    core_inv L a s'"
proof -
  obtain W where W: "woke (last_loop_ts s) s W (WakeupPendingThread s)" (is "woke _ _ _ ?s")
    using WakeupPendingThread_woke [OF assms] ..
  have eq: "?s = s\<lparr>thread_pending := thread_pending ?s, threads := awaken W (threads s),
      thread_runnable := thread_runnable s @ W\<rparr>" using W by (simp add: woke_def)
  have q: "thread_runnable ?s = thread_runnable s @ W" and ths: "threads ?s = awaken W (threads s)"
    by (subst eq, simp)+
  have m: "mset (thread_pending s) = mset W + mset (thread_pending ?s)" using W by (simp add: woke_def)
  then have "set (thread_pending s) = set W \<union> set (thread_pending ?s)"
    by (metis set_mset_mset set_mset_union)
  moreover have "\<forall>p \<in> set W. wake_key s p \<le> last_loop_ts s"
    "\<forall>p \<in> set (thread_pending ?s). last_loop_ts s < wake_key s p" using W by (simp_all add: woke_def)
  ultimately have due: "\<forall>p. p \<in> set W \<longleftrightarrow> p \<in> set (thread_pending s) \<and> wake_key s p \<le> last_loop_ts s"
    by fastforce
  have s: "sorted (map (wake_key s) W)" using W by (simp add: woke_def)
  have e: "?s = s\<lparr>thread_pending := thread_pending ?s, threads := threads ?s, thread_runnable := thread_runnable ?s\<rparr>"
    using eq unfolding q ths .
  have "\<forall>p. threads ?s p = (if p \<in> set W
       then map_option (\<lambda>t. t\<lparr>wakeup_ts := Some 0, state := Some TS_RUNNABLE\<rparr>) (threads s p) else threads s p)"
    unfolding ths awaken_def by simp
  with q m due s e woke_core_inv [OF assms W] show ?thesis unfolding Let_def by (intro exI conjI)
qed

theorem WakeupPendingThread_wakes_the_due_witness:
  "core_inv {} [6] napping \<and> 3 \<in> set (thread_runnable (WakeupPendingThread napping)) \<and>
     4 \<notin> set (thread_runnable (WakeupPendingThread napping))"
  using WakeupPendingThread_wakes_the_due [OF napping_inv] napping_inv
  by (auto simp: Let_def wake_key_def napping_threads GetWakeupTime_def)

text \<open>
  C3: the run queue is served first come, first served.  Whatever operations are performed,
  the thread at position \<open>i\<close> of the queue executes after some prefix of them, at the latest
  when the processor has been given up \<open>i + 1\<close> times.
\<close>

theorem run_queue_is_fair:
  assumes "frame_ok s" and "exec fs s = Some s'" and "i < length (thread_runnable s)"
    and "i < length (filter switching fs)"
  shows "\<exists>fs1 fs2 s1. fs = fs1 @ fs2 \<and> exec fs1 s = Some s1 \<and>
    cur s1 = On (thread_runnable s ! i) \<and> running_thread s1 = thread_runnable s ! i"
  using assms(2,1,3,4) by (rule exec_turn)

theorem run_queue_is_fair_witness:
  "\<exists>fs1 fs2 s1. [SleepFor 5 100] = fs1 @ fs2 \<and> exec fs1 launched_one = Some s1 \<and>
     cur s1 = On (thread_runnable launched_one ! 0)"
  using run_queue_is_fair [of launched_one "[SleepFor 5 100]" "Sleep 5 100 launched_one" 0]
    launched_one_ready launched_one_ok by simp blast

text \<open>
  C29: while the next wake-up is less than \<open>2^31\<close> milliseconds away, the timeout given to
  libevent is exactly the time to the earliest of the sleepers.
\<close>

theorem GetEventLoopTimeout_exact:
  assumes "core_inv L a s" and "thread_pending s = p # ps" and "last_loop_ts s \<le> wake_key s p"
    and "unat (wake_key s p) - unat (last_loop_ts s) < 2^31"
  shows "unat (tv_sec (GetEventLoopTimeout s)) * 1000000 + unat (tv_usec (GetEventLoopTimeout s)) =
      (unat (wake_key s p) - unat (last_loop_ts s)) * 1000 \<and>
    unat (tv_usec (GetEventLoopTimeout s)) < 1000000 \<and>
    (\<forall>q \<in> set (thread_pending s). wake_key s p \<le> wake_key s q)"
proof -
  let ?d = "wake_key s p - last_loop_ts s"
  have d: "unat ?d = unat (wake_key s p) - unat (last_loop_ts s)" using assms(3) by (rule unat_sub)
  with assms(4) have w: "(scast (ucast ?d :: 32 word) :: u64) = ?d" by (intro scast_ucast_small) simp
  have "\<forall>q \<in> set (thread_pending s). wake_key s p \<le> wake_key s q"
    using core_inv_parts(4) [OF assms(1)] min_heap_hd [of "wake_key s" "thread_pending s"] assms(2)
    by (simp add: sleepers_ok_def)
  moreover have "unat ?d div 1000 * 1000000 + unat ?d mod 1000 * 1000 = unat ?d * 1000"
    using div_mult_mod_eq [of "unat ?d" 1000] by linarith
  moreover have "unat ?d mod 1000 * 1000 < 1000000" by simp
  ultimately show ?thesis
    unfolding GetEventLoopTimeout_wait [OF assms(2,3)] w d [symmetric] by simp
qed

theorem GetEventLoopTimeout_exact_witness:
  "tv_usec (GetEventLoopTimeout (napping\<lparr>last_loop_ts := 4\<rparr>)) = 6000 \<and>
     unat (tv_sec (GetEventLoopTimeout (napping\<lparr>last_loop_ts := 4\<rparr>))) * 1000000 +
       unat (tv_usec (GetEventLoopTimeout (napping\<lparr>last_loop_ts := 4\<rparr>))) = 6 * 1000"
  using GetEventLoopTimeout_exact [of "{}" "[6]" "napping\<lparr>last_loop_ts := 4\<rparr>" 3 "[2, 4]"] napping_inv
  by (simp add: wake_key_def napping_threads GetWakeupTime_def GetEventLoopTimeout_def Let_def)

text \<open>
  A sleeper whose wake-up is between \<open>2^31\<close> and \<open>2^32\<close> milliseconds away makes the
  difference negative in its C int, and the loop is told to wait for more than
  \<open>10^16\<close> seconds.
\<close>

theorem GetEventLoopTimeout_overflow:
  assumes "thread_pending s = p # ps" and "last_loop_ts s \<le> wake_key s p"
    and "2^31 \<le> unat (wake_key s p) - unat (last_loop_ts s)"
    and "unat (wake_key s p) - unat (last_loop_ts s) < 2^32"
  shows "unat (tv_sec (GetEventLoopTimeout s)) > 10^16"
proof -
  let ?d = "wake_key s p - last_loop_ts s"
  have d: "unat ?d = unat (wake_key s p) - unat (last_loop_ts s)" using assms(2) by (rule unat_sub)
  have "unat (tv_sec (GetEventLoopTimeout s)) = (unat ?d + (2^64 - 2^32)) div 1000"
    using assms(3,4) unfolding GetEventLoopTimeout_wait(1) [OF assms(1,2)]
    by (subst scast_ucast_large) (simp_all only: d)
  moreover have "(2^64 - 2^32) div 1000 \<le> (unat ?d + (2^64 - 2^32)) div 1000" by (intro div_le_mono) simp
  ultimately show ?thesis by simp
qed

theorem GetEventLoopTimeout_overflow_witness:
  "unat (tv_sec (GetEventLoopTimeout (Frame_static\<lparr>thread_pending := [1],
     threads := [1 \<mapsto> Thread_ctor\<lparr>wakeup_ts := Some 3000000000\<rparr>]\<rparr>))) > 10^16"
  by (rule GetEventLoopTimeout_overflow [where p = 1 and ps = "[]"])
     (simp_all add: wake_key_def Frame_static_def GetWakeupTime_def)

text \<open>
  \<open>Frame::Fini\<close> deletes every thread object except the sleepers: they stay allocated.
  The containers keep their pointers, and if an event base had been made, the next
  \<open>Frame::Init\<close> is refused.
\<close>

theorem Frame_Fini_leaks_sleepers:
  assumes "core_inv {} [running_thread s] s"
  shows "fst (Frame_Fini s) \<and> dom (threads (snd (Frame_Fini s))) = set (thread_pending s) \<and>
    cur (snd (Frame_Fini s)) = cur s \<and> thread_free (snd (Frame_Fini s)) = thread_free s \<and>
    thread_runnable (snd (Frame_Fini s)) = thread_runnable s \<and>
    fst (Frame_Init (snd (Frame_Fini s))) = (\<not> base s)"
proof -
  let ?D = "set (running_thread s # main_thread s # thread_runnable s @ thread_free s @ map snd (io_wait_map s))"
  have p: "distinct (main_thread s # [running_thread s] @ stored s)"
    "dom (threads s) = set (main_thread s # [running_thread s] @ stored s)"
    using core_inv_parts(1) [OF assms] by (auto simp: placed_def)
  have "dom (threads s) \<inter> - ?D = set (thread_pending s)"
    unfolding p(2) using p(1) by (auto simp: stored_def)
  then show ?thesis
    by (simp add: Frame_Fini_eq [OF assms] Frame_Init_def new_thread_def Let_def upd_thread_def Int_commute)
qed

theorem Frame_Fini_leaks_sleepers_witness:
  "dom (threads (snd (Frame_Fini napping))) = {3, 2, 4} \<and> fst (Frame_Init (snd (Frame_Fini napping)))"
  using Frame_Fini_leaks_sleepers [of napping] napping_inv
  by (simp add: napping_def Let_def Frame_static_def)

text \<open>
  C37: when a coroutine waits for a descriptor that another one already waits for, the map
  keeps only the second; the first is in none of the containers any more and is never
  resumed.  When the events of both have fired, the run queue ends in the second thread
  and a null pointer, and scheduling that null pointer crashes.
\<close>

theorem double_wait_loses_a_coroutine:
  assumes "core_inv L [running_thread s] s" and "(fd, p) \<in> set (io_wait_map s)"
    and "fst (snd ev1) = fd" and "fst (snd ev2) = fd"
  shows "p \<notin> set (stored (wait_io fd flags s)) \<and> p \<noteq> running_thread (wait_io fd flags s) \<and>
    thread_runnable (SocketReadOrWrite ev2 (SocketReadOrWrite ev1 (wait_io fd flags s))) =
      thread_runnable (wait_io fd flags s) @ [running_thread s, NULL] \<and>
    (thread_runnable x = NULL # ts \<and> threads x NULL = None \<longrightarrow> cur (Frame_Schedule x) = Crashed)"
proof -
  let ?r = "running_thread s"
  note parts = core_inv_parts [OF assms(1)]
  obtain t where t: "threads s ?r = Some t" using assms(1) by (rule active_thread)
  let ?s = "parked ?r fd flags t s"
  have m: "distinct (map fst (io_wait_map s))" using parts(5) by (simp add: waiters_ok_def)
  have d: "distinct (?r # stored s)" using parts(1) by (simp add: placed_def)
  have "snd (fd, p) \<in> snd ` set (io_wait_map s)" using assms(2) by (rule imageI)
  then have i: "p \<in> set (map snd (io_wait_map s))" by simp
  have p: "p \<noteq> ?r" "p \<notin> set (thread_runnable s @ thread_pending s @ thread_free s)"
    using d i unfolding stored_def by (auto simp del: set_map)
  have "distinct (map snd (io_wait_map s))" using d by (simp add: stored_def)
  then have "p \<notin> snd ` set (AList.update fd ?r (io_wait_map s))"
    using assms(2) m p(1) by (rule update_forgets)
  then have lost: "p \<notin> set (stored ?s)" using p(2) by (auto simp: stored_def parked_def)
  have sub: "set (stored (Frame_Schedule y)) \<subseteq> set (stored y)"
    "running_thread (Frame_Schedule y) \<in> insert (running_thread y) (set (stored y))"
    "io_wait_map (Frame_Schedule y) = io_wait_map y" for y
    by (auto simp: Frame_Schedule_def RestoreContext_def stored_def split: list.split option.split)
  have w: "wait_io fd flags s = Frame_Schedule ?s" using t by (rule wait_io_eq)
  have "io_lookup (io_wait_map (Frame_Schedule ?s)) fd = ?r"
    unfolding sub(3) by (simp add: parked_def io_lookup_def update_conv')
  then have "thread_runnable (SocketReadOrWrite ev2 (SocketReadOrWrite ev1 (wait_io fd flags s))) =
      thread_runnable (wait_io fd flags s) @ [?r, NULL]"
    using assms(3,4) unfolding w by (simp add: SocketReadOrWrite_def Let_def io_lookup_def map_of_delete_same)
  moreover have "p \<notin> set (stored (wait_io fd flags s))" using lost sub(1) [of ?s] unfolding w by blast
  moreover have "p \<noteq> running_thread (wait_io fd flags s)"
    using lost p(1) sub(2) [of ?s] unfolding w by (auto simp: parked_def)
  ultimately show ?thesis by (simp add: Frame_Schedule_def RestoreContext_def)
qed

theorem double_wait_loses_a_coroutine_witness:
  "5 \<in> set (stored napping) \<and> 5 \<notin> set (stored (wait_io 5 {EV_READ} napping)) \<and>
     thread_runnable (SocketReadOrWrite (6, 5, {EV_READ}) (SocketReadOrWrite (5, 5, {EV_READ}) (wait_io 5 {EV_READ} napping))) =
       thread_runnable (wait_io 5 {EV_READ} napping) @ [6, NULL]"
  using double_wait_loses_a_coroutine [of "{}" napping 5 5 "(5, 5, {EV_READ})" "(6, 5, {EV_READ})" "{EV_READ}"] napping_inv
  by (simp add: stored_def)

text \<open>
  \<open>ThreadWrapper::IsDead\<close> does not identify a coroutine.  The free list is last in, first
  out, so the thread object of a finished coroutine is handed to the next
  \<open>CreateThread\<close>, and a wrapper of the finished one then says that it is not dead.
\<close>

theorem IsDead_forgets_a_finished_coroutine:
  assumes "core_inv L [running_thread s] s"
  shows "let s1 = RecycleRunningThread s; (q, s2) = CreateThread w s1 in
    q = running_thread s \<and>
    map_option IsDead (threads s1 q) = Some True \<and> map_option IsDead (threads s2 q) = Some False"
proof -
  obtain t where t: "threads s (running_thread s) = Some t" using assms by (rule active_thread)
  let ?s1 = "recycled (running_thread s) t s"
  have s1: "RecycleRunningThread s = ?s1" by (rule RecycleRunningThread_eq [OF t])
  have "core_inv L [] ?s1" using assms t by (rule recycled_core_inv)
  then obtain p t' t0 s0 where "CreateThread w ?s1 = (p, launched p t' w s0)" "threads s0 p = Some t0"
    "p = (if thread_free ?s1 = [] then next_ptr ?s1 else last (thread_free ?s1))"
    by (rule CreateThread_obtain [of _ _ _ w])
  then show ?thesis by (simp add: s1) (simp add: recycled_def launched_def IsDead_def Let_def)
qed

theorem IsDead_forgets_a_finished_coroutine_witness:
  "fst (CreateThread 7 (RecycleRunningThread napping)) = 6"
  using IsDead_forgets_a_finished_coroutine [of "{}" napping 7] napping_inv
  by (auto simp: Let_def split: prod.splits)

end
