(* ===== verification/Frame_IO.thy ===== *)
theory Frame_IO
  imports Frame_Props "HOL-Library.Sublist"
begin

text \<open>
  The socket calls of frame.cc.  A call is a loop around a system call: it tries, and when
  the descriptor is not ready it waits with \<open>wait_io\<close> and tries again.  What the operating
  system and the rest of the process answer is a script, a list of answers the loop
  consumes; \<open>None\<close> says that the script ends before the call returns, so the coroutine is
  still in it.
\<close>

unbundle bit_operations_syntax

section \<open>Answers\<close>

text \<open>The error numbers the code distinguishes; \<open>EAGAIN\<close> and \<open>EWOULDBLOCK\<close> are equal on Linux.\<close>

datatype errno = EINTR | EAGAIN | EINPROGRESS | EADDRINUSE | EOTHER nat

text \<open>
  \<open>Ok v\<close>: the system call succeeds with \<open>v\<close>.  \<open>Err e\<close>: it returns -1 with \<open>errno = e\<close>.
  \<open>Woken res e k\<close>: the waiting coroutine is resumed with \<open>ev_res = res\<close>; until then the
  other coroutines have changed the framework's state by \<open>k\<close> and \<open>errno\<close> to \<open>e\<close>.
\<close>

datatype 'a answer = Ok 'a | Err errno | Woken "ev_flag set" errno "frame \<Rightarrow> frame"

text \<open>A \<open>size_t\<close> returned as a C int.\<close>

definition size_to_int :: "nat \<Rightarrow> int" where
  "size_to_int n = sint (word_of_nat n :: 32 word)"

section \<open>Calls\<close>

fun accept :: "int \<Rightarrow> nat answer list \<Rightarrow> errno \<Rightarrow> frame \<Rightarrow> (int \<times> errno \<times> frame) option" where
  "accept sockfd [] e s = None"
| "accept sockfd (Ok fd # w) e s = Some (int fd, e, s)"
| "accept sockfd (Err e' # w) e s =
     (if e' = EINTR then accept sockfd w e' s
      else if e' = EAGAIN then
        (case w of
           Woken res e1 k # w1 \<Rightarrow> accept sockfd w1 e1 (k (wait_io sockfd {EV_READ} s))
         | _ \<Rightarrow> None)
      else Some (-1, e', s))"
| "accept sockfd (Woken res e1 k # w) e s = None"

text \<open>
  \<open>getsockopt(fd, SOL_SOCKET, SO_ERROR, &err, &n)\<close> stores at most \<open>n\<close> bytes of the value
  \<open>so\<close>, in the byte order of the machine, over the old contents of \<open>err\<close>.
\<close>

definition getsockopt_store :: "nat \<Rightarrow> u32 \<Rightarrow> u32 \<Rightarrow> u32" where
  "getsockopt_store n so err = (so AND mask (8 * n)) OR (err AND NOT (mask (8 * n)))"

text \<open>\<open>Ok so\<close> after the wait is a \<open>getsockopt\<close> that finds the pending error \<open>so\<close>.\<close>

fun connect :: "int \<Rightarrow> u32 answer list \<Rightarrow> errno \<Rightarrow> frame \<Rightarrow> (int \<times> errno \<times> frame) option" where
  "connect sockfd [] e s = None"
| "connect sockfd (Ok _ # w) e s = Some (0, e, s)"
| "connect sockfd (Err e' # w) e s =
     (if e' = EINTR then connect sockfd w e' s
      else if e' = EINPROGRESS \<or> e' = EADDRINUSE then
        (case w of
           Woken res e1 k # w1 \<Rightarrow>
             (let s1 = k (wait_io sockfd {EV_WRITE, EV_READ} s) in
              if EV_TIMEOUT \<in> res then Some (-1, e1, s1)
              else if res \<noteq> {EV_WRITE} then Some (-1, e1, s1)
              else (case w1 of
                      Ok so # _ \<Rightarrow>
                        (let err = getsockopt_store 0 so 0 in
                         if err \<noteq> 0 then Some (-1, EOTHER (unat err), s1) else Some (0, e1, s1))
                    | Err e2 # _ \<Rightarrow> Some (-1, e2, s1)
                    | _ \<Rightarrow> None))
         | _ \<Rightarrow> None)
      else Some (-1, e', s))"
| "connect sockfd (Woken res e1 k # w) e s = None"

text \<open>
  \<open>send\<close> with its counter; \<open>out\<close> collects the bytes the kernel has taken.  A successful
  \<open>::send\<close> takes at most what it is offered.
\<close>

fun send_loop :: "int \<Rightarrow> char list \<Rightarrow> nat \<Rightarrow> char list \<Rightarrow> nat answer list \<Rightarrow> errno \<Rightarrow> frame \<Rightarrow>
    (int \<times> errno \<times> char list \<times> frame) option" where
  "send_loop sockfd buf nsend out w e s =
     (if \<not> nsend < length buf then Some (size_to_int nsend, e, out, s)
      else case w of
        [] \<Rightarrow> None
      | Ok k # w1 \<Rightarrow>
          (let n = min k (length buf - nsend) in
           if n > 0 then send_loop sockfd buf (nsend + n) (out @ take n (drop nsend buf)) w1 e s
           else Some (0, e, out, s))
      | Err e' # w1 \<Rightarrow>
          (if e' = EINTR then send_loop sockfd buf nsend out w1 e' s
           else if e' = EAGAIN then
             (case w1 of
                Woken res e1 k # w2 \<Rightarrow>
                  (let s1 = k (wait_io sockfd {EV_WRITE} s) in
                   if EV_TIMEOUT \<in> res then Some (-2, e1, out, s1)
                   else if EV_WRITE \<in> res then send_loop sockfd buf nsend out w2 e1 s1
                   else Some (-1, e1, out, s1))
              | _ \<Rightarrow> None)
           else Some (-1, e', out, s))
      | Woken res e1 k # w1 \<Rightarrow> None)"

declare send_loop.simps [simp del]

definition send :: "int \<Rightarrow> char list \<Rightarrow> nat answer list \<Rightarrow> errno \<Rightarrow> frame \<Rightarrow>
    (int \<times> errno \<times> char list \<times> frame) option" where
  "send sockfd buf w e s = send_loop sockfd buf 0 [] w e s"

fun recv :: "int \<Rightarrow> nat \<Rightarrow> char list answer list \<Rightarrow> errno \<Rightarrow> frame \<Rightarrow>
    (int \<times> errno \<times> char list \<times> frame) option" where
  "recv sockfd len [] e s = None"
| "recv sockfd len (Ok d # w) e s = Some (int (length (take len d)), e, take len d, s)"
| "recv sockfd len (Err e' # w) e s =
     (if e' = EINTR then recv sockfd len w e' s
      else if e' = EAGAIN then
        (case w of
           Woken res e1 k # w1 \<Rightarrow>
             (let s1 = k (wait_io sockfd {EV_READ, EV_CLOSED} s) in
              if EV_TIMEOUT \<in> res then Some (-2, e1, [], s1)
              else if EV_CLOSED \<in> res then Some (0, e1, [], s1)
              else if EV_READ \<in> res then recv sockfd len w1 e1 s1
              else Some (-1, e1, [], s1))
         | _ \<Rightarrow> None)
      else Some (-1, e', [], s))"
| "recv sockfd len (Woken res e1 k # w) e s = None"

text \<open>\<open>sendto\<close> passes the answer of the system call on.\<close>

definition sendto :: "int \<Rightarrow> int" where
  "sendto answer = answer"

text \<open>
  \<open>recvfrom\<close> declares \<open>int ret\<close> again inside the loop.  Every \<open>break\<close> leaves with the
  outer \<open>ret\<close>, which is still 0.
\<close>

fun recvfrom :: "int \<Rightarrow> nat \<Rightarrow> (char list \<times> 'a) answer list \<Rightarrow> errno \<Rightarrow> frame \<Rightarrow>
    (int \<times> errno \<times> (char list \<times> 'a) option \<times> frame) option" where
  "recvfrom sockfd len [] e s = None"
| "recvfrom sockfd len (Ok (d, src) # w) e s =
     Some (int (length (take len d)), e, Some (take len d, src), s)"
| "recvfrom sockfd len (Err e' # w) e s =
     (if e' = EINTR then recvfrom sockfd len w e' s
      else if e' = EAGAIN then
        (case w of
           Woken res e1 k # w1 \<Rightarrow>
             (let s1 = k (wait_io sockfd {EV_READ, EV_CLOSED} s) in
              if EV_TIMEOUT \<in> res then Some (-2, e1, None, s1)
              else if EV_CLOSED \<in> res then Some (0, e1, None, s1)
              else if EV_READ \<in> res then recvfrom sockfd len w1 e1 s1
              else Some (0, e1, None, s1))
         | _ \<Rightarrow> None)
      else Some (0, e', None, s))"
| "recvfrom sockfd len (Woken res e1 k # w) e s = None"

section \<open>Round trips\<close>

text \<open>
  \<open>network::SetNonBlock\<close>: \<open>getfl\<close> is the answer to \<open>F_GETFL\<close>, \<open>setfl\<close> the answer to \<open>F_SETFL\<close>
  as a function of the flags it is given.
\<close>

definition O_NONBLOCK :: int where
  "O_NONBLOCK = 2048"

definition SetNonBlock :: "int \<Rightarrow> (int \<Rightarrow> int) \<Rightarrow> int" where
  "SetNonBlock getfl setfl = (if getfl < 0 then getfl else setfl (getfl OR O_NONBLOCK))"

text \<open>
  \<open>UdpSendAndRecv\<close>: \<open>fd\<close> is what \<open>socket\<close> returned, \<open>sent\<close> what \<open>::sendto\<close> returned.  The
  unqualified calls in the body are those of \<open>Frame\<close>.
\<close>

definition UdpSendAndRecv :: "int \<Rightarrow> int \<Rightarrow> (int \<Rightarrow> int) \<Rightarrow> int \<Rightarrow> (char list \<times> 'a) answer list \<Rightarrow> char list \<Rightarrow>
    errno \<Rightarrow> frame \<Rightarrow> (int \<times> errno \<times> char list \<times> frame) option" where
  "UdpSendAndRecv fd getfl setfl sent w recvbuf e s =
     (if SetNonBlock getfl setfl < 0 then Some (-1, e, recvbuf, s)
      else if sendto sent < 0 then Some (-1, e, recvbuf, s)
      else case recvfrom fd 65536 w e s of
        None \<Rightarrow> None
      | Some (ret, e1, d, s1) \<Rightarrow>
          (if ret < 0 then Some (-2, e1, recvbuf, s1)
           else if ret > 0 then
             Some (0, e1, (case d of Some (bytes, _) \<Rightarrow> take (nat ret) bytes | None \<Rightarrow> recvbuf), s1)
           else Some (0, e1, recvbuf, s1)))"

text \<open>
  The sending loop of \<open>TcpSendAndRecv\<close>, \<open>while (nsend == sendlen)\<close>; one script per call of
  \<open>send\<close>.  \<open>Inl r\<close>: the function returns \<open>r\<close>; \<open>Inr ()\<close>: the loop ends.
\<close>

fun tcp_send_loop :: "int \<Rightarrow> char list \<Rightarrow> nat \<Rightarrow> char list \<Rightarrow> nat answer list list \<Rightarrow> errno \<Rightarrow> frame \<Rightarrow>
    ((int + unit) \<times> errno \<times> char list \<times> frame) option" where
  "tcp_send_loop fd sendbuf nsend out ws e s =
     (if nsend \<noteq> length sendbuf then Some (Inr (), e, out, s)
      else case ws of
        [] \<Rightarrow> None
      | w # ws1 \<Rightarrow>
          (case send fd (drop nsend sendbuf) w e s of
             None \<Rightarrow> None
           | Some (ret, e1, d, s1) \<Rightarrow>
               (let nsend1 = (if ret > 0 then nsend + nat ret else nsend) in
                if ret < 0 \<and> e1 = EAGAIN then tcp_send_loop fd sendbuf nsend1 (out @ d) ws1 e1 s1
                else if ret < 0 then Some (Inl (-1), e1, out @ d, s1)
                else if ret = 0 then Some (Inl (-1), e1, out @ d, s1)
                else tcp_send_loop fd sendbuf nsend1 (out @ d) ws1 e1 s1)))"

declare tcp_send_loop.simps [simp del]

text \<open>
  The receiving loop.  Every call of \<open>recv\<close> is given the start of the buffer; \<open>check\<close> is
  \<open>is_complete->CheckPkg\<close>.
\<close>

fun tcp_recv_loop :: "int \<Rightarrow> nat \<Rightarrow> (char list \<Rightarrow> nat \<Rightarrow> int) \<Rightarrow> char list \<Rightarrow> nat \<Rightarrow> char list answer list list \<Rightarrow>
    errno \<Rightarrow> frame \<Rightarrow> (int \<times> errno \<times> char list \<times> nat \<times> frame) option" where
  "tcp_recv_loop fd recvlen check buf recvd [] e s = None"
| "tcp_recv_loop fd recvlen check buf recvd (w # ws) e s =
     (case recv fd recvlen w e s of
        None \<Rightarrow> None
      | Some (ret, e1, d, s1) \<Rightarrow>
          (if ret > 0 then
             (let buf1 = d @ drop (length d) buf; recvd1 = recvd + nat ret in
              if check buf1 recvd1 = 0 then Some (0, e1, buf1, recvd1, s1)
              else tcp_recv_loop fd recvlen check buf1 recvd1 ws e1 s1)
           else if ret = 0 then Some (-2, e1, buf, recvlen, s1)
           else if e1 = EAGAIN then tcp_recv_loop fd recvlen check buf recvd ws e1 s1
           else Some (-2, e1, buf, recvlen, s1)))"

text \<open>The result: return value, bytes sent, the buffer, \<open>*recvlen\<close> and the state.\<close>

definition TcpSendAndRecv :: "int \<Rightarrow> int \<Rightarrow> (int \<Rightarrow> int) \<Rightarrow> char list \<Rightarrow> char list \<Rightarrow> nat \<Rightarrow>
    (char list \<Rightarrow> nat \<Rightarrow> int) \<Rightarrow> nat answer list list \<Rightarrow> char list answer list list \<Rightarrow> errno \<Rightarrow> frame \<Rightarrow>
    (int \<times> char list \<times> char list \<times> nat \<times> frame) option" where
  "TcpSendAndRecv fd getfl setfl sendbuf recvbuf recvlen check ws rs e s =
     (if SetNonBlock getfl setfl < 0 then Some (-1, [], recvbuf, recvlen, s)
      else case tcp_send_loop fd sendbuf 0 [] ws e s of
        None \<Rightarrow> None
      | Some (Inl r, e1, out, s1) \<Rightarrow> Some (r, out, recvbuf, recvlen, s1)
      | Some (Inr _, e1, out, s1) \<Rightarrow>
          (case tcp_recv_loop fd recvlen check recvbuf 0 rs e1 s1 of
             None \<Rightarrow> None
           | Some (r, e2, buf, n, s2) \<Rightarrow> Some (r, out, buf, n, s2)))"

section \<open>Sending\<close>

lemma size_to_int_small:
  assumes "n < 2^31"
  shows "size_to_int n = int n"
proof -
  have "int n < int (2^31)" using assms by (simp only: of_nat_less_iff)
  then have "(int n + 2^31) mod 2^32 = int n + 2^31" by (intro mod_pos_pos_trivial) simp_all
  moreover have "sint (word_of_int (int n) :: 32 word) = (int n + 2^31) mod 2^32 - 2^31"
    unfolding int_word_sint by simp
  ultimately show ?thesis by (simp add: size_to_int_def)
qed

lemma send_loop_done: "length buf \<le> nsend \<Longrightarrow> send_loop fd buf nsend out w e s = Some (size_to_int nsend, e, out, s)"
  by (subst send_loop.simps) simp

lemma send_loop_step:
  assumes "nsend < length buf"
  shows "send_loop fd buf nsend out [] e s = None"
    and "send_loop fd buf nsend out (Ok k # w) e s =
      (if k = 0 then Some (0, e, out, s)
       else send_loop fd buf (nsend + min k (length buf - nsend))
         (out @ take (min k (length buf - nsend)) (drop nsend buf)) w e s)"
    and "send_loop fd buf nsend out (Err EINTR # w) e s = send_loop fd buf nsend out w EINTR s"
    and "send_loop fd buf nsend out (Err EAGAIN # Woken res e1 k1 # w) e s =
      (if EV_TIMEOUT \<in> res then Some (-2, e1, out, k1 (wait_io fd {EV_WRITE} s))
       else if EV_WRITE \<in> res then send_loop fd buf nsend out w e1 (k1 (wait_io fd {EV_WRITE} s))
       else Some (-1, e1, out, k1 (wait_io fd {EV_WRITE} s)))"
    and "e' \<noteq> EINTR \<Longrightarrow> e' \<noteq> EAGAIN \<Longrightarrow>
      send_loop fd buf nsend out (Err e' # w) e s = Some (-1, e', out, s)"
    and "(\<And>res e1 k1 w1. w \<noteq> Woken res e1 k1 # w1) \<Longrightarrow>
      send_loop fd buf nsend out (Err EAGAIN # w) e s = None"
    and "send_loop fd buf nsend out (Woken res e1 k1 # w) e s = None"
  using assms by (subst send_loop.simps, auto simp: Let_def split: list.split answer.split)+

text \<open>The shape of a script that \<open>send_loop\<close> reacts to.\<close>

lemma script_cases:
  obtains (empty) "w = []" | (ok) k w1 where "w = Ok k # w1"
  | (intr) w1 where "w = Err EINTR # w1"
  | (again) res e k w1 where "w = Err EAGAIN # Woken res e k # w1"
  | (blocked) w1 where "w = Err EAGAIN # w1" "\<And>res e k w2. w1 \<noteq> Woken res e k # w2"
  | (fail) e w1 where "w = Err e # w1" "e \<noteq> EINTR" "e \<noteq> EAGAIN"
  | (woken) res e k w1 where "w = Woken res e k # w1"
proof (cases w)
  case (Cons a w1)
  show thesis
  proof (cases a)
    case (Err e)
    with Cons show thesis
      by (cases "e = EAGAIN"; cases "e = EINTR"; cases "\<exists>res e k w2. w1 = Woken res e k # w2")
         (auto intro: intr again blocked fail)
  qed (use Cons ok woken in auto)
qed (use empty in simp)

lemma script_induct [case_names empty ok intr again blocked fail woken]:
  assumes "P []" and "\<And>k w. P w \<Longrightarrow> P (Ok k # w)" and "\<And>w. P w \<Longrightarrow> P (Err EINTR # w)"
    and "\<And>res e k w. P w \<Longrightarrow> P (Err EAGAIN # Woken res e k # w)"
    and "\<And>w. (\<And>res e k w2. w \<noteq> Woken res e k # w2) \<Longrightarrow> P (Err EAGAIN # w)"
    and "\<And>e w. e \<noteq> EINTR \<Longrightarrow> e \<noteq> EAGAIN \<Longrightarrow> P (Err e # w)" and "\<And>res e k w. P (Woken res e k # w)"
  shows "P w"
proof (induction w rule: length_induct)
  case (1 w)
  show ?case
  proof (cases w rule: script_cases)
    case (blocked w1)
    then show ?thesis by (simp add: assms(5))
  qed (use 1 in \<open>auto intro: assms\<close>)
qed

lemma take_extend: "n \<le> length xs \<Longrightarrow> take n xs @ take m (drop n xs) = take (n + m) xs"
  by (simp add: take_add)

definition sent_part :: "char list \<Rightarrow> int \<Rightarrow> char list \<Rightarrow> bool" where
  "sent_part buf r out \<longleftrightarrow>
     (out = buf \<and> r = size_to_int (length buf)) \<or> (strict_prefix out buf \<and> r \<in> {0, -1, -2})"

lemma strict_prefix_take: "n < length xs \<Longrightarrow> strict_prefix (take n xs) xs"
  by (metis strict_prefixI length_take min.absorb4 nat_neq_iff take_is_prefix)

lemma send_loop_spec:
  assumes "send_loop fd buf nsend out w e s = Some (r, e', out', s')"
    and "out = take nsend buf" and "nsend \<le> length buf"
  shows "sent_part buf r out'"
  using assms
proof (induction w arbitrary: nsend out e s rule: length_induct)
  case (1 w)
  show ?case
  proof (cases "nsend < length buf")
    case False
    with "1.prems" show ?thesis by (simp add: send_loop_done sent_part_def)
  next
    case True
    note step = send_loop_step [OF True]
    have stop: "sent_part buf r (take nsend buf)" if "r \<in> {0, -1, -2}" for r
      using that strict_prefix_take [OF True] by (simp add: sent_part_def)
    show ?thesis
    proof (cases w rule: script_cases)
      case (ok k w1)
      let ?n = "min k (length buf - nsend)"
      show ?thesis
      proof (cases "k = 0")
        case False
        have out: "out @ take ?n (drop nsend buf) = take (nsend + ?n) buf"
          unfolding "1.prems"(2) by (rule take_extend [OF "1.prems"(3)])
        have run: "send_loop fd buf (nsend + ?n) (out @ take ?n (drop nsend buf)) w1 e s = Some (r, e', out', s')"
          using "1.prems"(1) False by (simp add: ok step)
        show ?thesis by (rule "1.IH" [rule_format, OF _ run out]) (use True in \<open>simp_all add: ok\<close>)
      qed (use "1.prems" stop in \<open>simp add: ok step\<close>)
    next
      case (intr w1)
      have "send_loop fd buf nsend out w1 EINTR s = Some (r, e', out', s')"
        using "1.prems"(1) by (simp add: intr step)
      from "1.IH" [rule_format, OF _ this "1.prems"(2,3)] show ?thesis by (simp add: intr)
    next
      case (again res e1 k w1)
      show ?thesis
      proof (cases "EV_TIMEOUT \<notin> res \<and> EV_WRITE \<in> res")
        case True
        then have "send_loop fd buf nsend out w1 e1 (k (wait_io fd {EV_WRITE} s)) = Some (r, e', out', s')"
          using "1.prems"(1) by (simp add: again step)
        from "1.IH" [rule_format, OF _ this "1.prems"(2,3)] show ?thesis by (simp add: again)
      next
        case False
        with "1.prems" stop show ?thesis by (auto simp: again step split: if_splits)
      qed
    qed (use "1.prems" step stop in auto)
  qed
qed

text \<open>
  \<open>drains n w\<close>: the script lets \<open>n\<close> more bytes go out; the kernel may take them in pieces,
  interrupt the call and make it wait, as long as each wait ends with the descriptor
  writable.
\<close>

fun drains :: "nat \<Rightarrow> nat answer list \<Rightarrow> bool" where
  "drains 0 w = True"
| "drains (Suc n) (Ok k # w) = (0 < k \<and> drains (Suc n - k) w)"
| "drains (Suc n) (Err EINTR # w) = drains (Suc n) w"
| "drains (Suc n) (Err EAGAIN # Woken res e k # w) =
     (EV_TIMEOUT \<notin> res \<and> EV_WRITE \<in> res \<and> drains (Suc n) w)"
| "drains _ _ = False"

lemma send_loop_drains:
  assumes "drains n w" and "length buf - nsend = n" and "nsend \<le> length buf" and "out = take nsend buf"
  shows "\<exists>e' s'. send_loop fd buf nsend out w e s = Some (size_to_int (length buf), e', buf, s')"
  using assms
proof (induction n w arbitrary: nsend out e s rule: drains.induct)
  case (1 w)
  then show ?case by (simp add: send_loop_done)
next
  case (2 n k w)
  have lt: "nsend < length buf" using "2.prems"(2) by simp
  let ?n = "min k (length buf - nsend)"
  have out: "out @ take ?n (drop nsend buf) = take (nsend + ?n) buf"
    unfolding "2.prems"(4) by (rule take_extend [OF "2.prems"(3)])
  have k: "k \<noteq> 0" "drains (Suc n - k) w" using "2.prems"(1) by simp_all
  have left: "length buf - (nsend + ?n) = Suc n - k" and le: "nsend + ?n \<le> length buf"
    using "2.prems"(2) by simp_all
  show ?case unfolding send_loop_step(2) [OF lt] if_not_P [OF k(1)] out
    using "2.IH" [OF k(2) left le refl] .
next
  case (3 n w)
  have "nsend < length buf" using "3.prems"(2) by simp
  moreover have "drains (Suc n) w" using "3.prems"(1) by simp
  ultimately show ?case using "3.IH" [OF _ "3.prems"(2-4), of EINTR s] by (simp only: send_loop_step)
next
  case (4 n res e1 k w)
  have "nsend < length buf" using "4.prems"(2) by simp
  moreover have "EV_TIMEOUT \<notin> res" "EV_WRITE \<in> res" "drains (Suc n) w" using "4.prems"(1) by simp_all
  ultimately show ?case
    using "4.IH" [OF _ "4.prems"(2-4), of e1 "k (wait_io fd {EV_WRITE} s)"] by (simp only: send_loop_step if_True if_False)
qed simp_all

lemma drains_at_once: "0 < n \<Longrightarrow> drains n [Ok n]"
  by (cases n) auto

lemma send_drains:
  assumes "drains (length buf) w" and "length buf < 2 ^ 31"
  shows "\<exists>e' s'. send fd buf w e s = Some (int (length buf), e', buf, s')"
  unfolding send_def using send_loop_drains [OF assms(1), of buf 0 "[]" fd e s] size_to_int_small [OF assms(2)] by simp

section \<open>Receiving\<close>

lemma blocked_case: "(\<And>res e k w1. w \<noteq> Woken res e k # w1) \<Longrightarrow> (case w of Woken res e k # w1 \<Rightarrow> f res e k w1 | _ \<Rightarrow> c) = c"
  by (auto split: list.split answer.split)

lemma recv_spec:
  assumes "recv fd len w e s = Some (r, e', d, s')"
  shows "(0 < r \<and> r = int (length d) \<and> length d \<le> len) \<or> (r \<in> {0, -1, -2} \<and> d = [])"
  using assms
  by (induction w arbitrary: e s rule: script_induct) (auto simp: blocked_case Let_def split: if_splits)

lemma recvfrom_spec:
  assumes "recvfrom fd len w e s = Some (r, e', d, s')"
  shows "r \<ge> 0 \<or> r = -2"
  using assms
proof (induction w arbitrary: e s rule: script_induct)
  case (ok k w)
  then show ?case by (cases k) auto
qed (auto simp: blocked_case Let_def split: if_splits)

section \<open>What the calls do to the framework\<close>

text \<open>
  The contract of a blocking call towards the scheduler: it changes the framework's state
  only by waiting for its descriptor, so whatever survives waiting and being resumed
  survives the call.
\<close>

definition kept :: "(frame \<Rightarrow> bool) \<Rightarrow> int \<Rightarrow> ev_flag set \<Rightarrow> 'a answer list \<Rightarrow> bool" where
  "kept P fd flags w \<longleftrightarrow> (\<forall>res e k s. Woken res e k \<in> set w \<longrightarrow> P s \<longrightarrow> P (k (wait_io fd flags s)))"

lemma kept_simps [simp]:
  "kept P fd flags (Ok v # w) = kept P fd flags w"
  "kept P fd flags (Err e # w) = kept P fd flags w"
  "kept P fd flags (Woken res e k # w) \<longleftrightarrow> (\<forall>s. P s \<longrightarrow> P (k (wait_io fd flags s))) \<and> kept P fd flags w"
  by (auto simp: kept_def)

locale blocking_call =
  fixes call :: "int \<Rightarrow> 'a answer list \<Rightarrow> errno \<Rightarrow> frame \<Rightarrow> 'r option"
    and flags :: "ev_flag set"
    and state_of :: "'r \<Rightarrow> frame"
  assumes only_waits: "call fd w e s = Some r \<Longrightarrow> P s \<Longrightarrow> kept P fd flags w \<Longrightarrow> P (state_of r)"

text \<open>
  The other coroutines keep the invariant until they give the processor back, and none of
  them waits for the descriptor then.
\<close>

definition others_ok :: "ptr set \<Rightarrow> int \<Rightarrow> 'a answer list \<Rightarrow> bool" where
  "others_ok L fd w \<longleftrightarrow>
     (\<forall>res e k s. Woken res e k \<in> set w \<longrightarrow> frame_inv L s \<longrightarrow>
        frame_inv L (k s) \<and> in_thread (k s) \<and> fd \<notin> fst ` set (io_wait_map (k s)))"

context blocking_call
begin

lemma call_keeps_frame:
  assumes "call fd w e s = Some r" and "frame_inv L s" and "in_thread s"
    and "fd \<notin> fst ` set (io_wait_map s)" and "others_ok L fd w"
  shows "frame_inv L (state_of r) \<and> in_thread (state_of r)"
proof -
  let ?P = "\<lambda>s. frame_inv L s \<and> in_thread s \<and> fd \<notin> fst ` set (io_wait_map s)"
  have "?P (k (wait_io fd flags s1))" if "Woken res e1 k \<in> set w" "?P s1" for res e1 k s1
  proof -
    have "frame_inv L (wait_io fd flags s1)" using that(2) by (intro wait_io_inv frame_inv_thread) auto
    with assms(5) that(1) show ?thesis unfolding others_ok_def by metis
  qed
  then have "kept ?P fd flags w" unfolding kept_def by metis
  moreover have "?P s" using assms(2-4) by simp
  ultimately have "?P (state_of r)" using only_waits [OF assms(1), of ?P] by metis
  then show ?thesis by simp
qed

end

lemma accept_only_waits: "accept fd w e s = Some r \<Longrightarrow> P s \<Longrightarrow> kept P fd {EV_READ} w \<Longrightarrow> P (snd (snd r))"
  by (induction w arbitrary: e s rule: script_induct) (auto simp: blocked_case)

lemma connect_waiting:
  assumes "connect fd (Err e' # w) e s = Some r" and "e' = EINPROGRESS \<or> e' = EADDRINUSE"
  obtains res e1 k w1 where "w = Woken res e1 k # w1" and "snd (snd r) = k (wait_io fd {EV_WRITE, EV_READ} s)"
proof -
  have "\<exists>res e1 k w1. w = Woken res e1 k # w1"
    using assms by (auto split: list.splits answer.splits)
  then obtain res e1 k w1 where w: "w = Woken res e1 k # w1" by metis
  have "snd (snd r) = k (wait_io fd {EV_WRITE, EV_READ} s)"
  proof (cases "EV_TIMEOUT \<in> res \<or> res \<noteq> {EV_WRITE}")
    case True
    then have "connect fd (Err e' # w) e s = Some (-1, e1, k (wait_io fd {EV_WRITE, EV_READ} s))"
      using assms(2) by (simp only: w connect.simps) (simp add: Let_def, blast)
    with assms(1) show ?thesis by simp
  next
    case False
    with assms show ?thesis by (auto simp: w Let_def split: list.splits answer.splits if_splits)
  qed
  with w show thesis by (rule that)
qed

lemma connect_only_waits:
  assumes "connect fd w e s = Some r" and "P s" and "kept P fd {EV_WRITE, EV_READ} w"
  shows "P (snd (snd r))"
  using assms
proof (induction w arbitrary: e s)
  case (Cons a w)
  show ?case
  proof (cases a)
    case (Err e')
    consider "e' = EINTR" | "e' = EINPROGRESS \<or> e' = EADDRINUSE" |
      "e' \<noteq> EINTR" "e' \<noteq> EINPROGRESS" "e' \<noteq> EADDRINUSE" by blast
    then show ?thesis
    proof cases
      case 2
      with Cons.prems(1) Err obtain res e1 k w1 where
        "w = Woken res e1 k # w1" "snd (snd r) = k (wait_io fd {EV_WRITE, EV_READ} s)"
        by (auto simp del: connect.simps elim: connect_waiting)
      with Cons.prems(2,3) Err show ?thesis by simp
    qed (use Cons Err in auto)
  qed (use Cons.prems in auto)
qed simp

lemma recv_only_waits:
  "recv fd len w e s = Some r \<Longrightarrow> P s \<Longrightarrow> kept P fd {EV_READ, EV_CLOSED} w \<Longrightarrow> P (snd (snd (snd r)))"
  by (induction w arbitrary: e s rule: script_induct) (auto simp: blocked_case Let_def split: if_splits)

lemma recvfrom_only_waits:
  "recvfrom fd len w e s = Some r \<Longrightarrow> P s \<Longrightarrow> kept P fd {EV_READ, EV_CLOSED} w \<Longrightarrow> P (snd (snd (snd r)))"
proof (induction w arbitrary: e s rule: script_induct)
  case (ok k w)
  then show ?case by (cases k) auto
qed (auto simp: blocked_case Let_def split: if_splits)

lemma send_loop_only_waits:
  assumes "send_loop fd buf nsend out w e s = Some r" and "P s" and "kept P fd {EV_WRITE} w"
  shows "P (snd (snd (snd r)))"
  using assms
proof (induction w arbitrary: nsend out e s rule: script_induct)
  case (ok k w)
  then show ?case
    by (cases "nsend < length buf"; cases "k = 0") (auto simp: send_loop_step send_loop_done)
next
  case (intr w)
  then show ?case by (cases "nsend < length buf") (auto simp: send_loop_step send_loop_done)
next
  case (again res e1 k w)
  show ?case
  proof (cases "nsend < length buf \<and> EV_TIMEOUT \<notin> res \<and> EV_WRITE \<in> res")
    case True
    with again show ?thesis by (simp add: send_loop_step)
  next
    case False
    with again.prems show ?thesis
      by (cases "nsend < length buf") (auto simp: send_loop_step send_loop_done split: if_splits)
  qed
next
  case empty
  then show ?case by (cases "nsend < length buf") (auto simp: send_loop_step send_loop_done)
next
  case (blocked w)
  then show ?case by (cases "nsend < length buf") (auto simp: send_loop_step send_loop_done)
next
  case (fail e1 w)
  then show ?case by (cases "nsend < length buf") (auto simp: send_loop_step send_loop_done)
next
  case (woken res e1 k w)
  then show ?case by (cases "nsend < length buf") (auto simp: send_loop_step send_loop_done)
qed

interpretation io_accept: blocking_call accept "{EV_READ}" "\<lambda>r. snd (snd r)"
  by unfold_locales (rule accept_only_waits)

interpretation io_connect: blocking_call connect "{EV_WRITE, EV_READ}" "\<lambda>r. snd (snd r)"
  by unfold_locales (rule connect_only_waits)

interpretation io_send: blocking_call "\<lambda>fd. send fd buf" "{EV_WRITE}" "\<lambda>r. snd (snd (snd r))" for buf
  by unfold_locales (auto simp: send_def intro: send_loop_only_waits)

interpretation io_recv: blocking_call "\<lambda>fd. recv fd len" "{EV_READ, EV_CLOSED}" "\<lambda>r. snd (snd (snd r))" for len
  by unfold_locales (rule recv_only_waits)

interpretation io_recvfrom: blocking_call "\<lambda>fd. recvfrom fd len" "{EV_READ, EV_CLOSED}" "\<lambda>r. snd (snd (snd r))" for len
  by unfold_locales (rule recvfrom_only_waits)

section \<open>The sending loop of \<open>TcpSendAndRecv\<close>\<close>

lemma tcp_send_loop_skip: "b \<noteq> [] \<Longrightarrow> tcp_send_loop fd b 0 out ws e s = Some (Inr (), e, out, s)"
  by (simp add: tcp_send_loop.simps [of fd b])

lemma tcp_send_loop_empty: "tcp_send_loop fd [] 0 out (w # ws) e s = Some (Inl (-1), e, out, s)"
proof -
  have "send fd [] w e s = Some (0, e, [], s)"
    by (simp add: send_def send_loop_done size_to_int_def)
  then show ?thesis by (simp add: tcp_send_loop.simps [of fd "[]" 0 out "w # ws"])
qed

lemma TcpSendAndRecv_request:
  assumes "sendbuf \<noteq> []" and "0 \<le> SetNonBlock getfl setfl"
  shows "TcpSendAndRecv fd getfl setfl sendbuf recvbuf recvlen check ws rs e s =
    map_option (\<lambda>(r, e2, buf, n, s2). (r, [], buf, n, s2)) (tcp_recv_loop fd recvlen check recvbuf 0 rs e s)"
proof (cases "tcp_recv_loop fd recvlen check recvbuf 0 rs e s")
  case None
  with assms(2) show ?thesis
    unfolding TcpSendAndRecv_def tcp_send_loop_skip [OF assms(1)] by simp
next
  case (Some x)
  moreover obtain r e2 buf n s2 where "x = (r, e2, buf, n, s2)" by (rule prod_cases5)
  ultimately show ?thesis using assms(2)
    unfolding TcpSendAndRecv_def tcp_send_loop_skip [OF assms(1)] by simp
qed

section \<open>Properties\<close>



text \<open>
  C9: \<open>Frame::send\<close> of fewer than \<open>2^31\<close> bytes returns, with the number of bytes of the buffer
  and all of them sent, as soon as the kernel has taken them; interrupted calls, partial
  writes and waits in between do not matter.
\<close>

theorem send_completes:
  assumes "drains (length buf) w" and "length buf < 2^31"
  shows "\<exists>e' s'. send fd buf w e s = Some (int (length buf), e', buf, s')"
proof -
  have "size_to_int (length buf) = int (length buf)" using assms(2) by (rule size_to_int_small)
  then show ?thesis unfolding send_def using send_loop_drains [OF assms(1), of buf 0 "[]" fd e s] by simp
qed

theorem send_completes_witness:
  "\<exists>e' s'. send 5 ''abc'' [Ok 1, Err EAGAIN, Woken {EV_WRITE} EINTR (\<lambda>s. s), Ok 9] EINTR Frame_static =
     Some (3, e', ''abc'', s')"
proof -
  have "drains (length ''abc'') [Ok 1, Err EAGAIN, Woken {EV_WRITE} EINTR (\<lambda>s. s), Ok 9]" by simp
  from send_completes [OF this, of 5 EINTR Frame_static] show ?thesis by simp
qed

text \<open>
  When \<open>Frame::recv\<close> returns a positive number it is the number of bytes stored, at most
  the size of the buffer; otherwise it returns 0, -1 or -2 and stores nothing.
\<close>

theorem recv_result:
  assumes "recv fd len w e s = Some (r, e', d, s')"
  shows "(0 < r \<and> r = int (length d) \<and> length d \<le> len) \<or> (r \<in> {0, -1, -2} \<and> d = [])"
  using assms by (rule recv_spec)

theorem recv_result_witness:
  "recv 5 2 [Err EAGAIN, Woken {EV_READ} EINTR (\<lambda>s. s), Ok ''abc''] EINTR Frame_static =
     Some (2, EINTR, ''ab'', wait_io 5 {EV_READ, EV_CLOSED} Frame_static) \<and> length ''ab'' \<le> 2"
proof -
  have "recv 5 2 [Err EAGAIN, Woken {EV_READ} EINTR (\<lambda>s. s), Ok ''abc''] EINTR Frame_static =
     Some (2, EINTR, ''ab'', wait_io 5 {EV_READ, EV_CLOSED} Frame_static)" by simp
  with recv_result [OF this] show ?thesis by simp
qed

text \<open>
  \<open>Frame::recvfrom\<close> never reports an error of the system call.  Its loop declares a
  second \<open>ret\<close>, so an error leaves with 0, the value of an empty datagram; the only
  negative result is the time-out code.
\<close>

theorem recvfrom_hides_errors:
  "(recvfrom fd len w e s = Some (r, e', d, s') \<longrightarrow> r \<ge> 0 \<or> r = -2) \<and>
   (err \<noteq> EINTR \<and> err \<noteq> EAGAIN \<longrightarrow> recvfrom fd len (Err err # w) e s = Some (0, err, None, s))"
proof (intro conjI impI)
  show "r \<ge> 0 \<or> r = -2" if "recvfrom fd len w e s = Some (r, e', d, s')"
    using that by (rule recvfrom_spec)
qed simp

theorem recvfrom_hides_errors_witness:
  "recvfrom 5 10 [Err (EOTHER 9) :: (char list \<times> nat) answer] EINTR Frame_static = Some (0, EOTHER 9, None, Frame_static)"
  using recvfrom_hides_errors [of 5 10 "[]" EINTR Frame_static 0 EINTR None Frame_static "EOTHER 9"] by simp

text \<open>
  \<open>Frame::connect\<close> asks for the pending error of the socket with an option length of 0,
  so none of its bytes is stored: a connection that has failed is reported as made,
  whatever the error \<open>so\<close> was.  And when the descriptor is readable and writable at once, it
  reports an error for a connection that has been made.
\<close>

theorem connect_ignores_the_pending_error:
  "connect fd (Err EINPROGRESS # Woken {EV_WRITE} e1 k # Ok so # w) e s =
     Some (0, e1, k (wait_io fd {EV_WRITE, EV_READ} s)) \<and>
   connect fd (Err EINPROGRESS # Woken {EV_WRITE, EV_READ} e1 k # Ok 0 # w) e s =
     Some (-1, e1, k (wait_io fd {EV_WRITE, EV_READ} s))"
proof -
  have "{EV_WRITE, EV_READ} \<noteq> {EV_WRITE}" by auto
  then show ?thesis by (simp add: getsockopt_store_def Let_def)
qed

text \<open>
  \<open>Frame::TcpSendAndRecv\<close> never sends anything.  Its sending loop runs while
  \<open>nsend == sendlen\<close>: with a request it is skipped, and the result does not depend on the
  request; without one the call fails.
\<close>

theorem TcpSendAndRecv_sends_nothing:
  assumes "sendbuf \<noteq> []" and "sendbuf' \<noteq> []" and "0 \<le> SetNonBlock getfl setfl"
  shows "TcpSendAndRecv fd getfl setfl sendbuf recvbuf recvlen check ws rs e s =
      TcpSendAndRecv fd getfl setfl sendbuf' recvbuf recvlen check ws' rs e s \<and>
    (TcpSendAndRecv fd getfl setfl sendbuf recvbuf recvlen check ws rs e s = Some (r, out, buf, n, s') \<longrightarrow> out = []) \<and>
    TcpSendAndRecv fd getfl setfl [] recvbuf recvlen check (w # ws) rs e s = Some (-1, [], recvbuf, recvlen, s)"
proof (intro conjI impI)
  note skip = tcp_send_loop_skip [OF assms(1)] tcp_send_loop_skip [OF assms(2)]
  show "TcpSendAndRecv fd getfl setfl sendbuf recvbuf recvlen check ws rs e s =
      TcpSendAndRecv fd getfl setfl sendbuf' recvbuf recvlen check ws' rs e s"
    unfolding TcpSendAndRecv_def skip by (rule refl)
  show "out = []"
    if "TcpSendAndRecv fd getfl setfl sendbuf recvbuf recvlen check ws rs e s = Some (r, out, buf, n, s')"
    using that unfolding TcpSendAndRecv_request [OF assms(1,3)] by auto
  show "TcpSendAndRecv fd getfl setfl [] recvbuf recvlen check (w # ws) rs e s =
      Some (-1, [], recvbuf, recvlen, s)"
    using assms(3) unfolding TcpSendAndRecv_def tcp_send_loop_empty by simp
qed

theorem TcpSendAndRecv_sends_nothing_witness:
  "TcpSendAndRecv 3 0 (\<lambda>f. 0) ''GET'' ''....'' 4 (\<lambda>b n. 0) [] [[Ok ''hi'']] EINTR Frame_static =
     TcpSendAndRecv 3 0 (\<lambda>f. 0) ''PUT'' ''....'' 4 (\<lambda>b n. 0) [] [[Ok ''hi'']] EINTR Frame_static"
  by (rule TcpSendAndRecv_sends_nothing [THEN conjunct1]) (simp_all add: SetNonBlock_def)



end
