(* ===== verification/Mutex.thy ===== *)
theory Mutex
  imports Tinyco_Prelude
begin

text \<open>
  mutex.h and mutex.cc: the lock that worker processes take before they accept on a shared
  listening socket.  \<open>AtomicMtx\<close> is a 64-bit word in memory shared by the processes; it
  holds 0 or the process id of the holder.
\<close>

section \<open>Operations\<close>

text \<open>
  \<open>AtomicCompareAndSet\<close> on amd64, executed without interruption: the flag \<open>res\<close> and the new
  contents of the word.
\<close>

definition AtomicCompareAndSet :: "u64 \<Rightarrow> u64 \<Rightarrow> u64 \<Rightarrow> u64 \<times> u64" where
  "AtomicCompareAndSet a old n = (if a = old then (1, n) else (0, a))"

text \<open>The version for other machines stores without comparing and returns what it stored.\<close>

definition AtomicCompareAndSet_generic :: "u64 \<Rightarrow> u64 \<Rightarrow> u64 \<Rightarrow> u64 \<times> u64" where
  "AtomicCompareAndSet_generic a old n = (n, n)"

text \<open>
  The operations take the compare-and-set they were compiled with, the value of
  \<open>getpid()\<close>, and the word behind \<open>ptr_\<close>, \<open>None\<close> when \<open>ptr_\<close> is null.
\<close>

type_synonym cas = "u64 \<Rightarrow> u64 \<Rightarrow> u64 \<Rightarrow> u64 \<times> u64"

text \<open>\<open>InitMtx\<close> maps a fresh word, for an \<open>mmap\<close> that succeeds; its result is not checked.\<close>

definition AtomicMtx_InitMtx :: "u64 option \<Rightarrow> int \<times> u64 option" where
  "AtomicMtx_InitMtx p = (0, Some 0)"

definition AtomicMtx_TryLock :: "cas \<Rightarrow> u64 \<Rightarrow> u64 option \<Rightarrow> int \<times> u64 option" where
  "AtomicMtx_TryLock cmpset pid p =
     (case p of
        None \<Rightarrow> (-1, p)
      | Some w \<Rightarrow>
          (if w = 0
           then let (res, w1) = cmpset w 0 pid in (if res \<noteq> 0 then 0 else -1, Some w1)
           else (-1, p)))"

definition AtomicMtx_Unlock :: "cas \<Rightarrow> u64 \<Rightarrow> u64 option \<Rightarrow> int \<times> u64 option" where
  "AtomicMtx_Unlock cmpset pid p =
     (case p of
        None \<Rightarrow> (-1, p)
      | Some w \<Rightarrow> let (res, w1) = cmpset w pid 0 in (if res \<noteq> 0 then 0 else -1, Some w1))"

text \<open>\<open>ForcedUnlockIfNeed\<close> does not check \<open>ptr_\<close>; \<open>None\<close> as result is the null dereference.\<close>

definition AtomicMtx_ForcedUnlockIfNeed :: "u64 \<Rightarrow> u64 option \<Rightarrow> (int \<times> u64 option) option" where
  "AtomicMtx_ForcedUnlockIfNeed check_data p =
     (case p of
        None \<Rightarrow> None
      | Some w \<Rightarrow> if w = check_data then Some (0, Some 0) else Some (0, p))"

text \<open>\<open>DummyMtx\<close> and the default of \<open>Mutex::ForcedUnlockIfNeed\<close>.\<close>

definition DummyMtx_InitMtx :: int where
  "DummyMtx_InitMtx = 0"

definition DummyMtx_TryLock :: int where
  "DummyMtx_TryLock = 0"

definition DummyMtx_Unlock :: int where
  "DummyMtx_Unlock = 0"

definition Mutex_ForcedUnlockIfNeed :: int where
  "Mutex_ForcedUnlockIfNeed = 0"

text \<open>
  \<open>FileMtx\<close> asks the kernel.  \<open>open_fd\<close> is the answer to \<open>open\<close>; \<open>setlk t fd k\<close> is
  \<open>fcntl(fd, F_SETLK, {.l_type = t})\<close> made by a process on the kernel's locks \<open>k\<close>.
\<close>

datatype l_type = F_WRLCK | F_UNLCK

definition FileMtx_InitMtx :: "string option \<Rightarrow> int \<Rightarrow> int \<Rightarrow> int \<times> int" where
  "FileMtx_InitMtx arg open_fd fd =
     (case arg of
        None \<Rightarrow> (-1, fd)
      | Some lf \<Rightarrow> if open_fd \<noteq> -1 then (0, open_fd) else (-1, open_fd))"

definition FileMtx_TryLock :: "(l_type \<Rightarrow> int \<Rightarrow> 'k \<Rightarrow> int \<times> 'k) \<Rightarrow> int \<Rightarrow> 'k \<Rightarrow> int \<times> 'k" where
  "FileMtx_TryLock setlk fd k =
     (let (r, k1) = setlk F_WRLCK fd k in if r = -1 then (-1, k1) else (0, k1))"

definition FileMtx_Unlock :: "(l_type \<Rightarrow> int \<Rightarrow> 'k \<Rightarrow> int \<times> 'k) \<Rightarrow> int \<Rightarrow> 'k \<Rightarrow> int \<times> 'k" where
  "FileMtx_Unlock setlk fd k =
     (let (r, k1) = setlk F_UNLCK fd k in if r = -1 then (-1, k1) else (0, k1))"

lemmas mtx_defs [op_defs] = AtomicCompareAndSet_def AtomicMtx_InitMtx_def AtomicMtx_TryLock_def
  AtomicMtx_Unlock_def AtomicMtx_ForcedUnlockIfNeed_def

section \<open>The contract of a lock\<close>

text \<open>
  What the server relies on, for any representation \<open>'s\<close> of the lock: \<open>holder\<close> is the
  process that has it; a call returns 0 for success.
\<close>

locale process_lock =
  fixes holder :: "'s \<Rightarrow> 'p option"
    and try_lock :: "'p \<Rightarrow> 's \<Rightarrow> int \<times> 's"
    and unlock :: "'p \<Rightarrow> 's \<Rightarrow> int \<times> 's"
    and release :: "'p \<Rightarrow> 's \<Rightarrow> 's"
    and valid :: "'p \<Rightarrow> bool"
    and ready :: "'s \<Rightarrow> bool"
  assumes try_free: "ready s \<Longrightarrow> valid p \<Longrightarrow> holder s = None \<Longrightarrow>
      fst (try_lock p s) = 0 \<and> holder (snd (try_lock p s)) = Some p"
    and try_held: "ready s \<Longrightarrow> valid p \<Longrightarrow> holder s = Some q \<Longrightarrow> fst (try_lock p s) < 0 \<and> snd (try_lock p s) = s"
    and unlock_held: "ready s \<Longrightarrow> valid p \<Longrightarrow> holder s = Some p \<Longrightarrow>
      fst (unlock p s) = 0 \<and> holder (snd (unlock p s)) = None"
    and unlock_other: "ready s \<Longrightarrow> valid p \<Longrightarrow> holder s \<noteq> Some p \<Longrightarrow> fst (unlock p s) < 0 \<and> snd (unlock p s) = s"
    and release_held: "ready s \<Longrightarrow> valid p \<Longrightarrow> holder (release p s) = (if holder s = Some p then None else holder s)"
    and ready_kept: "ready s \<Longrightarrow> valid p \<Longrightarrow> ready (snd (try_lock p s)) \<and> ready (snd (unlock p s)) \<and> ready (release p s)"
begin

lemma try_lock_iff: "ready s \<Longrightarrow> valid p \<Longrightarrow> fst (try_lock p s) = 0 \<longleftrightarrow> holder s = None"
  by (cases "holder s") (use try_free [of s p] try_held [of s p] in force)+

lemma try_lock_unlock:
  assumes "ready s" and "valid p" and "holder s = None"
  shows "fst (unlock p (snd (try_lock p s))) = 0 \<and> holder (snd (unlock p (snd (try_lock p s)))) = None"
  using assms try_free [of s p] ready_kept [of s p] by (intro unlock_held) auto

lemma release_enables:
  assumes "ready s" and "valid p" and "valid q" and "holder s = Some q"
  shows "fst (try_lock p (release q s)) = 0"
  using assms release_held [of s q] ready_kept [of s q] try_lock_iff [of "release q s" p] by auto

end

text \<open>The word as an abstract lock.\<close>

definition mtx_holder :: "u64 option \<Rightarrow> u64 option" where
  "mtx_holder p = (case p of None \<Rightarrow> None | Some w \<Rightarrow> if w = 0 then None else Some w)"

definition forced_release :: "u64 \<Rightarrow> u64 option \<Rightarrow> u64 option" where
  "forced_release pid p = (case AtomicMtx_ForcedUnlockIfNeed pid p of None \<Rightarrow> p | Some (r, p1) \<Rightarrow> p1)"

interpretation amtx: process_lock mtx_holder "AtomicMtx_TryLock AtomicCompareAndSet"
  "AtomicMtx_Unlock AtomicCompareAndSet" forced_release "\<lambda>pid. pid \<noteq> 0" "\<lambda>p. p \<noteq> None"
  by unfold_locales (auto simp: op_defs mtx_holder_def forced_release_def split: if_splits)

section \<open>Processes\<close>

text \<open>
  Worker processes between the instructions of \<open>TryLock\<close> and \<open>Unlock\<close>: \<open>Tested\<close> has read
  \<open>*ptr_ == 0\<close> and has not yet executed the compare-and-set, \<open>Compared\<close> is inside a
  compare-and-set that is not atomic, \<open>Critical\<close> has the lock, \<open>Dead\<close> has crashed.
\<close>

datatype mtx_pc = Outside | Tested | Compared | Critical | Dead

record mtx_sys =
  lock_word :: u64
  mpcs :: "u64 \<Rightarrow> mtx_pc"

definition mtx_start :: "mtx_sys \<Rightarrow> bool" where
  "mtx_start s \<longleftrightarrow> lock_word s = 0 \<and> (\<forall>p. mpcs s p = Outside)"

text \<open>
  The steps with an atomic compare-and-set.  A worker may die anywhere; the master then
  calls \<open>ForcedUnlockIfNeed\<close> with its process id, and only after that can a new worker have
  that id.
\<close>

inductive mtx_step :: "mtx_sys \<Rightarrow> mtx_sys \<Rightarrow> bool" where
  test: "p \<noteq> 0 \<Longrightarrow> mpcs s p = Outside \<Longrightarrow> lock_word s = 0 \<Longrightarrow>
    mtx_step s (s\<lparr>mpcs := (mpcs s)(p := Tested)\<rparr>)"
| cas: "mpcs s p = Tested \<Longrightarrow> AtomicCompareAndSet (lock_word s) 0 p = (res, w) \<Longrightarrow>
    mtx_step s (s\<lparr>lock_word := w, mpcs := (mpcs s)(p := if res \<noteq> 0 then Critical else Outside)\<rparr>)"
| unlock: "mpcs s p = Critical \<Longrightarrow> AtomicMtx_Unlock AtomicCompareAndSet p (Some (lock_word s)) = (r, Some w) \<Longrightarrow>
    mtx_step s (s\<lparr>lock_word := w, mpcs := (mpcs s)(p := Outside)\<rparr>)"
| die: "p \<noteq> 0 \<Longrightarrow> mtx_step s (s\<lparr>mpcs := (mpcs s)(p := Dead)\<rparr>)"
| restart: "mpcs s p = Dead \<Longrightarrow> AtomicMtx_ForcedUnlockIfNeed p (Some (lock_word s)) = Some (r, Some w) \<Longrightarrow>
    mtx_step s (s\<lparr>lock_word := w, mpcs := (mpcs s)(p := Outside)\<rparr>)"

inductive_cases mtx_stepE: "mtx_step s t"

text \<open>
  The steps of the code as it is: \<open>cmpxchgq\<close> has no \<open>lock\<close> prefix, so on a machine with more
  than one processor its read and its write are two accesses to the shared word.
\<close>

inductive cmpxchg_step :: "mtx_sys \<Rightarrow> mtx_sys \<Rightarrow> bool" where
  read_zero: "p \<noteq> 0 \<Longrightarrow> mpcs s p = Outside \<Longrightarrow> lock_word s = 0 \<Longrightarrow>
    cmpxchg_step s (s\<lparr>mpcs := (mpcs s)(p := Tested)\<rparr>)"
| compare: "mpcs s p = Tested \<Longrightarrow>
    cmpxchg_step s (s\<lparr>mpcs := (mpcs s)(p := if lock_word s = 0 then Compared else Outside)\<rparr>)"
| exchange: "mpcs s p = Compared \<Longrightarrow>
    cmpxchg_step s (s\<lparr>lock_word := p, mpcs := (mpcs s)(p := Critical)\<rparr>)"
| leave: "mpcs s p = Critical \<Longrightarrow> AtomicMtx_Unlock AtomicCompareAndSet p (Some (lock_word s)) = (r, Some w) \<Longrightarrow>
    cmpxchg_step s (s\<lparr>lock_word := w, mpcs := (mpcs s)(p := Outside)\<rparr>)"

text \<open>The word names the holder, alive or dead, and nobody else is in the critical section.\<close>

definition mtx_inv :: "mtx_sys \<Rightarrow> bool" where
  "mtx_inv s \<longleftrightarrow> mpcs s 0 = Outside \<and> (\<forall>p. p \<noteq> lock_word s \<longrightarrow> mpcs s p \<noteq> Critical) \<and>
     (lock_word s \<noteq> 0 \<longrightarrow> mpcs s (lock_word s) \<in> {Critical, Dead})"

lemma mtx_start_inv: "mtx_start s \<Longrightarrow> mtx_inv s"
  by (simp add: mtx_start_def mtx_inv_def)

lemma mtx_invI:
  assumes "mpcs s 0 = Outside" and "\<And>p. p \<noteq> lock_word s \<Longrightarrow> mpcs s p \<noteq> Critical"
    and "lock_word s \<noteq> 0 \<Longrightarrow> mpcs s (lock_word s) \<in> {Critical, Dead}"
  shows "mtx_inv s"
  unfolding mtx_inv_def using assms by blast

lemma mtx_invD:
  assumes "mtx_inv s"
  shows "mpcs s 0 = Outside" and "p \<noteq> lock_word s \<Longrightarrow> mpcs s p \<noteq> Critical"
    and "lock_word s \<noteq> 0 \<Longrightarrow> mpcs s (lock_word s) = Critical \<or> mpcs s (lock_word s) = Dead"
  using assms unfolding mtx_inv_def by blast+

lemma mtx_step_inv:
  assumes inv: "mtx_inv s" and step: "mtx_step s t"
  shows "mtx_inv t"
  using step
proof cases
  case (test p)
  with mtx_invD [OF inv] show ?thesis by (intro mtx_invI) (auto split: if_splits)
next
  case (cas p res w)
  with mtx_invD(1) [OF inv] have "p \<noteq> 0" by auto
  show ?thesis
  proof (cases "lock_word s = 0")
    case True
    then have "mpcs s q \<noteq> Critical" for q using mtx_invD(1) [OF inv] mtx_invD(2) [OF inv, of q] by (cases "q = 0") auto
    with cas True \<open>p \<noteq> 0\<close> mtx_invD(1) [OF inv] show ?thesis
      by (intro mtx_invI) (auto simp: AtomicCompareAndSet_def split: if_splits)
  next
    case False
    with cas mtx_invD [OF inv] show ?thesis
      by (intro mtx_invI) (auto simp: AtomicCompareAndSet_def split: if_splits)
  qed
next
  case (unlock p r w)
  with mtx_invD(2) [OF inv, of p] have "lock_word s = p" by auto
  with unlock mtx_invD [OF inv] show ?thesis by (intro mtx_invI) (auto simp: op_defs split: if_splits)
next
  case (die p)
  with mtx_invD [OF inv] show ?thesis by (intro mtx_invI) (auto split: if_splits)
next
  case (restart p r w)
  show ?thesis
  proof (cases "lock_word s = p")
    case True
    with restart mtx_invD [OF inv] show ?thesis by (intro mtx_invI) (auto simp: op_defs split: if_splits)
  next
    case False
    with restart mtx_invD [OF inv] show ?thesis by (intro mtx_invI) (auto simp: op_defs split: if_splits)
  qed
qed

interpretation mtx: invariant_system mtx_start mtx_step mtx_inv
  by unfold_locales (fact mtx_start_inv, fact mtx_step_inv)

section \<open>Properties\<close>

text \<open>
  C4: with an atomic compare-and-set the lock excludes: in every reachable state at most one
  process is between a successful \<open>TryLock\<close> and its \<open>Unlock\<close>, also when workers crash with
  the lock and the master frees it for them.
\<close>

theorem AtomicMtx_mutual_exclusion:
  assumes "reachable mtx_start mtx_step s" and "mpcs s p = Critical" and "mpcs s q = Critical"
  shows "p = q"
  using mtx_invD(2) [OF mtx.reachable_inv [OF assms(1)]] assms(2,3) by metis

definition mtx_boot :: mtx_sys where
  "mtx_boot = \<lparr>lock_word = 0, mpcs = (\<lambda>_. Outside)\<rparr>"

definition mtx_one :: mtx_sys where
  "mtx_one = mtx_boot\<lparr>lock_word := 7, mpcs := (\<lambda>_. Outside)(7 := Tested, 7 := Critical)\<rparr>"

lemma mtx_one_reachable: "reachable mtx_start mtx_step mtx_one"
proof -
  have "reachable mtx_start mtx_step mtx_boot" by (rule reach_init) (simp add: mtx_start_def mtx_boot_def)
  then have "reachable mtx_start mtx_step (mtx_boot\<lparr>mpcs := (mpcs mtx_boot)(7 := Tested)\<rparr>)" (is "reachable _ _ ?s")
    by (rule reach_step) (rule test, simp_all add: mtx_boot_def)
  then have "reachable mtx_start mtx_step (?s\<lparr>lock_word := 7, mpcs := (mpcs ?s)(7 := if (1::u64) \<noteq> 0 then Critical else Outside)\<rparr>)"
    by (rule reach_step) (rule cas, simp_all add: mtx_boot_def AtomicCompareAndSet_def)
  then show ?thesis by (simp add: mtx_one_def mtx_boot_def)
qed

theorem AtomicMtx_mutual_exclusion_witness:
  "reachable mtx_start mtx_step mtx_one \<and> mpcs mtx_one 7 = Critical \<and> mpcs mtx_one 9 \<noteq> Critical"
  using AtomicMtx_mutual_exclusion [OF mtx_one_reachable, of 7 9] mtx_one_reachable
  by (auto simp: mtx_one_def)

lemma cmpxchg_reach:
  assumes "reachable mtx_start cmpxchg_step s" and "cmpxchg_step s t'" and "lock_word t' = lock_word t"
    and "mpcs t' = mpcs t"
  shows "reachable mtx_start cmpxchg_step t"
proof -
  have "t' = t" using assms(3,4) by (intro mtx_sys.equality) simp_all
  with assms(1,2) show ?thesis by (auto intro: reach_step)
qed

text \<open>
  The compare-and-set of the code is not atomic between processors, because
  \<open>cmpxchgq\<close> is not locked.  Two processes that execute it at the same time both get the
  lock.
\<close>

theorem cmpxchg_without_lock_prefix_fails:
  "\<exists>s. reachable mtx_start cmpxchg_step s \<and> mpcs s 1 = Critical \<and> mpcs s 2 = Critical"
proof -
  let ?s = "\<lambda>w a b. \<lparr>lock_word = w, mpcs = (\<lambda>_. Outside)(1 := a, 2 := b)\<rparr> :: mtx_sys"
  let ?R = "reachable mtx_start cmpxchg_step"
  have "?R (?s 0 Outside Outside)" by (rule reach_init) (simp add: mtx_start_def)
  from this read_zero [of 1] have "?R (?s 0 Tested Outside)" by (rule cmpxchg_reach) auto
  from this read_zero [of 2] have "?R (?s 0 Tested Tested)" by (rule cmpxchg_reach) auto
  from this compare [of _ 1] have "?R (?s 0 Compared Tested)" by (rule cmpxchg_reach) auto
  from this compare [of _ 2] have "?R (?s 0 Compared Compared)" by (rule cmpxchg_reach) auto
  from this exchange [of _ 1] have "?R (?s 1 Critical Compared)" by (rule cmpxchg_reach) auto
  from this exchange [of _ 2] have "?R (?s 2 Critical Critical)" by (rule cmpxchg_reach) auto
  then show ?thesis by (intro exI [of _ "?s 2 Critical Critical"]) simp
qed

text \<open>
  The abstract lock that the operations implement: nobody or one process has it.
\<close>

definition spec_try :: "u64 \<Rightarrow> u64 option \<Rightarrow> bool \<times> u64 option" where
  "spec_try p h = (if h = None then (True, Some p) else (False, h))"

definition spec_unlock :: "u64 \<Rightarrow> u64 option \<Rightarrow> bool \<times> u64 option" where
  "spec_unlock p h = (if h = Some p then (True, None) else (False, h))"

definition spec_release :: "u64 \<Rightarrow> u64 option \<Rightarrow> u64 option" where
  "spec_release p h = (if h = Some p then None else h)"

text \<open>A call of the code seen abstractly: did it return 0, and who has the lock afterwards.\<close>

definition mtx_abs :: "int \<times> u64 option \<Rightarrow> bool \<times> u64 option" where
  "mtx_abs r = (fst r = 0, mtx_holder (snd r))"

text \<open>
  C17: on an initialised word the operations of \<open>AtomicMtx\<close> implement the abstract lock, for
  every process id other than 0; \<open>InitMtx\<close> gives the free lock; before it, \<open>TryLock\<close> and
  \<open>Unlock\<close> fail and \<open>ForcedUnlockIfNeed\<close> dereferences a null pointer.
\<close>

theorem AtomicMtx_refines_lock:
  assumes "p \<noteq> 0"
  shows "mtx_abs (AtomicMtx_TryLock AtomicCompareAndSet p (Some w)) = spec_try p (mtx_holder (Some w)) \<and>
    mtx_abs (AtomicMtx_Unlock AtomicCompareAndSet p (Some w)) = spec_unlock p (mtx_holder (Some w)) \<and>
    mtx_holder (forced_release p (Some w)) = spec_release p (mtx_holder (Some w)) \<and>
    mtx_holder (snd (AtomicMtx_InitMtx x)) = None \<and>
    fst (AtomicMtx_TryLock cs p None) = -1 \<and> fst (AtomicMtx_Unlock cs p None) = -1 \<and>
    AtomicMtx_ForcedUnlockIfNeed p None = None"
  using assms
  by (auto simp: op_defs mtx_abs_def mtx_holder_def forced_release_def spec_try_def spec_unlock_def spec_release_def)

theorem AtomicMtx_refines_lock_witness:
  "mtx_abs (AtomicMtx_TryLock AtomicCompareAndSet 5 (Some 0)) = (True, Some 5) \<and>
     mtx_abs (AtomicMtx_Unlock AtomicCompareAndSet 5 (Some 9)) = (False, Some 9)"
  using AtomicMtx_refines_lock [of 5 0] AtomicMtx_refines_lock [of 5 9]
  by (simp add: mtx_holder_def spec_try_def spec_unlock_def)

text \<open>
  When a worker dies with the lock, the others cannot take it; after the master's
  \<open>ForcedUnlockIfNeed\<close> with the dead worker's id each of them can, and a forced unlock with
  any other id changes nothing.
\<close>

theorem forced_unlock_recovers:
  assumes "p \<noteq> 0" and "q \<noteq> 0" and "r \<noteq> q"
  shows "fst (AtomicMtx_TryLock AtomicCompareAndSet p (Some q)) = -1 \<and>
    fst (AtomicMtx_TryLock AtomicCompareAndSet p (forced_release q (Some q))) = 0 \<and>
    forced_release r (Some q) = Some q"
  using assms amtx.release_enables [of "Some q" p q] by (simp add: op_defs mtx_holder_def forced_release_def)

theorem forced_unlock_recovers_witness:
  "fst (AtomicMtx_TryLock AtomicCompareAndSet 5 (Some 9)) = -1 \<and>
     fst (AtomicMtx_TryLock AtomicCompareAndSet 5 (forced_release 9 (Some 9))) = 0"
  using forced_unlock_recovers [of 5 9 1] by simp

text \<open>
  With the compare-and-set for other machines the lock does not work: any process frees
  it, and \<open>Unlock\<close> reports failure even to the holder.
\<close>

theorem generic_compare_and_set_fails:
  "AtomicMtx_Unlock AtomicCompareAndSet_generic p (Some q) = (-1, Some 0)"
  by (simp add: AtomicMtx_Unlock_def AtomicCompareAndSet_generic_def)

text \<open>
  What POSIX says of \<open>F_SETLK\<close> on the whole file, for each process \<open>p\<close>: a write lock is
  granted unless another process has one, and unlocking gives up the own lock and succeeds.
\<close>

definition posix_setlk :: "('p \<Rightarrow> l_type \<Rightarrow> int \<Rightarrow> 'k \<Rightarrow> int \<times> 'k) \<Rightarrow> ('k \<Rightarrow> 'p option) \<Rightarrow> int \<Rightarrow> bool" where
  "posix_setlk setlk owner fd \<longleftrightarrow>
     (\<forall>p k. (owner k = None \<or> owner k = Some p \<longrightarrow>
              fst (setlk p F_WRLCK fd k) \<noteq> -1 \<and> owner (snd (setlk p F_WRLCK fd k)) = Some p) \<and>
            (\<forall>q. owner k = Some q \<and> q \<noteq> p \<longrightarrow>
              fst (setlk p F_WRLCK fd k) = -1 \<and> owner (snd (setlk p F_WRLCK fd k)) = Some q) \<and>
            fst (setlk p F_UNLCK fd k) \<noteq> -1 \<and>
            owner (snd (setlk p F_UNLCK fd k)) = (if owner k = Some p then None else owner k))"



end
