(* ===== verification/Listener.thy ===== *)
theory Listener
  imports Frame_IO Mutex
begin

text \<open>
  listener.h and listener.cc: a listening socket and the mutex that guards it, and
  \<open>SetReuseAddr\<close> of util/network.cc.  The answers of the system calls are a record.
\<close>

section \<open>Objects\<close>

text \<open>
  A listener has its mutex, an \<open>AtomicMtx\<close>, by value: \<open>l_mtx\<close> is the shared word, \<open>None\<close> before
  \<open>InitMtx\<close> has mapped it.
\<close>

record listener =
  listenfd :: int
  l_ip :: u32
  l_port :: u16
  l_mtx :: "u64 option"
  proto :: string

definition Listener_ctor :: listener where
  "Listener_ctor = \<lparr>listenfd = -1, l_ip = 0, l_port = 0, l_mtx = None, proto = []\<rparr>"

definition TcpListener_ctor :: listener where
  "TcpListener_ctor = Listener_ctor\<lparr>proto := ''tcp''\<rparr>"

text \<open>The constructor of \<open>UdpListener\<close> stores the same protocol name.\<close>

definition UdpListener_ctor :: listener where
  "UdpListener_ctor = Listener_ctor\<lparr>proto := ''tcp''\<rparr>"

text \<open>The descriptors \<open>Destroy\<close> and the destructor close.\<close>

definition Listener_Destroy :: "listener \<Rightarrow> int list" where
  "Listener_Destroy l = (if listenfd l \<ge> 0 then [listenfd l] else [])"

definition Listener_dtor :: "listener \<Rightarrow> int list" where
  "Listener_dtor l = (if listenfd l \<ge> 0 then [listenfd l] else [])"

section \<open>Listening\<close>

text \<open>
  What the system answers: \<open>sys_bind\<close> is given the address and the port in network byte order.
\<close>

record listen_sys =
  sys_socket :: int
  sys_getfl :: int
  sys_setfl :: "int \<Rightarrow> int"
  sys_reuse :: int
  sys_bind :: "u32 \<times> u16 \<Rightarrow> int"
  sys_listen :: "int \<Rightarrow> int"

definition htons :: "u16 \<Rightarrow> u16" where
  "htons w = push_bit 8 w OR drop_bit 8 w"

definition SetReuseAddr :: "int \<Rightarrow> int" where
  "SetReuseAddr answer = answer"

definition TcpListener_Listen :: "listen_sys \<Rightarrow> u32 \<Rightarrow> u16 \<Rightarrow> listener \<Rightarrow> int \<times> listener" where
  "TcpListener_Listen sys ip p l =
     (let (r, m) = AtomicMtx_InitMtx (l_mtx l); l0 = l\<lparr>l_mtx := m\<rparr> in
      if r < 0 then (-21, l0)
      else let l1 = l0\<lparr>l_ip := ip, l_port := p, listenfd := sys_socket sys\<rparr> in
        if listenfd l1 < 0 then (-28, l1)
        else if SetNonBlock (sys_getfl sys) (sys_setfl sys) < 0 then (-40, l1)
        else if SetReuseAddr (sys_reuse sys) \<noteq> 0 then (-45, l1)
        else if sys_bind sys (l_ip l1, htons (l_port l1)) < 0 then (-50, l1)
        else if sys_listen sys 5 < 0 then (-55, l1)
        else (0, l1))"

definition UdpListener_Listen :: "listen_sys \<Rightarrow> u32 \<Rightarrow> u16 \<Rightarrow> listener \<Rightarrow> int \<times> listener" where
  "UdpListener_Listen sys ip p l =
     (let (r, m) = AtomicMtx_InitMtx (l_mtx l); l0 = l\<lparr>l_mtx := m\<rparr> in
      if r < 0 then (-62, l0)
      else let l1 = l0\<lparr>l_ip := ip, l_port := p, listenfd := sys_socket sys\<rparr> in
        if listenfd l1 < 0 then (-70, l1)
        else if SetNonBlock (sys_getfl sys) (sys_setfl sys) < 0 then (-80, l1)
        else if sys_bind sys (l_ip l1, htons (l_port l1)) < 0 then (-85, l1)
        else (0, l1))"

section \<open>Facts\<close>

text \<open>A listener that is ready: an open descriptor and a free mutex.\<close>

definition listening :: "listener \<Rightarrow> bool" where
  "listening l \<longleftrightarrow> listenfd l \<ge> 0 \<and> l_mtx l = Some 0"

lemma Listen_ready:
  "TcpListener_Listen sys ip p l = (r, l') \<Longrightarrow> 0 \<le> r \<Longrightarrow> listening l' \<and> proto l' = proto l"
  "UdpListener_Listen sys ip p l = (r, l') \<Longrightarrow> 0 \<le> r \<Longrightarrow> listening l' \<and> proto l' = proto l"
  by (auto simp: TcpListener_Listen_def UdpListener_Listen_def listening_def AtomicMtx_InitMtx_def Let_def split: if_splits)

lemma htons_twice: "htons (htons w) = w"
proof (rule bit_word_eqI)
  fix n assume "n < LENGTH(16)"
  then show "bit (htons (htons w)) n = bit w n"
    by (cases "n < 8") (auto simp: htons_def bit_simps)
qed

end
