(* ===== verification/Server_Work.thy ===== *)
theory Server_Work
  imports Listener
begin

text \<open>
  server.h: the connection tracker, the per-request work objects and the two accepting loops
  \<open>RunTcpSrv\<close> and \<open>RunUdpSrv\<close>.  A loop is a function on the state of one worker process; each
  round has a record with what the system and the rest of the process answer in it.
\<close>

section \<open>Connections\<close>

text \<open>\<open>Conn\<close> has no members, so the map from descriptors to connections is the list of its keys.\<close>

record conn_tracker =
  graceful_shutdown :: bool
  conns :: "(int \<times> unit) list"

definition ConnTracker_ctor :: conn_tracker where
  "ConnTracker_ctor = \<lparr>graceful_shutdown = False, conns = []\<rparr>"

definition NewConn :: "int \<Rightarrow> conn_tracker \<Rightarrow> conn_tracker" where
  "NewConn fd ct = ct\<lparr>conns := AList.update fd () (conns ct)\<rparr>"

definition RemoveConn :: "int \<Rightarrow> conn_tracker \<Rightarrow> conn_tracker" where
  "RemoveConn fd ct = ct\<lparr>conns := AList.delete fd (conns ct)\<rparr>"

definition GetConnSize :: "conn_tracker \<Rightarrow> u32" where
  "GetConnSize ct = word_of_nat (length (conns ct))"

text \<open>A \<open>TcpReqWork\<close>: its socket and whether it has a tracker.\<close>

record tcp_req_work =
  sockfd :: int
  tracked :: bool

definition TcpReqWork_ctor :: tcp_req_work where
  "TcpReqWork_ctor = \<lparr>sockfd = -1, tracked = False\<rparr>"

definition SetFd :: "int \<Rightarrow> tcp_req_work \<Rightarrow> tcp_req_work" where
  "SetFd fd b = b\<lparr>sockfd := fd\<rparr>"

definition SetConnTracker :: "bool \<Rightarrow> tcp_req_work \<Rightarrow> tcp_req_work" where
  "SetConnTracker t b = b\<lparr>tracked := t\<rparr>"

text \<open>The destructor: the tracker afterwards and the descriptors closed.\<close>

definition TcpReqWork_dtor :: "tcp_req_work \<Rightarrow> conn_tracker \<Rightarrow> conn_tracker \<times> int list" where
  "TcpReqWork_dtor b ct =
     (if tracked b then RemoveConn (sockfd b) ct else ct, if sockfd b \<ge> 0 then [sockfd b] else [])"

section \<open>The stream server\<close>

text \<open>
  What happens in one round: the time \<open>Sleep\<close> reads; what the other coroutines do to the framework
  until a sleeper is resumed; what the other processes and coroutines do to the mutex and the
  tracker while the coroutine is suspended; the answers to \<open>accept\<close> and \<open>fcntl\<close>; the address
  of the work object the builder returns.
\<close>

record tcp_round =
  in_now :: u64
  in_resume :: "frame \<Rightarrow> frame"
  in_mtx :: "u64 option \<Rightarrow> u64 option"
  in_ct :: "conn_tracker \<Rightarrow> conn_tracker"
  in_accept :: "nat answer list"
  in_getfl :: int
  in_setfl :: "int \<Rightarrow> int"

record tcp_srv =
  accepted :: int
  srv_listener :: listener
  ct :: "conn_tracker option"
  works :: "(ptr \<times> tcp_req_work) list"
  srv_closed :: "int list"
  srv_errno :: errno
  srv_frame :: frame

text \<open>How a round ends: with the next one, with a \<open>break\<close> or a return, or at a null pointer.\<close>

datatype srv_result = Next | Return int | Null_Deref

definition sleep_round :: "u32 \<Rightarrow> tcp_round \<Rightarrow> tcp_srv \<Rightarrow> tcp_srv" where
  "sleep_round ms i st =
     st\<lparr>srv_frame := in_resume i (Sleep ms (in_now i) (srv_frame st)),
        srv_listener := (srv_listener st)\<lparr>l_mtx := in_mtx i (l_mtx (srv_listener st))\<rparr>,
        ct := map_option (in_ct i) (ct st)\<rparr>"

text \<open>What is done with an accepted connection, after the mutex is free again.\<close>

definition serve_conn :: "(u32 \<Rightarrow> ptr) option \<Rightarrow> tcp_round \<Rightarrow> int \<Rightarrow> tcp_srv \<Rightarrow> tcp_srv \<times> srv_result" where
  "serve_conn builder i fd st =
     (if SetNonBlock (in_getfl i) (in_setfl i) < 0 then (st, Return 0)
      else case builder of
        None \<Rightarrow> (st\<lparr>srv_closed := srv_closed st @ [fd]\<rparr>, Next)
      | Some build \<Rightarrow>
          (let b = build (ucast (l_port (srv_listener st))) in
           if b = NULL then (st, Null_Deref)
           else
             let w = SetConnTracker (ct st \<noteq> None) (SetFd fd TcpReqWork_ctor);
                 st1 = st\<lparr>works := AList.update b w (works st), ct := map_option (NewConn fd) (ct st)\<rparr>;
                 st2 = st1\<lparr>srv_frame := snd (CreateThread b (srv_frame st1))\<rparr>
             in case ct st2 of
                  None \<Rightarrow> (st2, Null_Deref)
                | Some c \<Rightarrow> (st2, if graceful_shutdown c then Return 0 else Next)))"

text \<open>One round of \<open>RunTcpSrv\<close>; \<open>None\<close> while \<open>accept\<close> has not returned.\<close>

definition tcp_srv_round :: "cas \<Rightarrow> u64 \<Rightarrow> (u32 \<Rightarrow> ptr) option \<Rightarrow> tcp_round \<Rightarrow> tcp_srv \<Rightarrow> (tcp_srv \<times> srv_result) option" where
  "tcp_srv_round cmpset pid builder i st =
     (if accepted st > 15 then Some ((sleep_round 50 i st)\<lparr>accepted := 0\<rparr>, Next)
      else
        let st1 = st\<lparr>accepted := accepted st + 1\<rparr>;
            (r, m) = AtomicMtx_TryLock cmpset pid (l_mtx (srv_listener st1));
            st2 = st1\<lparr>srv_listener := (srv_listener st1)\<lparr>l_mtx := m\<rparr>\<rparr>
        in if r < 0 then Some (sleep_round 50 i st2, Next)
           else case accept (listenfd (srv_listener st2)) (in_accept i) (srv_errno st2) (srv_frame st2) of
             None \<Rightarrow> None
           | Some (fd, e, s) \<Rightarrow>
               (let st3 = st2\<lparr>srv_errno := e, srv_frame := s, ct := map_option (in_ct i) (ct st2),
                     srv_listener := (srv_listener st2)\<lparr>l_mtx := in_mtx i m\<rparr>\<rparr>
                in if fd < 0 then Some (st3, Return 0)
                   else let (r', m') = AtomicMtx_Unlock cmpset pid (l_mtx (srv_listener st3))
                        in Some (serve_conn builder i fd
                             (st3\<lparr>srv_listener := (srv_listener st3)\<lparr>l_mtx := m'\<rparr>\<rparr>))))"

fun RunTcpSrv :: "cas \<Rightarrow> u64 \<Rightarrow> (u32 \<Rightarrow> ptr) option \<Rightarrow> tcp_round list \<Rightarrow> tcp_srv \<Rightarrow> tcp_srv \<times> srv_result" where
  "RunTcpSrv cmpset pid builder [] st = (st, Next)"
| "RunTcpSrv cmpset pid builder (i # is) st =
     (case tcp_srv_round cmpset pid builder i st of
        None \<Rightarrow> (st, Next)
      | Some (st1, Next) \<Rightarrow> RunTcpSrv cmpset pid builder is st1
      | Some (st1, r) \<Rightarrow> (st1, r))"

text \<open>\<open>TcpSrvWork::Run\<close> ends the process when the loop returns a negative number; it never does.\<close>

definition exits :: "srv_result \<Rightarrow> bool" where
  "exits r \<longleftrightarrow> (case r of Return n \<Rightarrow> n < 0 | _ \<Rightarrow> False)"

section \<open>The datagram server\<close>

record udp_req_info =
  req_sockfd :: u32
  reqpkg :: string
  srcaddr :: "u32 \<times> u16"
  dstaddr :: "u32 \<times> u16"

definition UdpReqWork_Reply :: "(u32 \<Rightarrow> string \<Rightarrow> u32 \<times> u16 \<Rightarrow> int) \<Rightarrow> udp_req_info \<Rightarrow> string \<Rightarrow> int" where
  "UdpReqWork_Reply answer q rsp = sendto (answer (req_sockfd q) rsp (srcaddr q))"

record udp_round =
  ui_now :: u64
  ui_resume :: "frame \<Rightarrow> frame"
  ui_mtx :: "u64 option \<Rightarrow> u64 option"
  ui_recvfrom :: "(char list \<times> (u32 \<times> u16)) answer list"

record udp_srv =
  us_listener :: listener
  us_works :: "(ptr \<times> udp_req_info) list"
  us_errno :: errno
  us_frame :: frame

definition udp_srv_round :: "cas \<Rightarrow> u64 \<Rightarrow> (u32 \<Rightarrow> ptr) option \<Rightarrow> udp_round \<Rightarrow> udp_srv \<Rightarrow> (udp_srv \<times> srv_result) option" where
  "udp_srv_round cmpset pid builder i st =
     (let l = us_listener st; (r, m) = AtomicMtx_TryLock cmpset pid (l_mtx l) in
      if r < 0 then
        Some (st\<lparr>us_frame := ui_resume i (Sleep 500 (ui_now i) (us_frame st)), us_listener := l\<lparr>l_mtx := ui_mtx i m\<rparr>\<rparr>, Next)
      else case recvfrom (listenfd l) 65536 (ui_recvfrom i) (us_errno st) (us_frame st) of
        None \<Rightarrow> None
      | Some (ret, e, d, s) \<Rightarrow>
          (let st1 = st\<lparr>us_errno := e, us_frame := s, us_listener := l\<lparr>l_mtx := ui_mtx i m\<rparr>\<rparr> in
           if ret > 0 then
             (let (r', m') = AtomicMtx_Unlock cmpset pid (l_mtx (us_listener st1));
                  st2 = st1\<lparr>us_listener := l\<lparr>l_mtx := m'\<rparr>\<rparr>;
                  q = \<lparr>req_sockfd = word_of_int (listenfd l),
                       reqpkg = (case d of Some (pkg, _) \<Rightarrow> pkg | None \<Rightarrow> []),
                       srcaddr = (case d of Some (_, a) \<Rightarrow> a | None \<Rightarrow> (0, 0)),
                       dstaddr = (l_ip l, htons (l_port l))\<rparr>
              in case builder of
                   None \<Rightarrow> Some (st2, Next)
                 | Some build \<Rightarrow>
                     (let b = build (ucast (l_port l)) in
                      if b = NULL then Some (st2, Null_Deref)
                      else Some (st2\<lparr>us_works := AList.update b q (us_works st2),
                                     us_frame := snd (CreateThread b (us_frame st2))\<rparr>, Next)))
           else if ret < 0 then Some (st1, Return (-220))
           else Some (st1, Next)))"

fun RunUdpSrv :: "cas \<Rightarrow> u64 \<Rightarrow> (u32 \<Rightarrow> ptr) option \<Rightarrow> udp_round list \<Rightarrow> udp_srv \<Rightarrow> udp_srv \<times> srv_result" where
  "RunUdpSrv cmpset pid builder [] st = (st, Next)"
| "RunUdpSrv cmpset pid builder (i # is) st =
     (case udp_srv_round cmpset pid builder i st of
        None \<Rightarrow> (st, Next)
      | Some (st1, Next) \<Rightarrow> RunUdpSrv cmpset pid builder is st1
      | Some (st1, r) \<Rightarrow> (st1, r))"

text \<open>\<open>TcpSrvWork::Run\<close> and \<open>UdpSrvWork::Run\<close>: the state, how the loop ended, and whether the process exits.\<close>

definition TcpSrvWork_Run :: "cas \<Rightarrow> u64 \<Rightarrow> (u32 \<Rightarrow> ptr) option \<Rightarrow> tcp_round list \<Rightarrow> tcp_srv \<Rightarrow> tcp_srv \<times> srv_result \<times> bool" where
  "TcpSrvWork_Run cmpset pid builder is st = (let (st1, r) = RunTcpSrv cmpset pid builder is st in (st1, r, exits r))"

definition UdpSrvWork_Run :: "cas \<Rightarrow> u64 \<Rightarrow> (u32 \<Rightarrow> ptr) option \<Rightarrow> udp_round list \<Rightarrow> udp_srv \<Rightarrow> udp_srv \<times> srv_result \<times> bool" where
  "UdpSrvWork_Run cmpset pid builder is st = (let (st1, r) = RunUdpSrv cmpset pid builder is st in (st1, r, exits r))"

section \<open>Servers without a server object\<close>

text \<open>
  \<open>while (!t.IsDead()) Frame::Sleep(1000)\<close>, with the time and what the other coroutines do for
  every sleep; \<open>None\<close> while the thread is alive.
\<close>

fun wait_dead :: "ptr \<Rightarrow> (u64 \<times> (frame \<Rightarrow> frame)) list \<Rightarrow> frame \<Rightarrow> frame option" where
  "wait_dead t ks s =
     (if (case threads s t of Some th \<Rightarrow> IsDead th | None \<Rightarrow> False) then Some s
      else case ks of [] \<Rightarrow> None | (now, k) # ks' \<Rightarrow> wait_dead t ks' (k (Sleep 1000 now s)))"

declare wait_dead.simps [simp del]

text \<open>The destructors of \<open>TcpSrvWork\<close> and \<open>UdpSrvWork\<close> delete the listener.\<close>

definition SrvWork_dtor :: "listener \<Rightarrow> int list" where
  "SrvWork_dtor l = Listener_dtor l"

text \<open>
  \<open>TcpSrv\<close> and \<open>UdpSrv\<close>: the result and the descriptors closed.  \<open>w\<close> is the work object.  When the
  thread is dead \<open>HandleProcess\<close> has deleted the work object, and with it the listener; the
  listener is then deleted again.
\<close>

definition TcpSrv :: "listen_sys \<Rightarrow> u32 \<Rightarrow> u16 \<Rightarrow> ptr \<Rightarrow> (u64 \<times> (frame \<Rightarrow> frame)) list \<Rightarrow> frame \<Rightarrow>
    (int \<times> int list \<times> frame) option" where
  "TcpSrv sys ip p w ks s =
     (let (ok, s1) = Frame_Init s in
      if \<not> ok then Some (-233, [], s1)
      else let (r, l) = TcpListener_Listen sys ip p TcpListener_ctor in
        if r < 0 then Some (-236, [], s1)
        else let (t, s2) = CreateThread w s1 in
          case wait_dead t ks s2 of
            None \<Rightarrow> None
          | Some s3 \<Rightarrow> Some (0, SrvWork_dtor l @ Listener_dtor l, snd (Frame_Fini s3)))"

definition UdpSrv :: "listen_sys \<Rightarrow> u32 \<Rightarrow> u16 \<Rightarrow> ptr \<Rightarrow> (u64 \<times> (frame \<Rightarrow> frame)) list \<Rightarrow> frame \<Rightarrow>
    (int \<times> int list \<times> frame) option" where
  "UdpSrv sys ip p w ks s =
     (let (ok, s1) = Frame_Init s in
      if \<not> ok then Some (-250, [], s1)
      else let (r, l) = UdpListener_Listen sys ip p UdpListener_ctor in
        if r < 0 then Some (-252, [], s1)
        else let (t, s2) = CreateThread w s1 in
          case wait_dead t ks s2 of
            None \<Rightarrow> None
          | Some s3 \<Rightarrow> Some (0, SrvWork_dtor l @ Listener_dtor l, snd (Frame_Fini s3)))"

section \<open>Facts about one round\<close>

text \<open>
  What a process may assume of the others: they store neither its process id in the mutex nor
  anything else while it holds the mutex.
\<close>

definition polite :: "u64 \<Rightarrow> (u64 option \<Rightarrow> u64 option) \<Rightarrow> bool" where
  "polite pid k \<longleftrightarrow> k (Some pid) = Some pid \<and> (\<forall>m. m \<noteq> Some pid \<longrightarrow> k m \<noteq> Some pid)"

lemma TryLock_atomic:
  "AtomicMtx_TryLock AtomicCompareAndSet pid m = (if m = Some 0 then (0, Some pid) else (-1, m))"
  by (auto simp: op_defs split: option.splits)

lemma Unlock_atomic:
  "AtomicMtx_Unlock AtomicCompareAndSet pid (Some pid) = (0, Some 0)"
  by (simp add: op_defs)

lemma serve_conn_keeps:
  "serve_conn builder i fd st = (st', r) \<Longrightarrow> srv_listener st' = srv_listener st \<and> accepted st' = accepted st"
  by (auto simp: serve_conn_def Let_def split: if_splits option.splits)

definition tcp_srv_ok :: "u64 \<Rightarrow> tcp_srv \<Rightarrow> bool" where
  "tcp_srv_ok pid st \<longleftrightarrow> l_mtx (srv_listener st) \<noteq> Some pid \<and> 0 \<le> accepted st \<and> accepted st \<le> 16"

lemma sleep_round_ok:
  "polite pid (in_mtx i) \<Longrightarrow> l_mtx (srv_listener st) \<noteq> Some pid \<Longrightarrow>
     l_mtx (srv_listener (sleep_round ms i st)) \<noteq> Some pid \<and> accepted (sleep_round ms i st) = accepted st"
  by (auto simp: sleep_round_def polite_def)

definition accept_fails :: "tcp_round \<Rightarrow> bool" where
  "accept_fails i \<longleftrightarrow> (\<exists>l e0 s0 fd e s. accept l (in_accept i) e0 s0 = Some (fd, e, s) \<and> fd < 0)"

lemma tcp_srv_round_ok:
  assumes "tcp_srv_round AtomicCompareAndSet pid builder i st = Some (st', r)" and "tcp_srv_ok pid st"
    and "polite pid (in_mtx i)" and "pid \<noteq> 0"
  shows "tcp_srv_ok pid st' \<or>
    (r = Return 0 \<and> l_mtx (srv_listener st') = Some pid \<and>
     accept_fails i)"
proof (cases "accepted st > 15 \<or> l_mtx (srv_listener st) \<noteq> Some 0")
  case True
  with assms sleep_round_ok [OF assms(3)] show ?thesis
    by (auto simp: tcp_srv_round_def tcp_srv_ok_def TryLock_atomic Let_def split: if_splits)
next
  case False
  with assms(1) obtain fd e s where a: "accept (listenfd (srv_listener st)) (in_accept i) (srv_errno st) (srv_frame st) = Some (fd, e, s)"
    by (cases "accept (listenfd (srv_listener st)) (in_accept i) (srv_errno st) (srv_frame st)")
       (auto simp: tcp_srv_round_def TryLock_atomic Let_def)
  have p: "in_mtx i (Some pid) = Some pid" using assms(3) by (simp add: polite_def)
  show ?thesis
  proof (cases "fd < 0")
    case True
    with a have "accept_fails i" unfolding accept_fails_def by blast
    with True False a p assms(1) show ?thesis by (auto simp: tcp_srv_round_def TryLock_atomic Let_def)
  next
    case fd: False
    let ?st = "st\<lparr>accepted := accepted st + 1, srv_errno := e, srv_frame := s, ct := map_option (in_ct i) (ct st),
      srv_listener := (srv_listener st)\<lparr>l_mtx := Some 0\<rparr>\<rparr>"
    have "serve_conn builder i fd ?st = (st', r)"
      using False fd a p assms(1) by (simp add: tcp_srv_round_def TryLock_atomic Unlock_atomic Let_def)
    from serve_conn_keeps [OF this] assms(2,4) False show ?thesis by (simp add: tcp_srv_ok_def)
  qed
qed

text \<open>The stream loop never ends with a negative number, so its process never exits this way.\<close>

lemma not_exits_Next [simp]: "\<not> exits Next"
  by (simp add: exits_def)

lemma tcp_srv_round_result: "tcp_srv_round cmpset pid builder i st = Some (st', r) \<Longrightarrow> \<not> exits r"
  by (auto simp: tcp_srv_round_def serve_conn_def exits_def Let_def split: if_splits option.splits prod.splits)

lemma TcpSrvWork_never_exits: "\<not> snd (snd (TcpSrvWork_Run cmpset pid builder is st))"
proof -
  have "\<not> exits (snd (RunTcpSrv cmpset pid builder is st))"
  proof (induction "is" arbitrary: st)
    case (Cons i "is")
    then show ?case
      using tcp_srv_round_result [of cmpset pid builder i st] by (auto split: option.splits srv_result.splits prod.splits)
  qed simp
  then show ?thesis by (auto simp: TcpSrvWork_Run_def split: prod.splits)
qed

text \<open>The datagram loop ends with -220, and the process with it, only when \<open>recvfrom\<close> gives a negative number.\<close>

lemma udp_srv_round_exits:
  assumes "udp_srv_round cmpset pid builder i st = Some (st', r)" and "exits r"
  shows "r = Return (-220) \<and> (\<exists>ret e d s. recvfrom (listenfd (us_listener st)) 65536 (ui_recvfrom i) (us_errno st) (us_frame st) =
    Some (ret, e, d, s) \<and> ret < 0)"
  using assms by (auto simp: udp_srv_round_def exits_def Let_def split: if_splits option.splits prod.splits)

section \<open>Properties\<close>


text \<open>
  An error of \<open>accept\<close> ends the loop with the mutex still locked.  The coroutine returns 0, so
  the process goes on, and from then on no process, this one included, gets the mutex.
\<close>

theorem accept_error_keeps_the_lock:
  assumes "accepted st \<le> 15" and "l_mtx (srv_listener st) = Some 0" and "pid \<noteq> 0" and "polite pid (in_mtx i)"
    and "accept (listenfd (srv_listener st)) (in_accept i) (srv_errno st) (srv_frame st) = Some (fd, e, s)" and "fd < 0"
  shows "\<exists>st'. RunTcpSrv AtomicCompareAndSet pid builder (i # is) st = (st', Return 0) \<and> \<not> exits (Return 0) \<and>
    (\<forall>pid'. AtomicMtx_TryLock AtomicCompareAndSet pid' (l_mtx (srv_listener st')) = (-1, Some pid))"
  using assms by (simp add: tcp_srv_round_def TryLock_atomic polite_def exits_def Let_def)

text \<open>
  C36: without a connection tracker the stream server dereferences a null pointer as soon as it
  has started the coroutine for its first connection; \<open>TcpSrv\<close> runs it without one.
\<close>

theorem RunTcpSrv_needs_a_tracker:
  assumes "ct st = None" and "accepted st \<le> 15" and "l_mtx (srv_listener st) = Some 0" and "polite pid (in_mtx i)"
    and "accept (listenfd (srv_listener st)) (in_accept i) (srv_errno st) (srv_frame st) = Some (fd, e, s)" and "0 \<le> fd"
    and "0 \<le> SetNonBlock (in_getfl i) (in_setfl i)" and "build (ucast (l_port (srv_listener st))) \<noteq> NULL"
  shows "snd (RunTcpSrv AtomicCompareAndSet pid (Some build) (i # is) st) = Null_Deref"
  using assms by (simp add: tcp_srv_round_def serve_conn_def TryLock_atomic Unlock_atomic polite_def Let_def)

lemma udp_locked_out:
  assumes "l_mtx (us_listener st) = Some pid" and "pid \<noteq> 0" and "\<forall>i \<in> set is. polite pid (ui_mtx i)"
  shows "\<exists>st'. RunUdpSrv AtomicCompareAndSet pid builder is st = (st', Next) \<and>
    us_works st' = us_works st \<and> l_mtx (us_listener st') = Some pid"
  using assms
proof (induction "is" arbitrary: st)
  case (Cons i "is")
  let ?st = "st\<lparr>us_frame := ui_resume i (Sleep 500 (ui_now i) (us_frame st)),
    us_listener := (us_listener st)\<lparr>l_mtx := Some pid\<rparr>\<rparr>"
  have "udp_srv_round AtomicCompareAndSet pid builder i st = Some (?st, Next)"
    using Cons.prems by (simp add: udp_srv_round_def TryLock_atomic polite_def Let_def)
  with Cons.IH [of ?st] Cons.prems show ?case by simp
qed simp

text \<open>
  C35: an empty datagram stops the datagram server.  \<open>recvfrom\<close> returns 0, the branch for 0 does
  not unlock, and every later attempt to lock fails: whatever arrives afterwards, no request is
  served and the loop does not end.
\<close>

theorem empty_datagram_stops_RunUdpSrv:
  assumes "l_mtx (us_listener st) = Some 0" and "pid \<noteq> 0" and "\<forall>j \<in> set (i # is). polite pid (ui_mtx j)"
    and "recvfrom (listenfd (us_listener st)) 65536 (ui_recvfrom i) (us_errno st) (us_frame st) = Some (0, e, d, s)"
  shows "\<exists>st'. RunUdpSrv AtomicCompareAndSet pid builder (i # is) st = (st', Next) \<and>
    us_works st' = us_works st \<and> l_mtx (us_listener st') = Some pid"
proof -
  let ?st = "st\<lparr>us_errno := e, us_frame := s, us_listener := (us_listener st)\<lparr>l_mtx := Some pid\<rparr>\<rparr>"
  have "udp_srv_round AtomicCompareAndSet pid builder i st = Some (?st, Next)"
    using assms by (simp add: udp_srv_round_def TryLock_atomic polite_def Let_def)
  moreover obtain st' where "RunUdpSrv AtomicCompareAndSet pid builder is ?st = (st', Next)"
    "us_works st' = us_works st" "l_mtx (us_listener st') = Some pid"
    using udp_locked_out [of ?st pid "is" builder] assms(2,3) by auto
  ultimately show ?thesis by simp
qed

text \<open>Examples: a listener on descriptor 3 and rounds in which nobody interferes.\<close>

definition demo_listener :: listener where
  "demo_listener = TcpListener_ctor\<lparr>listenfd := 3, l_port := 80, l_mtx := Some 0\<rparr>"

definition demo_tcp :: "conn_tracker option \<Rightarrow> tcp_srv" where
  "demo_tcp c = \<lparr>accepted = 0, srv_listener = demo_listener, ct = c, works = [], srv_closed = [],
     srv_errno = EINTR, srv_frame = Frame_static\<rparr>"

definition demo_round :: "nat answer \<Rightarrow> tcp_round" where
  "demo_round a = \<lparr>in_now = 0, in_resume = id, in_mtx = id, in_ct = id, in_accept = [a], in_getfl = 0, in_setfl = \<lambda>_. 0\<rparr>"

lemma polite_id: "polite pid id"
  by (simp add: polite_def)


theorem accept_error_keeps_the_lock_witness:
  "\<exists>st'. RunTcpSrv AtomicCompareAndSet 7 None [demo_round (Err (EOTHER 24))] (demo_tcp (Some ConnTracker_ctor)) = (st', Return 0) \<and>
     AtomicMtx_TryLock AtomicCompareAndSet 8 (l_mtx (srv_listener st')) = (-1, Some 7)"
  using accept_error_keeps_the_lock [of "demo_tcp (Some ConnTracker_ctor)" 7 "demo_round (Err (EOTHER 24))" "-1" "EOTHER 24"
      Frame_static None "[]"]
  by (auto simp: demo_tcp_def demo_listener_def demo_round_def polite_id)

theorem RunTcpSrv_needs_a_tracker_witness:
  "snd (RunTcpSrv AtomicCompareAndSet 7 (Some (\<lambda>_. 9)) [demo_round (Ok 5)] (demo_tcp None)) = Null_Deref"
  using RunTcpSrv_needs_a_tracker [of "demo_tcp None" 7 "demo_round (Ok 5)" 5 EINTR Frame_static "\<lambda>_. 9" "[]"]
  by (simp add: demo_tcp_def demo_listener_def demo_round_def polite_id SetNonBlock_def)

definition demo_udp_round :: "string \<Rightarrow> udp_round" where
  "demo_udp_round d = \<lparr>ui_now = 0, ui_resume = id, ui_mtx = id, ui_recvfrom = [Ok (d, (1, 2))]\<rparr>"

definition demo_udp :: udp_srv where
  "demo_udp = \<lparr>us_listener = demo_listener, us_works = [], us_errno = EINTR, us_frame = Frame_static\<rparr>"

theorem empty_datagram_stops_RunUdpSrv_witness:
  "\<exists>st'. RunUdpSrv AtomicCompareAndSet 7 (Some (\<lambda>_. 9)) [demo_udp_round [], demo_udp_round ''hello''] demo_udp = (st', Next) \<and>
     us_works st' = []"
  using empty_datagram_stops_RunUdpSrv [of demo_udp 7 "demo_udp_round []" "[demo_udp_round ''hello'']" EINTR "Some ([], (1, 2))"
      Frame_static "Some (\<lambda>_. 9)"]
  by (auto simp: demo_udp_def demo_listener_def demo_udp_round_def polite_id)

end
