(* ===== verification/Util_String.thy ===== *)
theory Util_String
  imports Tinyco_Prelude
begin

text \<open>
  util/string.h and util/string.cc: splitting a string at a delimiter and trimming white
  space.  The configuration parser, the RPC route table and the query-string parser are
  the clients.
\<close>

section \<open>Trimming\<close>

text \<open>\<open>std::isspace\<close> in the C locale: blank and the control characters 9 to 13.\<close>

definition isspace :: "char \<Rightarrow> bool" where
  "isspace c \<longleftrightarrow> c \<in> {CHR '' '', CHR 0x09, CHR 0x0A, CHR 0x0B, CHR 0x0C, CHR 0x0D}"

definition ltrim :: "string \<Rightarrow> string" where
  "ltrim s = dropWhile isspace s"

text \<open>
  \<open>find_if\<close> on the reverse iterators gives the last non-blank character; everything
  behind it is erased.
\<close>

definition rtrim :: "string \<Rightarrow> string" where
  "rtrim s = rev (dropWhile isspace (rev s))"

definition trim :: "string \<Rightarrow> string" where
  "trim s = rtrim (ltrim s)"

definition ltrim_copy :: "string \<Rightarrow> string" where
  "ltrim_copy s = ltrim s"

definition rtrim_copy :: "string \<Rightarrow> string" where
  "rtrim_copy s = rtrim s"

definition trim_copy :: "string \<Rightarrow> string" where
  "trim_copy s = trim s"

section \<open>Splitting\<close>

text \<open>
  \<open>std::getline\<close> on the rest of a string stream: \<open>None\<close> when nothing is left (the stream
  fails), otherwise the item and what remains behind the delimiter.
\<close>

definition getline :: "string \<Rightarrow> char \<Rightarrow> (string \<times> string) option" where
  "getline s d =
     (if s = [] then None
      else Some (takeWhile (\<lambda>c. c \<noteq> d) s, drop 1 (dropWhile (\<lambda>c. c \<noteq> d) s)))"

lemma getline_shorter: "getline s d = Some (item, rest) \<Longrightarrow> length rest < length s"
proof -
  assume g: "getline s d = Some (item, rest)"
  then have "s \<noteq> []" and "rest = drop 1 (dropWhile (\<lambda>c. c \<noteq> d) s)"
    by (auto simp: getline_def split: if_splits)
  moreover have "length (dropWhile (\<lambda>c. c \<noteq> d) s) \<le> length s"
    by (rule length_dropWhile_le)
  ultimately show ?thesis
    by (cases s) auto
qed

function split_loop :: "string \<Rightarrow> char \<Rightarrow> string list" where
  "split_loop s d =
     (case getline s d of None \<Rightarrow> [] | Some (item, rest) \<Rightarrow> item # split_loop rest d)"
  by pat_completeness auto
termination
  by (relation "measure (\<lambda>(s, d). length s)") (auto dest: getline_shorter)

declare split_loop.simps [simp del]

definition Split :: "string \<Rightarrow> char \<Rightarrow> string list" where
  "Split s d = (let elems = split_loop s d in if elems = [] then [s] else elems)"

section \<open>Properties\<close>

subsection \<open>Trimming\<close>

lemma rtrim_prefix: "\<exists>w. s = rtrim s @ w \<and> (\<forall>c \<in> set w. isspace c)"
proof -
  have "rev s = takeWhile isspace (rev s) @ dropWhile isspace (rev s)" by simp
  then have "s = rtrim s @ rev (takeWhile isspace (rev s))"
    by (metis rev_append rev_rev_ident rtrim_def)
  moreover have "\<forall>c \<in> set (rev (takeWhile isspace (rev s))). isspace c"
    by (auto dest: set_takeWhileD)
  ultimately show ?thesis by blast
qed

lemma rtrim_last: "rtrim s \<noteq> [] \<Longrightarrow> \<not> isspace (last (rtrim s))"
  by (simp add: rtrim_def last_rev hd_dropWhile)

lemma ltrim_hd: "ltrim s \<noteq> [] \<Longrightarrow> \<not> isspace (hd (ltrim s))"
  by (simp add: ltrim_def hd_dropWhile)

lemma ltrim_suffix: "\<exists>w. s = w @ ltrim s \<and> (\<forall>c \<in> set w. isspace c)"
  by (intro exI [of _ "takeWhile isspace s"]) (auto simp: ltrim_def dest: set_takeWhileD)

lemma hd_rtrim: "rtrim s \<noteq> [] \<Longrightarrow> hd (rtrim s) = hd s"
  using rtrim_prefix [of s] by (metis hd_append2)

text \<open>
  What is left is the input without a blank prefix and a blank suffix, and it
  neither starts nor ends with a blank.
\<close>

lemma trim_spec:
  "\<exists>pre post. s = pre @ trim s @ post \<and> (\<forall>c \<in> set pre \<union> set post. isspace c) \<and>
     (trim s \<noteq> [] \<longrightarrow> \<not> isspace (hd (trim s)) \<and> \<not> isspace (last (trim s)))"
proof -
  obtain pre where pre: "s = pre @ ltrim s" "\<forall>c \<in> set pre. isspace c"
    using ltrim_suffix by blast
  obtain post where post: "ltrim s = trim s @ post" "\<forall>c \<in> set post. isspace c"
    using rtrim_prefix [of "ltrim s"] by (auto simp: trim_def)
  have ends: "\<not> isspace (hd (trim s)) \<and> \<not> isspace (last (trim s))" if "trim s \<noteq> []"
  proof -
    from that have "ltrim s \<noteq> []" by (auto simp: trim_def rtrim_def)
    with that show ?thesis
      using hd_rtrim [of "ltrim s"] rtrim_last [of "ltrim s"] ltrim_hd [of s]
      by (simp add: trim_def)
  qed
  have split: "s = pre @ trim s @ post" using pre(1) post(1) by metis
  have "\<forall>c \<in> set pre \<union> set post. isspace c" using pre(2) post(2) by auto
  with split ends show ?thesis by (intro exI [of _ pre] exI [of _ post]) simp
qed

lemma trim_id:
  assumes "s \<noteq> [] \<Longrightarrow> \<not> isspace (hd s) \<and> \<not> isspace (last s)"
  shows "trim s = s"
proof (cases s)
  case Nil
  then show ?thesis by (simp add: trim_def ltrim_def rtrim_def)
next
  case (Cons c cs)
  with assms have l: "ltrim s = s" by (simp add: ltrim_def)
  from assms Cons have "\<not> isspace (hd (rev s))" by (simp only: hd_rev) simp
  then have "dropWhile isspace (rev s) = rev s"
    using Cons by (cases "rev s") auto
  then show ?thesis by (simp add: trim_def l rtrim_def)
qed

lemma trim_idem: "trim (trim s) = trim s"
  using trim_spec [of s] by (intro trim_id) auto

subsection \<open>Splitting\<close>

text \<open>The inverse of splitting: the items with the delimiter between them.\<close>

fun join :: "char \<Rightarrow> string list \<Rightarrow> string" where
  "join d [] = []"
| "join d [x] = x"
| "join d (x # y # xs) = x @ d # join d (y # xs)"

lemma join_Cons: "xs \<noteq> [] \<Longrightarrow> join d (x # xs) = x @ d # join d xs"
  by (cases xs) auto

lemma getline_cases:
  assumes "s \<noteq> []"
  obtains (whole) "d \<notin> set s" "getline s d = Some (s, [])"
  | (item) item rest where "s = item @ d # rest" "d \<notin> set item" "getline s d = Some (item, rest)"
proof (cases "d \<in> set s")
  case True
  then obtain item rest where s: "s = item @ d # rest" "d \<notin> set item"
    by (meson split_list_first)
  then have "takeWhile (\<lambda>c. c \<noteq> d) s = item" "dropWhile (\<lambda>c. c \<noteq> d) s = d # rest"
    by (auto simp: takeWhile_append dropWhile_append)
  with s assms item show ?thesis by (simp add: getline_def)
next
  case False
  then have "takeWhile (\<lambda>c. c \<noteq> d) s = s" "dropWhile (\<lambda>c. c \<noteq> d) s = []"
    by (auto simp: takeWhile_eq_all_conv)
  with False assms whole show ?thesis by (simp add: getline_def)
qed

lemma getline_item: "d \<notin> set item \<Longrightarrow> getline (item @ d # rest) d = Some (item, rest)"
  by (auto simp: getline_def takeWhile_append dropWhile_append)

lemma split_loop_Nil: "split_loop [] d = []"
  by (simp add: split_loop.simps getline_def)

lemma split_loop_item: "d \<notin> set item \<Longrightarrow> split_loop (item @ d # rest) d = item # split_loop rest d"
  by (simp add: split_loop.simps [of "item @ d # rest"] getline_item)

lemma getline_whole: "s \<noteq> [] \<Longrightarrow> d \<notin> set s \<Longrightarrow> getline s d = Some (s, [])"
  by (cases rule: getline_cases [of s d]) auto

lemma split_loop_whole: "s \<noteq> [] \<Longrightarrow> d \<notin> set s \<Longrightarrow> split_loop s d = [s]"
  by (subst split_loop.simps) (simp add: getline_whole split_loop_Nil)

lemma split_loop_nonempty: "s \<noteq> [] \<Longrightarrow> split_loop s d \<noteq> []"
  by (subst split_loop.simps) (auto simp: getline_def)

lemma split_loop_free: "x \<in> set (split_loop s d) \<Longrightarrow> d \<notin> set x"
proof (induction s d rule: split_loop.induct)
  case (1 s d)
  show ?case
  proof (cases "s = []")
    case True
    with "1.prems" show ?thesis by (simp add: split_loop_Nil)
  next
    case False
    then show ?thesis
      by (cases rule: getline_cases [of s d])
         (use "1" False in \<open>auto simp: split_loop_whole split_loop_item\<close>)
  qed
qed

lemma join_split_loop:
  "s \<noteq> [] \<Longrightarrow> join d (split_loop s d) = (if last s = d then butlast s else s)"
proof (induction s d rule: split_loop.induct)
  case (1 s d)
  from "1.prems" show ?case
  proof (cases rule: getline_cases [of s d])
    case whole
    with "1.prems" show ?thesis by (auto simp: split_loop_whole)
  next
    case (item item rest)
    show ?thesis
    proof (cases "rest = []")
      case True
      with item show ?thesis by (simp add: split_loop_item split_loop_Nil)
    next
      case False
      with "1.IH" item have "join d (split_loop rest d) = (if last rest = d then butlast rest else rest)"
        by simp
      with False item split_loop_nonempty [OF False, of d] show ?thesis
        by (auto simp: split_loop_item join_Cons butlast_append)
    qed
  qed
qed

lemma split_loop_join:
  "xs \<noteq> [] \<Longrightarrow> last xs \<noteq> [] \<Longrightarrow> (\<And>x. x \<in> set xs \<Longrightarrow> d \<notin> set x) \<Longrightarrow> split_loop (join d xs) d = xs"
proof (induction xs rule: list_nonempty_induct)
  case (single x)
  then show ?case by (simp add: split_loop_whole)
next
  case (cons x xs)
  then show ?case by (auto simp: join_Cons split_loop_item)
qed

lemma Split_nonempty: "Split s d \<noteq> []"
  by (simp add: Split_def Let_def)

lemma Split_free: "x \<in> set (Split s d) \<Longrightarrow> d \<notin> set x"
  by (cases "s = []")
     (auto simp: Split_def Let_def split_loop_Nil split_loop_nonempty dest: split_loop_free)

lemma Split_join:
  assumes "xs \<noteq> []" and "\<And>x. x \<in> set xs \<Longrightarrow> d \<notin> set x" and "last xs \<noteq> []"
  shows "Split (join d xs) d = xs"
  using split_loop_join [OF assms(1,3,2)] assms(1) by (simp add: Split_def Let_def)

lemma join_Split: "join d (Split s d) = (if s \<noteq> [] \<and> last s = d then butlast s else s)"
  by (cases "s = []")
     (auto simp: Split_def Let_def split_loop_Nil split_loop_nonempty join_split_loop)

section \<open>Numbers\<close>

text \<open>The decimal text of a number, as the output streams and \<open>std::to_string\<close> write it.\<close>

definition digit :: "nat \<Rightarrow> char" where
  "digit n = char_of (48 + n)"

fun nat_to_string :: "nat \<Rightarrow> string" where
  "nat_to_string n = (if n < 10 then [digit n] else nat_to_string (n div 10) @ [digit (n mod 10)])"

declare nat_to_string.simps [simp del]

definition int_to_string :: "int \<Rightarrow> string" where
  "int_to_string i = (if i < 0 then CHR ''-'' # nat_to_string (nat (- i)) else nat_to_string (nat i))"

text \<open>\<open>std::stoul\<close> and \<open>std::atoi\<close> read the digits in front.\<close>

definition isdigit :: "char \<Rightarrow> bool" where
  "isdigit c \<longleftrightarrow> 48 \<le> (of_char c :: nat) \<and> (of_char c :: nat) \<le> 57"

definition digits_value :: "string \<Rightarrow> nat" where
  "digits_value s = foldl (\<lambda>v c. 10 * v + (of_char c - 48)) 0 s"

text \<open>
  \<open>std::stoul\<close>: white space, a sign and digits; \<open>None\<close> when it throws, because there is no
  digit or the value does not fit 64 bits.  A minus sign negates modulo \<open>2^64\<close>.
\<close>

definition stoul :: "string \<Rightarrow> u64 option" where
  "stoul s =
     (let s1 = dropWhile isspace s;
          neg = (s1 \<noteq> [] \<and> hd s1 = CHR ''-'');
          s2 = (if s1 \<noteq> [] \<and> (hd s1 = CHR ''-'' \<or> hd s1 = CHR ''+'') then tl s1 else s1);
          ds = takeWhile isdigit s2;
          v = digits_value ds
      in if ds = [] \<or> v \<ge> 2^64 then None
         else Some (if neg then - word_of_nat v else word_of_nat v))"

lemma of_char_digit: "n < 10 \<Longrightarrow> (of_char (digit n) :: nat) = 48 + n"
  by (simp add: digit_def)

lemma isdigit_digit: "n < 10 \<Longrightarrow> isdigit (digit n)"
  by (simp add: isdigit_def of_char_digit)

lemma digits_value_append: "digits_value (s @ [digit n]) = 10 * digits_value s + n" if "n < 10"
  using that by (simp add: digits_value_def of_char_digit)

lemma nat_to_string_digits: "nat_to_string n \<noteq> [] \<and> (\<forall>c \<in> set (nat_to_string n). isdigit c)"
proof (induction n rule: nat_to_string.induct)
  case (1 n)
  then show ?case by (subst (1 2) nat_to_string.simps) (auto simp: isdigit_digit)
qed

lemma digits_value_nat_to_string: "digits_value (nat_to_string n) = n"
proof (induction n rule: nat_to_string.induct)
  case (1 n)
  show ?case
  proof (cases "n < 10")
    case True
    then show ?thesis by (simp add: nat_to_string.simps [of n] digits_value_def of_char_digit)
  next
    case False
    with 1 show ?thesis by (simp add: nat_to_string.simps [of n] digits_value_append)
  qed
qed

lemma isdigit_not_space: "isdigit c \<Longrightarrow> \<not> isspace c \<and> c \<noteq> CHR ''-'' \<and> c \<noteq> CHR ''+''"
  by (auto simp: isdigit_def isspace_def)

section \<open>Round trips\<close>

text \<open>
  Splitting and joining are inverse.  The items of \<open>Split\<close> are never empty as a list,
  contain no delimiter, and with delimiters between them give the input back, but for one
  trailing delimiter; and a list of items of which the last is not empty is split into
  itself.
\<close>

theorem Split_roundtrip:
  assumes "xs \<noteq> []" and "\<forall>x \<in> set xs. d \<notin> set x" and "last xs \<noteq> []"
  shows "Split (join d xs) d = xs \<and> Split s d \<noteq> [] \<and> (\<forall>x \<in> set (Split s d). d \<notin> set x) \<and>
    join d (Split s d) = (if s \<noteq> [] \<and> last s = d then butlast s else s)"
  using assms Split_join [of xs d] Split_nonempty Split_free join_Split by auto

theorem Split_roundtrip_witness:
  "Split (join CHR '','' [''a'', '''', ''b'']) CHR '','' = [''a'', '''', ''b'']"
  using Split_roundtrip [of "[''a'', '''', ''b'']" "CHR '',''" "[]"] by simp

text \<open>
  \<open>trim\<close> removes white space at both ends and nothing else, and trimming twice is
  trimming once; the copying versions give the same result.
\<close>

theorem trim_correct:
  "(\<exists>pre post. s = pre @ trim s @ post \<and> set (pre @ post) \<subseteq> Collect isspace) \<and>
   (trim s = [] \<or> \<not> isspace (hd (trim s)) \<and> \<not> isspace (last (trim s))) \<and>
   trim (trim s) = trim s \<and> trim_copy s = trim s"
proof -
  obtain pre post where "s = pre @ trim s @ post" "\<forall>c \<in> set pre \<union> set post. isspace c"
    "trim s \<noteq> [] \<longrightarrow> \<not> isspace (hd (trim s)) \<and> \<not> isspace (last (trim s))"
    using trim_spec [of s] by metis
  moreover from this(2) have "set (pre @ post) \<subseteq> Collect isspace" by auto
  ultimately show ?thesis using trim_idem [of s] unfolding trim_copy_def by metis
qed

end
