(* ===== verification/Server_Impl.thy ===== *)
theory Server_Impl
  imports Server_Work Util_String
begin

text \<open>
  server.cc: \<open>ServerImpl\<close>, the master and worker processes, and its configuration.  jsoncpp,
  protobuf and the system are parameters: a parsed configuration is what \<open>isMember\<close> and
  \<open>[proto][i]["listen"].asString()\<close> return, a service is what \<open>FindMethodByName\<close> returns, and the
  answers of \<open>fork\<close>, \<open>waitpid\<close> and the socket calls are arguments.  Signal masks and process
  titles have no effect on the modelled state.
\<close>

section \<open>State\<close>

datatype work_mode = WM_UNKNOWN | WM_MASTER | WM_WORKER

type_synonym json_config = "string \<Rightarrow> string list option"

record method_descriptor =
  service :: ptr
  md_method :: string
  full_name :: string

record worker =
  worker_name :: string
  worker_pid :: int

text \<open>\<open>listeners_\<close> is a set of pointers; the order of the list stands for the order of its addresses.\<close>

record server_impl =
  sig_read_fd :: int
  sig_write_fd :: int
  config :: json_config
  listeners :: "listener list"
  worker_processes :: "worker list"
  mode :: work_mode
  restart_worker_pid :: "int list"
  method_map :: "(string \<times> method_descriptor) list"
  tracker :: conn_tracker

definition ServerImpl_ctor :: server_impl where
  "ServerImpl_ctor = \<lparr>sig_read_fd = -1, sig_write_fd = -1, config = (\<lambda>_. None), listeners = [], worker_processes = [],
     mode = WM_UNKNOWN, restart_worker_pid = [], method_map = [], tracker = ConnTracker_ctor\<rparr>"

definition ServerImpl_dtor :: "frame \<Rightarrow> frame" where
  "ServerImpl_dtor s = snd (Frame_Fini s)"

section \<open>Services\<close>

text \<open>The loop of \<open>AddRpcService\<close>; an early return leaves the entries made before it.\<close>

fun add_methods :: "ptr \<Rightarrow> (string \<Rightarrow> string option) \<Rightarrow> string list \<Rightarrow> (string \<times> method_descriptor) list \<Rightarrow>
    bool \<times> (string \<times> method_descriptor) list" where
  "add_methods svc desc [] mm = (True, mm)"
| "add_methods svc desc (m # ms) mm =
     (let path_to_method = Split m CHR ''>'' in
      if length path_to_method \<noteq> 2 then (False, mm)
      else let p = trim (path_to_method ! 0); name = trim (path_to_method ! 1) in
        case desc name of
          None \<Rightarrow> (False, mm)
        | Some full \<Rightarrow>
            add_methods svc desc ms
              (AList.update p \<lparr>service = svc, md_method = name, full_name = full\<rparr> mm))"

definition AddRpcService :: "ptr \<Rightarrow> (string \<Rightarrow> string option) \<Rightarrow> string \<Rightarrow> server_impl \<Rightarrow> bool \<times> server_impl" where
  "AddRpcService svc desc restful_mappings srv =
     (let (ok, mm) = add_methods svc desc (Split restful_mappings CHR '','') (method_map srv)
      in (ok, srv\<lparr>method_map := mm\<rparr>))"

section \<open>Configuration\<close>

definition isMember :: "string \<Rightarrow> json_config \<Rightarrow> bool" where
  "isMember key c \<longleftrightarrow> c key \<noteq> None"

definition ParseConfig :: "(string \<Rightarrow> json_config option) \<Rightarrow> string \<Rightarrow> server_impl \<Rightarrow> bool \<times> server_impl" where
  "ParseConfig parse config_data srv =
     (case parse config_data of
        None \<Rightarrow> (False, srv)
      | Some c \<Rightarrow>
          (\<not> (\<not> isMember ''udp'' c \<and> isMember ''tcp'' c \<and> \<not> isMember ''http'' c), srv\<lparr>config := c\<rparr>))"

text \<open>
  \<open>GetEthAddr\<close>: \<open>ioctl\<close> gives the address that stands in the request for an interface name after
  the call, whether the call failed or not; the name is cut to 15 characters.
\<close>

definition GetEthAddr :: "(string \<Rightarrow> u32) \<Rightarrow> string \<Rightarrow> bool \<times> u32" where
  "GetEthAddr ioctl eth = (True, ioctl (take 15 eth))"

definition atoi :: "string \<Rightarrow> int" where
  "atoi s =
     (let t = dropWhile isspace s; num = (\<lambda>u. int (digits_value (takeWhile isdigit u))) in
      if t \<noteq> [] \<and> hd t = CHR ''-'' then - num (tl t)
      else if t \<noteq> [] \<and> hd t = CHR ''+'' then num (tl t)
      else num t)"

record listen_item =
  li_proto :: string
  li_ip :: u32
  li_port :: u16

definition ListenItem_Parse :: "(string \<Rightarrow> u32) \<Rightarrow> string \<Rightarrow> string \<Rightarrow> listen_item \<Rightarrow> bool \<times> listen_item" where
  "ListenItem_Parse ioctl pr listen_config li =
     (let items = Split listen_config CHR '':'' in
      if length items \<noteq> 2 then (False, li)
      else let li1 = li\<lparr>li_proto := pr\<rparr>; (ok, ip) = GetEthAddr ioctl (items ! 0) in
        if \<not> ok then (False, li1)
        else (True, li1\<lparr>li_ip := ip, li_port := word_of_int (atoi (items ! 1))\<rparr>))"

text \<open>The loop of \<open>InitListener\<close>; \<open>sys i\<close> answers the system calls of round \<open>i\<close>.\<close>

fun init_items :: "(string \<Rightarrow> u32) \<Rightarrow> (nat \<Rightarrow> listen_sys) \<Rightarrow> string \<Rightarrow> nat \<Rightarrow> string list \<Rightarrow> listen_item \<Rightarrow> listener list \<Rightarrow>
    int \<times> listener list" where
  "init_items ioctl sys pr i [] li ls = (0, ls)"
| "init_items ioctl sys pr i (c # cs) li ls =
     (let (ok, li1) = ListenItem_Parse ioctl pr c li in
      if \<not> ok then (-282, ls)
      else if pr = ''tcp'' then
        (let (r, l) = TcpListener_Listen (sys i) (li_ip li1) (li_port li1) TcpListener_ctor in
         if r < 0 then (-277, ls) else init_items ioctl sys pr (i + 1) cs li1 (ls @ [l]))
      else if pr = ''udp'' then
        (let (r, l) = UdpListener_Listen (sys i) (li_ip li1) (li_port li1) UdpListener_ctor in
         if r < 0 then (-277, ls) else init_items ioctl sys pr (i + 1) cs li1 (ls @ [l]))
      else init_items ioctl sys pr (i + 1) cs li1 ls)"

definition InitListener :: "(string \<Rightarrow> u32) \<Rightarrow> (nat \<Rightarrow> listen_sys) \<Rightarrow> string \<Rightarrow> server_impl \<Rightarrow> int \<times> server_impl" where
  "InitListener ioctl sys pr srv =
     (case config srv pr of
        None \<Rightarrow> (0, srv)
      | Some cs \<Rightarrow>
          (let (r, ls) = init_items ioctl sys pr 0 cs \<lparr>li_proto = [], li_ip = 0, li_port = 0\<rparr> (listeners srv)
           in (r, srv\<lparr>listeners := ls\<rparr>)))"

text \<open>
  \<open>Daemonize\<close>: \<open>None\<close> for the process that exits, which is the parent and also a process whose
  \<open>fork\<close> failed; otherwise what is done to the descriptors.
\<close>

datatype fd_op = Dup2 int int | Close int

definition Daemonize :: "int \<Rightarrow> int \<Rightarrow> fd_op list option" where
  "Daemonize forked fd =
     (if forked \<noteq> 0 then None
      else Some (if fd \<noteq> -1 then [Dup2 fd 0, Dup2 fd 1, Dup2 fd 2] @ (if fd > 2 then [Close fd] else []) else []))"

record init_sys =
  is_ioctl :: "string \<Rightarrow> u32"
  is_tcp :: "nat \<Rightarrow> listen_sys"
  is_udp :: "nat \<Rightarrow> listen_sys"
  is_daemon_fork :: int
  is_devnull :: int

definition InitSrv :: "init_sys \<Rightarrow> server_impl \<Rightarrow> (int \<times> server_impl) option" where
  "InitSrv sys srv =
     (let (r, srv1) = InitListener (is_ioctl sys) (is_tcp sys) ''tcp'' srv in
      if r < 0 then Some (-293, srv1)
      else let (r', srv2) = InitListener (is_ioctl sys) (is_udp sys) ''udp'' srv1 in
        if r' < 0 then Some (-297, srv2)
        else case Daemonize (is_daemon_fork sys) (is_devnull sys) of None \<Rightarrow> None | Some _ \<Rightarrow> Some (0, srv2))"

section \<open>Signals\<close>

definition SIGHUP :: int where
  "SIGHUP = 1"

definition SIGCHLD :: int where
  "SIGCHLD = 17"

text \<open>The four bytes of a C int in memory, and back.\<close>

definition int_bytes :: "u32 \<Rightarrow> string" where
  "int_bytes w = map (\<lambda>i. char_of (unat (drop_bit (8 * i) w) mod 256)) [0, 1, 2, 3]"

definition bytes_int :: "string \<Rightarrow> u32" where
  "bytes_int bs = foldr (\<lambda>c w. push_bit 8 w OR word_of_nat (of_char c)) bs 0"

text \<open>
  \<open>GetWorkerStatus\<close> with the answers of \<open>waitpid\<close>, each with the \<open>errno\<close> after it; \<open>None\<close> when
  they end before the loop does.
\<close>

fun GetWorkerStatus :: "(int \<times> errno) list \<Rightarrow> server_impl \<Rightarrow> server_impl option" where
  "GetWorkerStatus [] srv = None"
| "GetWorkerStatus ((pid, e) # as) srv =
     (if pid = 0 then Some srv
      else if pid = -1 then (if e = EINTR then GetWorkerStatus as srv else Some srv)
      else let restart_pid = (if \<exists>w \<in> set (worker_processes srv). worker_pid w = pid then pid else 0)
           in Some (srv\<lparr>restart_worker_pid := restart_worker_pid srv @ [restart_pid]\<rparr>))"

definition SignalCallback :: "(int \<times> errno) list \<Rightarrow> int \<Rightarrow> server_impl \<Rightarrow> server_impl option" where
  "SignalCallback waits signo srv =
     (case mode srv of
        WM_MASTER \<Rightarrow> if signo = SIGCHLD then GetWorkerStatus waits srv else Some srv
      | WM_WORKER \<Rightarrow>
          Some (if signo = SIGHUP then srv\<lparr>tracker := (tracker srv)\<lparr>graceful_shutdown := True\<rparr>\<rparr> else srv)
      | WM_UNKNOWN \<Rightarrow> Some srv)"

text \<open>\<open>SignalHelper::AllInOneCallback\<close>, the handler of all signals.\<close>

definition AllInOneCallback :: "u32 \<Rightarrow> nat answer list \<Rightarrow> errno \<Rightarrow> frame \<Rightarrow> server_impl \<Rightarrow>
    (int \<times> errno \<times> char list \<times> frame) option" where
  "AllInOneCallback sig w e s srv = send (sig_write_fd srv) (int_bytes sig) w e s"

text \<open>
  One round of \<open>SignalHelper::Run\<close>: \<open>None\<close> when it has not ended, otherwise whether the loop goes
  on, and the state.  Bytes that have not arrived are zero.
\<close>

definition signal_round :: "char list answer list \<Rightarrow> (int \<times> errno) list \<Rightarrow> errno \<Rightarrow> frame \<Rightarrow> server_impl \<Rightarrow>
    (bool \<times> errno \<times> frame \<times> server_impl) option" where
  "signal_round w waits e s srv =
     (case recv (sig_read_fd srv) 4 w e s of
        None \<Rightarrow> None
      | Some (ret, e1, d, s1) \<Rightarrow>
          if ret < 0 then Some (False, e1, s1, srv)
          else map_option (\<lambda>srv1. (True, e1, s1, srv1))
                 (SignalCallback waits (sint (bytes_int (d @ replicate (4 - length d) (CHR 0x00)))) srv))"

text \<open>\<open>InitSigAction\<close>: \<open>None\<close> when \<open>socketpair\<close> fails and the process exits.\<close>

definition InitSigAction :: "(int \<times> int) option \<Rightarrow> ptr \<Rightarrow> frame \<Rightarrow> server_impl \<Rightarrow> (int \<times> frame \<times> server_impl) option" where
  "InitSigAction sockpair helper s srv =
     (case sockpair of
        None \<Rightarrow> None
      | Some (r, w) \<Rightarrow>
          Some (0, snd (CreateThread helper s), srv\<lparr>sig_read_fd := r, sig_write_fd := w\<rparr>))"

section \<open>Workers\<close>

datatype srv_work = Tcp_Srv_Work listener | Udp_Srv_Work listener

fun worker_works :: "listener list \<Rightarrow> srv_work list" where
  "worker_works [] = []"
| "worker_works (l # ls) =
     (if proto l = ''tcp'' then [Tcp_Srv_Work l] else if proto l = ''udp'' then [Udp_Srv_Work l] else []) @ worker_works ls"

text \<open>
  \<open>WorkerRun\<close>: the coroutines it starts, at the addresses \<open>addrs\<close>, and its loop, with the time, what
  the other coroutines do to the framework and what they do to the server in each round.
\<close>

fun worker_loop :: "(u64 \<times> (frame \<Rightarrow> frame) \<times> (server_impl \<Rightarrow> server_impl)) list \<Rightarrow> frame \<Rightarrow> server_impl \<Rightarrow>
    (frame \<times> server_impl) option" where
  "worker_loop [] s srv = None"
| "worker_loop ((now, k, h) # is) s srv =
     (let s1 = k (Sleep 1000 now s); srv1 = h srv in
      if graceful_shutdown (tracker srv1) \<and> GetConnSize (tracker srv1) = 0 then Some (s1, srv1)
      else worker_loop is s1 srv1)"

definition WorkerRun :: "(srv_work \<Rightarrow> ptr) \<Rightarrow> (u64 \<times> (frame \<Rightarrow> frame) \<times> (server_impl \<Rightarrow> server_impl)) list \<Rightarrow> frame \<Rightarrow>
    server_impl \<Rightarrow> (frame \<times> server_impl) option" where
  "WorkerRun addr is s srv =
     worker_loop is (fold (\<lambda>w s. snd (CreateThread (addr w) s)) (worker_works (listeners srv)) s) srv"

section \<open>The master\<close>

text \<open>The pointer \<open>w\<close> is the last entry with the process id; \<open>None\<close> when it stays null.\<close>

fun replace_pid :: "int \<Rightarrow> int \<Rightarrow> worker list \<Rightarrow> worker list option" where
  "replace_pid old new [] = None"
| "replace_pid old new (w # ws) =
     (case replace_pid old new ws of
        Some ws' \<Rightarrow> Some (w # ws')
      | None \<Rightarrow> if worker_pid w = old then Some (w\<lparr>worker_pid := new\<rparr> # ws) else None)"

text \<open>How the loop over the pids ends: normally, in the child of a \<open>fork\<close>, or at a null pointer.\<close>

datatype master_result = All_Done | In_Child | Crash

definition forced_unlock :: "int \<Rightarrow> listener \<Rightarrow> listener" where
  "forced_unlock pid l =
     (case AtomicMtx_ForcedUnlockIfNeed (word_of_int pid) (l_mtx l) of
        Some (_, m) \<Rightarrow> l\<lparr>l_mtx := m\<rparr>
      | None \<Rightarrow> l)"

text \<open>The loop over \<open>restart_worker_pid_\<close>, with the answer of \<open>fork\<close> for each entry.\<close>

fun restart_loop :: "(int \<times> int) list \<Rightarrow> server_impl \<Rightarrow> server_impl \<times> master_result" where
  "restart_loop [] srv = (srv, All_Done)"
| "restart_loop ((pid, forked) # ps) srv =
     (if \<exists>l \<in> set (listeners srv). l_mtx l = None then (srv, Crash)
      else let srv1 = srv\<lparr>listeners := map (forced_unlock pid) (listeners srv)\<rparr> in
        if forked = 0 then (srv1, In_Child)
        else if forked > 0 then
          (case replace_pid pid forked (worker_processes srv1) of
             None \<Rightarrow> (srv1, Crash)
           | Some ws \<Rightarrow> restart_loop ps (srv1\<lparr>worker_processes := ws\<rparr>))
        else restart_loop ps srv1)"

text \<open>One round of \<open>MasterRun\<close> after its sleep, with an answer of \<open>fork\<close> for every entry.\<close>

definition master_round :: "int list \<Rightarrow> server_impl \<Rightarrow> server_impl \<times> master_result" where
  "master_round forks srv =
     (case restart_loop (zip (restart_worker_pid srv) forks) srv of
        (srv1, All_Done) \<Rightarrow> (srv1\<lparr>restart_worker_pid := []\<rparr>, All_Done)
      | (srv1, r) \<Rightarrow> (srv1, r))"

text \<open>
  \<open>MasterRun\<close>: in each round the time, what the other coroutines do to the framework and to the
  server during the sleep, and the answers of \<open>fork\<close>.  It ends in a child, which goes on with
  \<open>WorkerRun\<close>, or at a null pointer.
\<close>

fun MasterRun :: "(u64 \<times> (frame \<Rightarrow> frame) \<times> (server_impl \<Rightarrow> server_impl) \<times> int list) list \<Rightarrow> frame \<Rightarrow> server_impl \<Rightarrow>
    frame \<times> server_impl \<times> master_result" where
  "MasterRun [] s srv = (s, srv, All_Done)"
| "MasterRun ((now, k, h, forks) # is) s srv =
     (let s1 = k (Sleep 1000 now s) in
      case master_round forks (h srv) of
        (srv1, All_Done) \<Rightarrow> MasterRun is s1 srv1
      | (srv1, r) \<Rightarrow> (s1, srv1, r))"

definition FreeAllListener :: "server_impl \<Rightarrow> int list" where
  "FreeAllListener srv = concat (map Listener_Destroy (listeners srv))"

section \<open>Starting\<close>

text \<open>The loop that forks the workers; \<open>f i\<close> is what \<open>fork\<close> returns in round \<open>i\<close>.\<close>

fun fork_workers :: "(nat \<Rightarrow> int) \<Rightarrow> nat \<Rightarrow> nat \<Rightarrow> int \<Rightarrow> worker list \<Rightarrow> int \<times> worker list" where
  "fork_workers f i 0 childpid ws = (childpid, ws)"
| "fork_workers f i (Suc n) childpid ws =
     (if f i = 0 then (0, ws)
      else if f i < 0 then (f i, ws)
      else fork_workers f (i + 1) n (f i) (ws @ [\<lparr>worker_name = ''tinyco: worker'', worker_pid = f i\<rparr>]))"

record boot_sys =
  b_log :: int
  b_parse :: "string \<Rightarrow> json_config option"
  b_data :: string
  b_sockpair :: "(int \<times> int) option"
  b_helper :: ptr
  b_init :: init_sys
  b_nprocs :: int
  b_fork :: "nat \<Rightarrow> int"

definition worker_num :: "boot_sys \<Rightarrow> nat" where
  "worker_num b = nat (if b_nprocs b > 0 then b_nprocs b else 1)"

text \<open>\<open>Initialize\<close>: \<open>None\<close> when the process exits in \<open>InitSigAction\<close> or \<open>Daemonize\<close>.\<close>

definition Initialize :: "boot_sys \<Rightarrow> frame \<Rightarrow> server_impl \<Rightarrow> (int \<times> frame \<times> server_impl) option" where
  "Initialize b s srv =
     (if b_log b < 0 then Some (-83, s, srv)
      else let (ok, s1) = Frame_Init s in
        if \<not> ok then Some (-88, s1, srv)
        else let (ok', srv1) = ParseConfig (b_parse b) (b_data b) srv in
          if \<not> ok' then Some (-93, s1, srv1)
          else case InitSigAction (b_sockpair b) (b_helper b) s1 srv1 of
            None \<Rightarrow> None
          | Some (r, s2, srv2) \<Rightarrow>
              if r < 0 then Some (-98, s2, srv2)
              else (case InitSrv (b_init b) srv2 of
                None \<Rightarrow> None
              | Some (r', srv3) \<Rightarrow>
                  if r' < 0 then Some (-103, s2, srv3)
                  else let (childpid, ws) = fork_workers (b_fork b) 0 (worker_num b) 0 (worker_processes srv3);
                           srv4 = srv3\<lparr>worker_processes := ws\<rparr>
                       in if childpid < 0 then Some (-115, s2, srv4)
                          else if childpid = 0 then Some (0, s2, srv4\<lparr>mode := WM_WORKER\<rparr>)
                          else Some (0, s2, srv4\<lparr>mode := WM_MASTER\<rparr>)))"

text \<open>
  \<open>Run\<close> up to the point where it enters one of the two loops: the result of an unknown mode, or
  the mode whose loop it enters.
\<close>

definition Server_Run :: "frame \<Rightarrow> server_impl \<Rightarrow> frame \<times> (int + work_mode)" where
  "Server_Run s srv =
     (let s1 = InitHereAsNewThread s in
      if mode srv = WM_MASTER then (s1, Inr WM_MASTER)
      else if mode srv = WM_WORKER then (s1, Inr WM_WORKER)
      else (s1, Inl (-314)))"

section \<open>Facts\<close>

lemma replace_pid_known:
  "(\<exists>w \<in> set ws. worker_pid w = old) \<Longrightarrow>
     \<exists>xs w ys. ws = xs @ w # ys \<and> worker_pid w = old \<and> replace_pid old new ws = Some (xs @ w\<lparr>worker_pid := new\<rparr> # ys)"
proof (induction ws)
  case (Cons v ws)
  show ?case
  proof (cases "\<exists>w \<in> set ws. worker_pid w = old")
    case True
    with Cons.IH obtain xs w ys where "ws = xs @ w # ys" "worker_pid w = old"
      "replace_pid old new ws = Some (xs @ w\<lparr>worker_pid := new\<rparr> # ys)" by blast
    then show ?thesis by (intro exI [of _ "v # xs"] exI [of _ w] exI [of _ ys]) simp
  next
    case False
    then have "replace_pid old new ws = None" by (induction ws) auto
    with False Cons.prems show ?thesis by (intro exI [of _ "[]"] exI [of _ v] exI [of _ ws]) auto
  qed
qed simp

lemma replace_pid_unknown: "\<forall>w \<in> set ws. worker_pid w \<noteq> old \<Longrightarrow> replace_pid old new ws = None"
  by (induction ws) auto

lemma fork_workers_spec:
  assumes "fork_workers f i n c ws = (c', ws')" and "\<forall>w \<in> set ws. worker_pid w > 0" and "n = 0 \<longrightarrow> c > 0"
  shows "(\<forall>w \<in> set ws'. worker_pid w > 0) \<and> (c' > 0 \<longrightarrow> length ws' = length ws + n)"
  using assms by (induction f i n c ws rule: fork_workers.induct) (auto split: if_splits)

definition descriptor :: "ptr \<Rightarrow> (string \<Rightarrow> string option) \<Rightarrow> string \<Rightarrow> method_descriptor" where
  "descriptor svc desc m = \<lparr>service = svc, md_method = trim m, full_name = the (desc (trim m))\<rparr>"

definition mapping_text :: "(string \<times> string) list \<Rightarrow> string" where
  "mapping_text ms = join CHR '','' (map (\<lambda>(p, m). p @ CHR ''>'' # m) ms)"

text \<open>A mapping that can be written: no delimiter in its parts, and a method of the service.\<close>

definition good_mapping :: "(string \<Rightarrow> string option) \<Rightarrow> string \<times> string \<Rightarrow> bool" where
  "good_mapping desc pm \<longleftrightarrow>
     CHR '','' \<notin> set (fst pm @ snd pm) \<and> CHR ''>'' \<notin> set (fst pm @ snd pm) \<and> snd pm \<noteq> [] \<and> desc (trim (snd pm)) \<noteq> None"

lemma add_methods_maps:
  assumes "\<forall>pm \<in> set ms. good_mapping desc pm" and "distinct (map (\<lambda>pm. trim (fst pm)) ms)"
  shows "\<exists>mm'. add_methods svc desc (map (\<lambda>(p, m). p @ CHR ''>'' # m) ms) mm = (True, mm') \<and>
    (\<forall>k. map_of mm' k = (case map_of (map (\<lambda>(p, m). (trim p, descriptor svc desc m)) ms) k of
       Some d \<Rightarrow> Some d | None \<Rightarrow> map_of mm k))"
  using assms
proof (induction ms arbitrary: mm)
  case (Cons pm ms)
  obtain p m where pm: "pm = (p, m)" by (cases pm)
  have g: "good_mapping desc (p, m)" using Cons.prems(1) pm by simp
  then obtain full where full: "desc (trim m) = Some full" by (auto simp: good_mapping_def)
  have sp: "Split (join CHR ''>'' [p, m]) CHR ''>'' = [p, m]"
    by (rule Split_join) (use g in \<open>auto simp: good_mapping_def\<close>)
  let ?mm = "AList.update (trim p) (descriptor svc desc m) mm"
  have new: "map_of (map (\<lambda>(p, m). (trim p, descriptor svc desc m)) ms) (trim p) = None"
    using Cons.prems(2) pm by (auto simp: map_of_eq_None_iff image_iff split: prod.splits)
  obtain mm' where "add_methods svc desc (map (\<lambda>(p, m). p @ CHR ''>'' # m) ms) ?mm = (True, mm')"
    "\<forall>k. map_of mm' k = (case map_of (map (\<lambda>(p, m). (trim p, descriptor svc desc m)) ms) k of
       Some d \<Rightarrow> Some d | None \<Rightarrow> map_of ?mm k)"
    using Cons.IH [of ?mm] Cons.prems by auto
  moreover from this(2) new pm have "\<forall>k. map_of mm' k =
      (case map_of (map (\<lambda>(p, m). (trim p, descriptor svc desc m)) (pm # ms)) k of Some d \<Rightarrow> Some d | None \<Rightarrow> map_of mm k)"
    by (auto simp: update_conv' split: option.splits)
  ultimately show ?case using sp full pm by (auto simp: descriptor_def)
qed simp

section \<open>Properties\<close>

text \<open>
  C21: a mapping string that lists methods of the service routes every path, without the white
  space around it, to the descriptor of its method, and leaves all other paths alone.
\<close>

theorem AddRpcService_routes:
  assumes "ms \<noteq> []" and "\<forall>pm \<in> set ms. good_mapping desc pm" and "distinct (map (\<lambda>pm. trim (fst pm)) ms)"
  shows "\<exists>srv'. AddRpcService svc desc (mapping_text ms) srv = (True, srv') \<and>
    (\<forall>k. map_of (method_map srv') k = (case map_of (map (\<lambda>(p, m). (trim p, descriptor svc desc m)) ms) k of
       Some d \<Rightarrow> Some d | None \<Rightarrow> map_of (method_map srv) k))"
proof -
  let ?items = "map (\<lambda>(p, m). p @ CHR ''>'' # m) ms"
  have "Split (join CHR '','' ?items) CHR '','' = ?items"
    by (rule Split_join) (use assms(1,2) in \<open>auto simp: good_mapping_def last_map split: prod.splits\<close>)
  with add_methods_maps [OF assms(2,3), of svc "method_map srv"] show ?thesis
    by (auto simp: AddRpcService_def mapping_text_def)
qed

text \<open>
  The test of the configuration is inverted for stream servers.  A configuration with \<open>tcp\<close>
  only makes \<open>Initialize\<close> fail, although the message says that no server item was found, and
  one without any server passes the test.
\<close>

theorem tcp_only_config_rejected:
  assumes "b_parse b (b_data b) = Some c" and "\<not> isMember ''udp'' c" and "\<not> isMember ''http'' c"
    and "0 \<le> b_log b" and "fst (Frame_Init s)"
  shows "(isMember ''tcp'' c \<longrightarrow> (\<exists>s' srv'. Initialize b s srv = Some (-93, s', srv'))) \<and>
    (\<not> isMember ''tcp'' c \<longrightarrow> fst (ParseConfig (b_parse b) (b_data b) srv))"
  using assms by (cases "Frame_Init s") (auto simp: Initialize_def ParseConfig_def)

lemma init_items_udp:
  assumes "init_items ioctl sys ''udp'' i cs li ls = (0, ls')" and "\<forall>l \<in> set ls. proto l = ''tcp''"
  shows "(\<forall>l \<in> set ls'. proto l = ''tcp'') \<and> length ls' = length ls + length cs"
  using assms
proof (induction cs arbitrary: i li ls)
  case (Cons c cs)
  obtain li1 where p: "ListenItem_Parse ioctl ''udp'' c li = (True, li1)"
    using Cons.prems(1) by (cases "ListenItem_Parse ioctl ''udp'' c li") (auto split: if_splits)
  obtain r l where l: "UdpListener_Listen (sys i) (li_ip li1) (li_port li1) UdpListener_ctor = (r, l)" by fastforce
  with Cons.prems(1) p have r: "0 \<le> r" and n: "init_items ioctl sys ''udp'' (i + 1) cs li1 (ls @ [l]) = (0, ls')"
    by (auto split: if_splits)
  have "proto l = ''tcp''" using Listen_ready(2) [OF l r] by (simp add: UdpListener_ctor_def)
  with Cons.IH [OF n] Cons.prems(2) show ?case by simp
qed simp

lemma worker_works_tcp: "\<forall>l \<in> set ls. proto l = ''tcp'' \<Longrightarrow> worker_works ls = map Tcp_Srv_Work ls"
  by (induction ls) auto

text \<open>
  Datagram sockets of the configuration are served as stream sockets: for every \<open>udp\<close> item a
  worker starts a \<open>TcpSrvWork\<close>, which calls \<open>accept\<close>, and no \<open>UdpSrvWork\<close>.
\<close>

theorem udp_items_get_stream_servers:
  assumes "config srv ''udp'' = Some cs" and "listeners srv = []" and "InitListener ioctl sys ''udp'' srv = (0, srv')"
  shows "worker_works (listeners srv') = map Tcp_Srv_Work (listeners srv') \<and> length (listeners srv') = length cs"
  using assms init_items_udp [of ioctl sys 0 cs _ "[]"] worker_works_tcp
  by (fastforce simp: InitListener_def split: prod.splits)

lemma restart_round:
  assumes "mode srv = WM_MASTER" and "restart_worker_pid srv = []" and "0 < pid" and "0 < forked"
    and "\<exists>w \<in> set (worker_processes srv). worker_pid w = pid" and "\<forall>l \<in> set (listeners srv). l_mtx l \<noteq> None"
    and "SignalCallback ((pid, e) # as) SIGCHLD srv = Some srv1"
  shows "\<exists>xs w ys. worker_processes srv = xs @ w # ys \<and> worker_pid w = pid \<and>
    master_round [forked] srv1 =
      (srv\<lparr>worker_processes := xs @ w\<lparr>worker_pid := forked\<rparr> # ys,
           listeners := map (\<lambda>l. if l_mtx l = Some (word_of_int pid) then l\<lparr>l_mtx := Some 0\<rparr> else l) (listeners srv)\<rparr>,
       All_Done)"
proof -
  obtain xs w ys where w: "worker_processes srv = xs @ w # ys" "worker_pid w = pid"
    "replace_pid pid forked (worker_processes srv) = Some (xs @ w\<lparr>worker_pid := forked\<rparr> # ys)"
    using replace_pid_known [OF assms(5)] by blast
  have srv1: "srv1 = srv\<lparr>restart_worker_pid := [pid]\<rparr>"
    using assms(1-3,5,7) by (simp add: SignalCallback_def)
  have f: "map (forced_unlock pid) (listeners srv) =
      map (\<lambda>l. if l_mtx l = Some (word_of_int pid) then l\<lparr>l_mtx := Some 0\<rparr> else l) (listeners srv)"
    using assms(6) by (auto simp: forced_unlock_def AtomicMtx_ForcedUnlockIfNeed_def)
  have n: "\<not> (\<exists>l \<in> set (listeners srv). l_mtx l = None)" using assms(6) by blast
  have "master_round [forked] srv1 =
      (srv\<lparr>restart_worker_pid := [], listeners := map (forced_unlock pid) (listeners srv),
           worker_processes := xs @ w\<lparr>worker_pid := forked\<rparr> # ys\<rparr>, All_Done)"
    using assms(4) w(3) n by (simp add: master_round_def srv1)
  also have "\<dots> = (srv\<lparr>worker_processes := xs @ w\<lparr>worker_pid := forked\<rparr> # ys,
      listeners := map (forced_unlock pid) (listeners srv)\<rparr>, All_Done)"
    using assms(2) by simp
  finally show ?thesis using w(1,2) unfolding f by blast
qed

text \<open>
  A worker that died is replaced.  After \<open>SIGCHLD\<close> for a known worker and a successful
  \<open>fork\<close> in the next round of the master, its entry has the new process id and nothing else in
  the table has changed, every mutex the dead worker held is free and the others are as before,
  and nothing is left to restart.
\<close>

theorem master_restarts_a_worker:
  assumes "mode srv = WM_MASTER" and "restart_worker_pid srv = []" and "0 < pid" and "0 < forked"
    and "\<exists>w \<in> set (worker_processes srv). worker_pid w = pid" and "\<forall>l \<in> set (listeners srv). l_mtx l \<noteq> None"
    and "SignalCallback ((pid, e) # as) SIGCHLD srv = Some srv1"
  shows "\<exists>xs w ys. worker_processes srv = xs @ w # ys \<and> worker_pid w = pid \<and>
    master_round [forked] srv1 =
      (srv\<lparr>worker_processes := xs @ w\<lparr>worker_pid := forked\<rparr> # ys,
           listeners := map (\<lambda>l. if l_mtx l = Some (word_of_int pid) then l\<lparr>l_mtx := Some 0\<rparr> else l) (listeners srv)\<rparr>,
       All_Done)"
  using assms by (rule restart_round)

text \<open>
  Dead children are lost or fatal.  One call of \<open>GetWorkerStatus\<close> takes one child only, so of
  several that one signal stands for the others are not seen; and a child that is not in the
  table is recorded as process 0, for which the next round of the master starts a process and
  then dereferences a null pointer.
\<close>

theorem GetWorkerStatus_loses_children:
  assumes "pid \<noteq> 0" and "pid \<noteq> -1"
  shows "GetWorkerStatus ((pid, e) # as) srv = GetWorkerStatus [(pid, e)] srv \<and>
    ((\<forall>w \<in> set (worker_processes srv). worker_pid w \<noteq> pid \<and> worker_pid w \<noteq> 0) \<and> restart_worker_pid srv = [] \<and> 0 < forked \<longrightarrow>
     (\<exists>srv1. GetWorkerStatus [(pid, e)] srv = Some srv1 \<and> snd (master_round [forked] srv1) = Crash))"
  using assms by (auto simp: master_round_def replace_pid_unknown)

lemma restart_loop_mode: "restart_loop ps srv = (srv', r) \<Longrightarrow> mode srv' = mode srv \<and> tracker srv' = tracker srv"
  by (induction ps srv rule: restart_loop.induct) (auto simp: Let_def split: if_splits option.splits)

lemma worker_loop_ignoring:
  assumes "mode srv = WM_MASTER" and "\<not> graceful_shutdown (tracker srv)"
    and "\<forall>i \<in> set is. \<forall>x. mode x = WM_MASTER \<longrightarrow> snd (snd i) x = x"
  shows "worker_loop is s srv = None"
  using assms by (induction "is" arbitrary: s) auto

text \<open>
  A worker that was started again cannot be shut down gracefully.  It keeps the mode of the
  master it was forked from, so \<open>SIGHUP\<close> does not set the flag its loop waits for: in any number
  of rounds with such a signal in each of them \<open>WorkerRun\<close> does not end.
\<close>

theorem restarted_worker_ignores_SIGHUP:
  assumes "mode srv = WM_MASTER" and "\<not> graceful_shutdown (tracker srv)" and "master_round forks srv = (child, In_Child)"
    and "\<forall>i \<in> set is. \<exists>waits. snd (snd i) = (\<lambda>x. the (SignalCallback waits SIGHUP x))"
  shows "WorkerRun addr is s child = None"
proof -
  have "mode child = WM_MASTER" "\<not> graceful_shutdown (tracker child)"
    using assms(1-3) restart_loop_mode [of "zip (restart_worker_pid srv) forks" srv]
    by (auto simp: master_round_def split: prod.splits master_result.splits)
  moreover have "snd (snd i) x = x" if "i \<in> set is" "mode x = WM_MASTER" for i x
    using assms(4) that by (force simp: SignalCallback_def SIGHUP_def SIGCHLD_def)
  ultimately show ?thesis unfolding WorkerRun_def by (intro worker_loop_ignoring) auto
qed

text \<open>
  C31: after a successful start the process is either a worker or the master, and the master's
  table has one entry with a positive process id for every worker it was to start.
\<close>

theorem Initialize_roles:
  assumes "Initialize b s srv = Some (0, s', srv')" and "worker_processes srv = []"
  shows "mode srv' \<in> {WM_WORKER, WM_MASTER} \<and> (\<forall>w \<in> set (worker_processes srv'). 0 < worker_pid w) \<and>
    (mode srv' = WM_MASTER \<longrightarrow> length (worker_processes srv') = worker_num b)"
proof -
  have pos: "0 < worker_num b" by (simp add: worker_num_def)
  have keep: "worker_processes (snd (InitListener ioctl sys pr x)) = worker_processes x" for ioctl sys pr x
    by (auto simp: InitListener_def split: option.splits prod.splits)
  have srv: "worker_processes x' = worker_processes x" if "InitSrv y x = Some (r, x')" for y x r x'
    using that keep [of "is_ioctl y" "is_tcp y" "''tcp''" x] keep [of "is_ioctl y" "is_udp y" "''udp''"]
    by (auto simp: InitSrv_def split: prod.splits if_splits option.splits) (metis snd_conv)+
  have cfg: "worker_processes (snd (ParseConfig p d srv)) = []" for p d
    using assms(2) by (auto simp: ParseConfig_def split: option.splits)
  have sig: "worker_processes x' = worker_processes x" if "InitSigAction sp h s x = Some (r, s', x')" for sp h s x r s' x'
    using that by (auto simp: InitSigAction_def split: option.splits)
  obtain c ws where f: "fork_workers (b_fork b) 0 (worker_num b) 0 [] = (c, ws)" by fastforce
  have "worker_processes srv' = ws" "c \<ge> 0" "mode srv' = (if c = 0 then WM_WORKER else WM_MASTER)"
    using assms(1) f srv sig cfg [of "b_parse b" "b_data b"]
    by (auto simp: Initialize_def Let_def split: if_splits option.splits prod.splits)
  with fork_workers_spec [OF f] pos show ?thesis by auto
qed

section \<open>Examples\<close>

theorem AddRpcService_routes_witness:
  "\<exists>srv'. AddRpcService 4 (\<lambda>m. if m = ''add'' then Some ''S.add'' else None) (mapping_text [('' /a '', '' add'')]) ServerImpl_ctor =
      (True, srv') \<and>
     map_of (method_map srv') ''/a'' = Some \<lparr>service = 4, md_method = ''add'', full_name = ''S.add''\<rparr>"
proof -
  let ?desc = "\<lambda>m. if m = ''add'' then Some ''S.add'' else None"
  have t: "trim '' /a '' = ''/a''" "trim '' add'' = ''add''" by code_simp+
  have "\<forall>pm \<in> set [('' /a '', '' add'')]. good_mapping ?desc pm" by (simp add: good_mapping_def t)
  from AddRpcService_routes [OF _ this, of 4 ServerImpl_ctor] obtain srv' where
    "AddRpcService 4 ?desc (mapping_text [('' /a '', '' add'')]) ServerImpl_ctor = (True, srv')"
    "map_of (method_map srv') ''/a'' = Some (descriptor 4 ?desc '' add'')"
    by (auto simp: t)
  then show ?thesis by (auto simp: descriptor_def t)
qed

definition demo_sys :: listen_sys where
  "demo_sys = \<lparr>sys_socket = 3, sys_getfl = 0, sys_setfl = \<lambda>_. 0, sys_reuse = 0, sys_bind = \<lambda>_. 0, sys_listen = \<lambda>_. 0\<rparr>"

definition demo_boot :: "json_config \<Rightarrow> boot_sys" where
  "demo_boot c = \<lparr>b_log = 0, b_parse = \<lambda>_. Some c, b_data = [], b_sockpair = Some (5, 6), b_helper = 1,
     b_init = \<lparr>is_ioctl = \<lambda>_. 1, is_tcp = \<lambda>_. demo_sys, is_udp = \<lambda>_. demo_sys, is_daemon_fork = 0, is_devnull = 3\<rparr>,
     b_nprocs = 2, b_fork = \<lambda>i. 100 + int i\<rparr>"

theorem tcp_only_config_rejected_witness:
  "\<exists>s' srv'. Initialize (demo_boot [''tcp'' \<mapsto> [''eth0:80'']]) Frame_static ServerImpl_ctor = Some (-93, s', srv')"
  using tcp_only_config_rejected [of "demo_boot [''tcp'' \<mapsto> [''eth0:80'']]" "[''tcp'' \<mapsto> [''eth0:80'']]" Frame_static]
    booted_start
  by (simp add: demo_boot_def isMember_def frame_start_def)

theorem udp_items_get_stream_servers_witness:
  "\<exists>l. worker_works (listeners (snd (InitListener (\<lambda>_. 1) (\<lambda>_. demo_sys) ''udp''
      (ServerImpl_ctor\<lparr>config := [''udp'' \<mapsto> [''eth0:53'']]\<rparr>)))) = [Tcp_Srv_Work l]"
proof -
  let ?srv = "ServerImpl_ctor\<lparr>config := [''udp'' \<mapsto> [''eth0:53'']]\<rparr>"
  have sp: "Split ''eth0:53'' CHR '':'' = [''eth0'', ''53'']" by code_simp
  obtain srv' where i: "InitListener (\<lambda>_. 1) (\<lambda>_. demo_sys) ''udp'' ?srv = (0, srv')"
    by (simp add: InitListener_def ListenItem_Parse_def sp GetEthAddr_def UdpListener_Listen_def AtomicMtx_InitMtx_def
          SetNonBlock_def Let_def ServerImpl_ctor_def demo_sys_def)
  have w: "worker_works (listeners srv') = map Tcp_Srv_Work (listeners srv') \<and> length (listeners srv') = 1"
    using udp_items_get_stream_servers [OF _ _ i] by (simp add: ServerImpl_ctor_def)
  then obtain l where "listeners srv' = [l]" by (auto simp: length_Suc_conv)
  with w i show ?thesis by simp
qed

definition demo_master :: server_impl where
  "demo_master = ServerImpl_ctor\<lparr>mode := WM_MASTER, worker_processes := [\<lparr>worker_name = ''w'', worker_pid = 100\<rparr>],
     listeners := [demo_listener\<lparr>l_mtx := Some 100\<rparr>]\<rparr>"

theorem master_restarts_a_worker_witness:
  "\<exists>srv1. SignalCallback [(100, EINTR)] SIGCHLD demo_master = Some srv1 \<and>
     map worker_pid (worker_processes (fst (master_round [200] srv1))) = [200] \<and>
     map l_mtx (listeners (fst (master_round [200] srv1))) = [Some 0]"
proof -
  obtain srv1 where s: "SignalCallback [(100, EINTR)] SIGCHLD demo_master = Some srv1"
    by (simp add: SignalCallback_def demo_master_def)
  have "mode demo_master = WM_MASTER" "restart_worker_pid demo_master = []"
    "\<exists>w \<in> set (worker_processes demo_master). worker_pid w = 100" "\<forall>l \<in> set (listeners demo_master). l_mtx l \<noteq> None"
    by (simp_all add: demo_master_def ServerImpl_ctor_def)
  from master_restarts_a_worker [OF this(1,2) _ _ this(3,4) s, of 200] s show ?thesis
    by (auto simp: demo_master_def Cons_eq_append_conv)
qed

theorem GetWorkerStatus_loses_children_witness:
  "GetWorkerStatus [(101, EINTR), (102, EINTR)] demo_master = GetWorkerStatus [(101, EINTR)] demo_master \<and>
   (\<exists>srv1. GetWorkerStatus [(101, EINTR)] demo_master = Some srv1 \<and> snd (master_round [200] srv1) = Crash)"
  using GetWorkerStatus_loses_children [of 101 EINTR "[(102, EINTR)]" demo_master 200]
  by (simp add: demo_master_def ServerImpl_ctor_def)

theorem restarted_worker_ignores_SIGHUP_witness:
  "\<exists>child. master_round [0] (demo_master\<lparr>restart_worker_pid := [100]\<rparr>) = (child, In_Child) \<and>
     WorkerRun (\<lambda>_. 9) [(0, id, \<lambda>x. the (SignalCallback [] SIGHUP x))] Frame_static child = None"
proof -
  obtain child where c: "master_round [0] (demo_master\<lparr>restart_worker_pid := [100]\<rparr>) = (child, In_Child)"
    by (simp add: master_round_def demo_master_def)
  from restarted_worker_ignores_SIGHUP [OF _ _ c, of "[(0, id, \<lambda>x. the (SignalCallback [] SIGHUP x))]" "\<lambda>_. 9" Frame_static] c
  show ?thesis by (auto simp: demo_master_def ServerImpl_ctor_def ConnTracker_ctor_def)
qed

lemma demo_boots: "\<exists>s' srv'. Initialize (demo_boot Map.empty) Frame_static ServerImpl_ctor = Some (0, s', srv') \<and> mode srv' = WM_MASTER"
  using booted_start
  by (simp add: Initialize_def demo_boot_def frame_start_def ParseConfig_def isMember_def InitSigAction_def InitSrv_def
        InitListener_def Daemonize_def worker_num_def ServerImpl_ctor_def numeral_2_eq_2 Let_def)

theorem Initialize_roles_witness:
  "\<exists>s' srv'. Initialize (demo_boot Map.empty) Frame_static ServerImpl_ctor = Some (0, s', srv') \<and>
     length (worker_processes srv') = 2"
proof -
  obtain s' srv' where i: "Initialize (demo_boot Map.empty) Frame_static ServerImpl_ctor = Some (0, s', srv')" "mode srv' = WM_MASTER"
    using demo_boots by blast
  with Initialize_roles [OF i(1)] show ?thesis by (simp add: worker_num_def demo_boot_def ServerImpl_ctor_def)
qed

end
