(* ===== verification/Http_Message.thy ===== *)
theory Http_Message
  imports Util_String
begin

text \<open>
  http_request.h/.cc and http_response.h/.cc: the message objects and their serialisation.
  A header map is an association list with one entry per field; its order stands for the
  unspecified order of \<open>std::unordered_map\<close>.
\<close>

section \<open>Objects\<close>

type_synonym headers = "(string \<times> string) list"

record URL =
  schema :: string
  host :: string
  port :: u32
  uri :: string
  path :: string
  query :: string
  fragment :: string
  userinfo :: string
  query_params :: headers

definition IsHttps :: "URL \<Rightarrow> bool" where
  "IsHttps u \<longleftrightarrow> port u = 443"

definition IsSet :: "string \<Rightarrow> URL \<Rightarrow> bool" where
  "IsSet param u \<longleftrightarrow> map_of (query_params u) param \<noteq> None"

text \<open>The enumerators; \<open>-1\<close> in the \<open>uint8_t\<close> member is 255.\<close>

definition HTTP_REQUEST_METHOD_UNKNOWN :: u8 where
  "HTTP_REQUEST_METHOD_UNKNOWN = -1"

definition HTTP_REQUEST_METHOD_GET :: u8 where
  "HTTP_REQUEST_METHOD_GET = 0"

definition HTTP_REQUEST_METHOD_POST :: u8 where
  "HTTP_REQUEST_METHOD_POST = 1"

record http_request =
  rq_method :: u8
  struri :: string
  uri_obj :: URL
  rq_content :: string
  rq_headers :: headers
  keepalive :: bool

record http_response =
  status :: int
  rs_content :: string
  rs_headers :: headers

text \<open>The port of a default-constructed \<open>URL\<close> is indeterminate; 0 stands for it.\<close>

definition URL_ctor :: URL where
  "URL_ctor = \<lparr>schema = [], host = [], port = 0, uri = [], path = [], query = [], fragment = [],
     userinfo = [], query_params = []\<rparr>"

definition HttpRequest_ctor :: http_request where
  "HttpRequest_ctor = \<lparr>rq_method = HTTP_REQUEST_METHOD_UNKNOWN, struri = [], uri_obj = URL_ctor,
     rq_content = [], rq_headers = [], keepalive = False\<rparr>"

definition HttpResponse_ctor :: http_response where
  "HttpResponse_ctor = \<lparr>status = 200, rs_content = [], rs_headers = []\<rparr>"

definition HttpResponse_ctor3 :: "string \<Rightarrow> string \<Rightarrow> int \<Rightarrow> http_response" where
  "HttpResponse_ctor3 c content_type st =
     \<lparr>status = st, rs_content = c, rs_headers = [(''content_type'', content_type)]\<rparr>"

section \<open>Operations\<close>

definition SetMethod :: "u8 \<Rightarrow> http_request \<Rightarrow> http_request" where
  "SetMethod m r = r\<lparr>rq_method := m\<rparr>"

definition SetUri :: "string \<Rightarrow> http_request \<Rightarrow> http_request" where
  "SetUri u r = r\<lparr>struri := u\<rparr>"

definition SetKeepAlive :: "bool \<Rightarrow> http_request \<Rightarrow> http_request" where
  "SetKeepAlive b r = r\<lparr>keepalive := b\<rparr>"

definition rq_SetHeader :: "string \<Rightarrow> string \<Rightarrow> http_request \<Rightarrow> http_request" where
  "rq_SetHeader f v r = r\<lparr>rq_headers := AList.update f v (rq_headers r)\<rparr>"

definition rq_UnsetHeader :: "string \<Rightarrow> http_request \<Rightarrow> http_request" where
  "rq_UnsetHeader f r = r\<lparr>rq_headers := AList.delete f (rq_headers r)\<rparr>"

definition rq_GetHeader :: "string \<Rightarrow> http_request \<Rightarrow> string" where
  "rq_GetHeader f r = (case map_of (rq_headers r) f of Some v \<Rightarrow> v | None \<Rightarrow> [])"

definition rq_IsHeader :: "string \<Rightarrow> http_request \<Rightarrow> bool" where
  "rq_IsHeader f r \<longleftrightarrow> map_of (rq_headers r) f \<noteq> None"

definition rq_SetContent :: "string \<Rightarrow> http_request \<Rightarrow> http_request" where
  "rq_SetContent c r =
     r\<lparr>rq_content := c,
       rq_headers := AList.update ''Content-Length'' (nat_to_string (length c)) (rq_headers r)\<rparr>"

text \<open>\<open>Clear\<close> leaves the parsed URL and the keep-alive flag as they are.\<close>

definition rq_Clear :: "http_request \<Rightarrow> http_request" where
  "rq_Clear r = r\<lparr>rq_method := HTTP_REQUEST_METHOD_UNKNOWN, struri := [], rq_content := [], rq_headers := []\<rparr>"

definition SetStatus :: "int \<Rightarrow> http_response \<Rightarrow> http_response" where
  "SetStatus st r = r\<lparr>status := st\<rparr>"

definition rs_SetHeader :: "string \<Rightarrow> string \<Rightarrow> http_response \<Rightarrow> http_response" where
  "rs_SetHeader f v r = r\<lparr>rs_headers := AList.update f v (rs_headers r)\<rparr>"

definition rs_UnsetHeader :: "string \<Rightarrow> http_response \<Rightarrow> http_response" where
  "rs_UnsetHeader f r = r\<lparr>rs_headers := AList.delete f (rs_headers r)\<rparr>"

definition rs_GetHeader :: "string \<Rightarrow> http_response \<Rightarrow> string" where
  "rs_GetHeader f r = (case map_of (rs_headers r) f of Some v \<Rightarrow> v | None \<Rightarrow> [])"

definition rs_SetContent :: "string \<Rightarrow> http_response \<Rightarrow> http_response" where
  "rs_SetContent c r =
     r\<lparr>rs_content := c,
       rs_headers := AList.update ''Content-Length'' (nat_to_string (length c)) (rs_headers r)\<rparr>"

definition rs_Clear :: "http_response \<Rightarrow> http_response" where
  "rs_Clear r = r\<lparr>status := 200, rs_content := [], rs_headers := []\<rparr>"

section \<open>Serialisation\<close>

definition crlf :: string where
  "crlf = [CHR 0x0D, CHR 0x0A]"

text \<open>The loop over the header map: a line for every field with a value.\<close>

fun header_lines :: "headers \<Rightarrow> string" where
  "header_lines [] = []"
| "header_lines ((f, v) # hs) = (if v \<noteq> [] then f @ '': '' @ v @ crlf else []) @ header_lines hs"

text \<open>\<open>HttpRequest::SerializeToString\<close>: \<open>None\<close> when it returns false and leaves the output alone.\<close>

definition rq_SerializeToString :: "http_request \<Rightarrow> string option" where
  "rq_SerializeToString r =
     (let rest = struri r @ '' '' @ ''HTTP/1.1'' @ crlf @ header_lines (rq_headers r) @ crlf @ rq_content r in
      if rq_method r = HTTP_REQUEST_METHOD_GET then Some (''GET '' @ rest)
      else if rq_method r = HTTP_REQUEST_METHOD_POST then Some (''POST '' @ rest)
      else None)"

definition rq_SerializeToString0 :: "http_request \<Rightarrow> string" where
  "rq_SerializeToString0 r = (case rq_SerializeToString r of Some s \<Rightarrow> s | None \<Rightarrow> [])"

definition reason :: "int \<Rightarrow> string" where
  "reason st =
     (if st = 200 then ''OK'' else if st = 400 then ''Bad Request'' else if st = 404 then ''Not Found''
      else if st = 500 then ''Internal Server Error'' else [])"

definition rs_SerializeToString :: "http_response \<Rightarrow> string" where
  "rs_SerializeToString r =
     ''HTTP/1.1 '' @ int_to_string (status r) @ '' '' @ reason (status r) @ crlf @
     header_lines (rs_headers r) @ crlf @ rs_content r"

lemmas rq_defs [op_defs] = SetMethod_def SetUri_def SetKeepAlive_def rq_SetHeader_def rq_UnsetHeader_def
  rq_GetHeader_def rq_IsHeader_def rq_SetContent_def rq_Clear_def

lemmas rs_defs [op_defs] = SetStatus_def rs_SetHeader_def rs_UnsetHeader_def rs_GetHeader_def
  rs_SetContent_def rs_Clear_def

section \<open>The header map\<close>

text \<open>The contract of the header map that requests and responses share.\<close>

locale header_map =
  fixes get :: "string \<Rightarrow> 's \<Rightarrow> string"
    and set_field :: "string \<Rightarrow> string \<Rightarrow> 's \<Rightarrow> 's"
    and unset_field :: "string \<Rightarrow> 's \<Rightarrow> 's"
    and set_body :: "string \<Rightarrow> 's \<Rightarrow> 's"
    and body :: "'s \<Rightarrow> string"
  assumes get_set: "get g (set_field f v s) = (if g = f then v else get g s)"
    and get_unset: "get g (unset_field f s) = (if g = f then [] else get g s)"
    and get_body: "get g (set_body c s) = (if g = ''Content-Length'' then nat_to_string (length c) else get g s)"
    and body_set: "body (set_body c s) = c" "body (set_field f v s) = body s" "body (unset_field f s) = body s"
begin

lemma set_twice: "get g (set_field f v (set_field f w s)) = get g (set_field f v s)"
  by (simp add: get_set)

lemma set_commute: "f \<noteq> f' \<Longrightarrow> get g (set_field f v (set_field f' v' s)) = get g (set_field f' v' (set_field f v s))"
  by (simp add: get_set)

lemma unset_set: "get g (unset_field f (set_field f v s)) = get g (unset_field f s)"
  by (simp add: get_set get_unset)

lemma length_readable: "digits_value (get ''Content-Length'' (set_body c s)) = length (body (set_body c s))"
  by (simp add: get_body body_set digits_value_nat_to_string)

end

interpretation rq: header_map rq_GetHeader rq_SetHeader rq_UnsetHeader rq_SetContent rq_content
  by unfold_locales (auto simp: op_defs update_conv' map_of_delete_other map_of_delete_same)

interpretation rs: header_map rs_GetHeader rs_SetHeader rs_UnsetHeader rs_SetContent rs_content
  by unfold_locales (auto simp: op_defs update_conv' map_of_delete_other map_of_delete_same)

section \<open>A reference reader\<close>

text \<open>
  What a receiver reads from a message: a line up to the first line break, header lines of
  the form \<open>field: value\<close> up to an empty line, and the body behind it.
\<close>

fun read_line :: "string \<Rightarrow> (string \<times> string) option" where
  "read_line [] = None"
| "read_line (c # s) =
     (if c = CHR 0x0D \<and> s \<noteq> [] \<and> hd s = CHR 0x0A then Some ([], tl s)
      else map_option (\<lambda>(l, r). (c # l, r)) (read_line s))"

definition split_header :: "string \<Rightarrow> (string \<times> string) option" where
  "split_header l =
     (let f = takeWhile (\<lambda>c. c \<noteq> CHR '':'') l; r = drop (length f) l in
      if take 2 r = '': '' then Some (f, drop 2 r) else None)"

lemma read_line_shorter: "read_line s = Some (l, r) \<Longrightarrow> length r < length s"
proof (induction s arbitrary: l r)
  case (Cons c s)
  show ?case
  proof (cases "c = CHR 0x0D \<and> s \<noteq> [] \<and> hd s = CHR 0x0A")
    case True
    with Cons.prems show ?thesis by (cases s) auto
  next
    case False
    with Cons.prems have "\<exists>l' r'. read_line s = Some (l', r') \<and> r = r'"
      by (auto simp: map_option_case split: option.splits)
    with Cons.IH show ?thesis by fastforce
  qed
qed simp

function read_headers :: "string \<Rightarrow> (headers \<times> string) option" where
  "read_headers s =
     (case read_line s of
        None \<Rightarrow> None
      | Some (l, r) \<Rightarrow>
          (if l = [] then Some ([], r)
           else case split_header l of
             None \<Rightarrow> None
           | Some h \<Rightarrow> map_option (\<lambda>(hs, b). (h # hs, b)) (read_headers r)))"
  by pat_completeness auto
termination
  by (relation "measure length") (auto dest: read_line_shorter)

declare read_headers.simps [simp del]

definition read_request :: "string \<Rightarrow> (string \<times> string \<times> headers \<times> string) option" where
  "read_request s =
     (case read_line s of
        None \<Rightarrow> None
      | Some (l, r) \<Rightarrow>
          (case Split l CHR '' '' of
             [m, u, v] \<Rightarrow> map_option (\<lambda>(hs, b). (m, u, hs, b)) (read_headers r)
           | _ \<Rightarrow> None))"

lemma read_line_app: "CHR 0x0D \<notin> set l \<Longrightarrow> read_line (l @ crlf @ r) = Some (l, r)"
  by (induction l) (auto simp: crlf_def)

lemma split_header_app: "CHR '':'' \<notin> set f \<Longrightarrow> split_header (f @ '': '' @ v) = Some (f, v)"
  by (simp add: split_header_def takeWhile_append Let_def)

text \<open>A header that can be read back: no colon in the field and no carriage return anywhere.\<close>

definition clean_header :: "string \<times> string \<Rightarrow> bool" where
  "clean_header h \<longleftrightarrow> CHR '':'' \<notin> set (fst h) \<and> CHR 0x0D \<notin> set (fst h @ snd h)"

lemma read_header_lines:
  assumes "\<forall>h \<in> set hs. snd h \<noteq> [] \<longrightarrow> clean_header h"
  shows "read_headers (header_lines hs @ crlf @ b) = Some (filter (\<lambda>h. snd h \<noteq> []) hs, b)"
  using assms
proof (induction hs)
  case Nil
  have "read_line (crlf @ b) = Some ([], b)" using read_line_app [of "[]" b] by simp
  then show ?case by (subst read_headers.simps) simp
next
  case (Cons h hs)
  obtain f v where h: "h = (f, v)" by (cases h)
  show ?case
  proof (cases "v = []")
    case True
    with Cons h show ?thesis by simp
  next
    case False
    with Cons.prems h have c: "CHR '':'' \<notin> set f" "CHR 0x0D \<notin> set (f @ '': '' @ v)"
      by (auto simp: clean_header_def)
    let ?r = "header_lines hs @ crlf @ b"
    have "header_lines (h # hs) @ crlf @ b = (f @ '': '' @ v) @ crlf @ ?r" using False h by simp
    moreover have "read_line ((f @ '': '' @ v) @ crlf @ ?r) = Some (f @ '': '' @ v, ?r)"
      using c(2) by (rule read_line_app)
    ultimately have "read_headers (header_lines (h # hs) @ crlf @ b) =
        map_option (\<lambda>(hs, b). ((f, v) # hs, b)) (read_headers ?r)"
      using split_header_app [OF c(1), of v] by (subst read_headers.simps) simp
    with Cons False h show ?thesis by simp
  qed
qed

section \<open>Properties\<close>

lemma int_to_string_no_cr: "CHR 0x0D \<notin> set (int_to_string i)"
proof -
  have "\<not> isdigit CHR 0x0D" by (simp add: isdigit_def)
  then show ?thesis using nat_to_string_digits [of "nat (- i)"] nat_to_string_digits [of "nat i"]
    by (auto simp: int_to_string_def)
qed

lemma read_request_app:
  assumes "CHR '' '' \<notin> set m" and "CHR '' '' \<notin> set u" and "CHR 0x0D \<notin> set (m @ u)"
    and "\<forall>h \<in> set hs. snd h \<noteq> [] \<longrightarrow> clean_header h"
  shows "read_request (m @ '' '' @ u @ '' '' @ ''HTTP/1.1'' @ crlf @ header_lines hs @ crlf @ b) =
    Some (m, u, filter (\<lambda>h. snd h \<noteq> []) hs, b)"
proof -
  let ?l = "m @ '' '' @ u @ '' HTTP/1.1''" and ?r = "header_lines hs @ crlf @ b"
  have "read_line (?l @ crlf @ ?r) = Some (?l, ?r)"
    using assms(3) by (intro read_line_app) auto
  moreover have "Split ?l CHR '' '' = [m, u, ''HTTP/1.1'']"
  proof -
    have "Split (join CHR '' '' [m, u, ''HTTP/1.1'']) CHR '' '' = [m, u, ''HTTP/1.1'']"
      by (rule Split_join) (use assms(1,2) in auto)
    then show ?thesis by simp
  qed
  ultimately show ?thesis using read_header_lines [OF assms(4), of b] by (simp add: read_request_def)
qed

lemma read_serialized:
  assumes "rq_SerializeToString r = Some out"
    and "CHR '' '' \<notin> set (struri r)" and "CHR 0x0D \<notin> set (struri r)"
    and "\<forall>h \<in> set (rq_headers r). snd h \<noteq> [] \<longrightarrow> clean_header h"
  shows "read_request out =
    Some (if rq_method r = HTTP_REQUEST_METHOD_GET then ''GET'' else ''POST'', struri r,
          filter (\<lambda>h. snd h \<noteq> []) (rq_headers r), rq_content r)"
  using assms(1) read_request_app [of "''GET''" "struri r", OF _ assms(2) _ assms(4), of "rq_content r"]
    read_request_app [of "''POST''" "struri r", OF _ assms(2) _ assms(4), of "rq_content r"] assms(3)
  by (auto simp: rq_SerializeToString_def Let_def split: if_splits)

text \<open>
  A request whose URI and headers are free of blanks, colons and line breaks where they
  would be ambiguous is read back from its serialised form: method, URI, the headers with a
  value and the body.
\<close>

theorem request_roundtrip:
  assumes "rq_SerializeToString r = Some out"
    and "CHR '' '' \<notin> set (struri r)" and "CHR 0x0D \<notin> set (struri r)"
    and "\<forall>h \<in> set (rq_headers r). snd h \<noteq> [] \<longrightarrow> clean_header h"
  shows "read_request out =
    Some (if rq_method r = HTTP_REQUEST_METHOD_GET then ''GET'' else ''POST'', struri r,
          filter (\<lambda>h. snd h \<noteq> []) (rq_headers r), rq_content r)"
  using assms by (rule read_serialized)

theorem request_roundtrip_witness:
  "read_request (rq_SerializeToString0 (rq_SetContent ''hi'' (SetUri ''/a'' (SetMethod HTTP_REQUEST_METHOD_POST HttpRequest_ctor)))) =
     Some (''POST'', ''/a'', [(''Content-Length'', ''2'')], ''hi'')"
proof -
  define r where "r = rq_SetContent ''hi'' (SetUri ''/a'' (SetMethod HTTP_REQUEST_METHOD_POST HttpRequest_ctor))"
  have d: "nat_to_string 2 = ''2''" by code_simp
  have f: "struri r = ''/a''" "rq_headers r = [(''Content-Length'', ''2'')]" "rq_content r = ''hi''"
    "rq_method r = HTTP_REQUEST_METHOD_POST"
    by (simp_all add: r_def op_defs HttpRequest_ctor_def d numeral_2_eq_2 [symmetric])
  have s: "rq_SerializeToString r = Some (rq_SerializeToString0 r)"
    by (simp add: rq_SerializeToString0_def rq_SerializeToString_def f HTTP_REQUEST_METHOD_POST_def
          HTTP_REQUEST_METHOD_GET_def Let_def)
  show ?thesis unfolding r_def [symmetric] using request_roundtrip [OF s]
    by (simp add: f clean_header_def HTTP_REQUEST_METHOD_POST_def HTTP_REQUEST_METHOD_GET_def)
qed

text \<open>
  A response is read back from its serialised form: the status line, the headers with a
  value and the body.
\<close>

theorem response_roundtrip:
  assumes "\<forall>h \<in> set (rs_headers r). snd h \<noteq> [] \<longrightarrow> clean_header h"
  shows "\<exists>rest. read_line (rs_SerializeToString r) =
      Some (''HTTP/1.1 '' @ int_to_string (status r) @ '' '' @ reason (status r), rest) \<and>
    read_headers rest = Some (filter (\<lambda>h. snd h \<noteq> []) (rs_headers r), rs_content r)"
proof -
  let ?l = "''HTTP/1.1 '' @ int_to_string (status r) @ '' '' @ reason (status r)"
  let ?rest = "header_lines (rs_headers r) @ crlf @ rs_content r"
  have "CHR 0x0D \<notin> set ?l" using int_to_string_no_cr [of "status r"] by (auto simp: reason_def)
  from read_line_app [OF this, of ?rest] read_header_lines [OF assms, of "rs_content r"]
  show ?thesis by (simp add: rs_SerializeToString_def)
qed

theorem response_roundtrip_witness:
  "\<exists>rest. read_line (rs_SerializeToString HttpResponse_ctor) = Some (''HTTP/1.1 '' @ int_to_string 200 @ '' OK'', rest) \<and>
     read_headers rest = Some ([], [])"
  using response_roundtrip [of HttpResponse_ctor] by (simp add: HttpResponse_ctor_def reason_def)

text \<open>
  Header values are not checked.  A value with a line break in it is written as two
  headers: setting one field to such a value serialises like setting two fields.
\<close>

theorem header_injection:
  assumes "v \<noteq> []" and "v' \<noteq> []" and "f \<noteq> g" and "rs_headers r = []"
  shows "rs_SerializeToString (rs_SetHeader f (v @ crlf @ g @ '': '' @ v') r) =
    rs_SerializeToString (rs_SetHeader g v' (rs_SetHeader f v r))"
  using assms by (simp add: rs_SerializeToString_def rs_SetHeader_def)

theorem header_injection_witness:
  "rs_SerializeToString (rs_SetHeader ''a'' (''b'' @ crlf @ ''Set-Cookie'' @ '': '' @ ''x'') HttpResponse_ctor) =
     rs_SerializeToString (rs_SetHeader ''Set-Cookie'' ''x'' (rs_SetHeader ''a'' ''b'' HttpResponse_ctor))"
  by (rule header_injection) (simp_all add: HttpResponse_ctor_def)

text \<open>
  \<open>SetContent\<close> of both message classes announces the length of the body it stores, as a
  decimal number that reads back as that length, and changes no other header; setting,
  overwriting and removing headers in between leaves the body alone.
\<close>

theorem content_length_announced:
  "digits_value (rq_GetHeader ''Content-Length'' (rq_SetContent c q)) = length (rq_content (rq_SetContent c q)) \<and>
   digits_value (rs_GetHeader ''Content-Length'' (rs_SetContent c p)) = length (rs_content (rs_SetContent c p)) \<and>
   rq_content (rq_SetHeader f v (rq_UnsetHeader g (rq_SetContent c q))) = c \<and>
   rs_content (rs_SetHeader f v (rs_UnsetHeader g (rs_SetContent c p))) = c"
  by (intro conjI rq.length_readable rs.length_readable) (simp_all only: rq.body_set rs.body_set)

text \<open>
  \<open>HttpRequest::Clear\<close> does not clear the keep-alive flag and the parsed URL, whereas
  \<open>HttpResponse::Clear\<close> gives a fresh response.
\<close>

theorem request_Clear_keeps_connection_state:
  "keepalive (rq_Clear q) = keepalive q \<and> uri_obj (rq_Clear q) = uri_obj q \<and>
   rq_Clear q = HttpRequest_ctor\<lparr>uri_obj := uri_obj q, keepalive := keepalive q\<rparr> \<and>
   rs_Clear p = HttpResponse_ctor"
  by (simp add: op_defs HttpRequest_ctor_def HttpResponse_ctor_def)

end
