(* ===== verification/Http_Parser.thy ===== *)
theory Http_Parser
  imports Http_Message
begin

text \<open>
  http_tool.h and http_tool.cc: what \<open>HttpParserImpl\<close> does around http_parser and libcurl.
  Those libraries are parameters: one run of \<open>http_parser_execute\<close> is the list of callbacks
  it makes and what it leaves in the parser object; \<open>http_parser_parse_url\<close> says where the
  parts of a URL are; \<open>curl_unescape\<close> is a function on strings.
\<close>

section \<open>The libraries\<close>

datatype parser_event = OnUrl string | OnHeaderField string | OnHeaderValue string | OnBody string

datatype hp_method = HTTP_GET | HTTP_POST | HTTP_OTHER

record parser_run =
  events :: "parser_event list"
  nparsed :: nat
  hp_method :: hp_method
  status_code :: nat

datatype url_field = UF_SCHEMA | UF_HOST | UF_PORT | UF_PATH | UF_QUERY | UF_FRAGMENT | UF_USERINFO

type_synonym parsed_url = "url_field \<Rightarrow> (nat \<times> nat) option"

text \<open>The codes of \<open>HttpParseCode\<close>; the last enumerator follows -2, so it is -1 again.\<close>

definition HPC_OK :: int where
  "HPC_OK = 0"

definition HPC_NOT_HTTP :: int where
  "HPC_NOT_HTTP = -1"

definition HPC_NOT_COMPLETE_HTTP :: int where
  "HPC_NOT_COMPLETE_HTTP = -2"

definition HPC_UNKNOWN :: int where
  "HPC_UNKNOWN = -1"

section \<open>URLs\<close>

definition substr :: "string \<Rightarrow> nat \<Rightarrow> nat \<Rightarrow> string" where
  "substr s off len = take len (drop off s)"

text \<open>The macro \<open>has_and_set\<close>.\<close>

definition has_and_set :: "parsed_url \<Rightarrow> url_field \<Rightarrow> string \<Rightarrow> string \<Rightarrow> string" where
  "has_and_set hp f s old = (case hp f of Some (off, len) \<Rightarrow> substr s off len | None \<Rightarrow> old)"

text \<open>The loop over the query string.\<close>

fun set_query_params :: "(string \<Rightarrow> string) \<Rightarrow> string list \<Rightarrow> headers \<Rightarrow> headers" where
  "set_query_params unescape [] ps = ps"
| "set_query_params unescape (item # items) ps =
     (let kv = Split item CHR ''='' in
      set_query_params unescape items
        (if length kv < 2 then ps else AList.update (unescape (kv ! 0)) (unescape (kv ! 1)) ps))"

text \<open>
  The port: \<open>std::stoul\<close> stored in a \<open>uint32_t\<close>, or the default of the schema.  \<open>None\<close> when
  \<open>std::stoul\<close> throws.
\<close>

definition url_port :: "parsed_url \<Rightarrow> string \<Rightarrow> string \<Rightarrow> u32 option" where
  "url_port hp s sch =
     (case hp UF_PORT of
        Some (off, len) \<Rightarrow> map_option ucast (stoul (substr s off len))
      | None \<Rightarrow> Some (if hp UF_SCHEMA \<noteq> None then (if sch = ''http'' then 80 else 443) else 80))"

text \<open>
  \<open>ParseUrl\<close> writes into an existing URL.  \<open>std::string(&s[off], slen - off - 1)\<close> throws when
  the subtraction wraps.
\<close>

definition ParseUrl :: "(string \<Rightarrow> parsed_url option) \<Rightarrow> (string \<Rightarrow> string) \<Rightarrow> string \<Rightarrow> URL \<Rightarrow> (int \<times> URL) option" where
  "ParseUrl parse_url unescape s url =
     (case parse_url s of
        None \<Rightarrow> Some (-1, url)
      | Some hp \<Rightarrow>
          (let u1 = url\<lparr>schema := has_and_set hp UF_SCHEMA s (schema url),
                         host := has_and_set hp UF_HOST s (host url)\<rparr> in
           case url_port hp s (schema u1) of
             None \<Rightarrow> None
           | Some p \<Rightarrow>
               (let u2 = u1\<lparr>port := p, path := has_and_set hp UF_PATH s (path u1)\<rparr>;
                    slen = length s in
                case (case hp UF_PATH of
                        None \<Rightarrow> Some (uri u2)
                      | Some (off, len) \<Rightarrow> if off + 1 \<le> slen then Some (substr s off (slen - off - 1)) else None) of
                  None \<Rightarrow> None
                | Some v \<Rightarrow>
                    (let u3 = u2\<lparr>uri := if v = [] then ''/'' else v,
                                 query := has_and_set hp UF_QUERY s (query u2),
                                 fragment := has_and_set hp UF_FRAGMENT s (fragment u2),
                                 userinfo := has_and_set hp UF_USERINFO s (userinfo u2)\<rparr>
                     in Some (0, u3\<lparr>query_params :=
                          set_query_params unescape (Split (query u3) CHR ''&'') (query_params u3)\<rparr>)))))"

section \<open>Callbacks\<close>

text \<open>\<open>HttpParserParam\<close>: the message that is filled and the header texts in order.\<close>

record 'm parser_param =
  http_struct :: 'm
  param_headers :: "string list"

definition header_field_cb :: "string \<Rightarrow> 'm parser_param \<Rightarrow> 'm parser_param" where
  "header_field_cb s t = t\<lparr>param_headers := param_headers t @ [s]\<rparr>"

definition header_value_cb :: "string \<Rightarrow> 'm parser_param \<Rightarrow> 'm parser_param" where
  "header_value_cb s t = t\<lparr>param_headers := param_headers t @ [s]\<rparr>"

text \<open>The result code of \<open>ParseUrl\<close> is ignored.\<close>

definition request_url_cb :: "(string \<Rightarrow> parsed_url option) \<Rightarrow> (string \<Rightarrow> string) \<Rightarrow> string \<Rightarrow>
    http_request parser_param \<Rightarrow> http_request parser_param option" where
  "request_url_cb parse_url unescape s t =
     (let r = SetUri s (http_struct t) in
      case ParseUrl parse_url unescape (struri r) (uri_obj r) of
        None \<Rightarrow> None
      | Some (_, u) \<Rightarrow> Some (t\<lparr>http_struct := r\<lparr>uri_obj := u\<rparr>\<rparr>))"

definition request_body_cb :: "string \<Rightarrow> http_request parser_param \<Rightarrow> http_request parser_param" where
  "request_body_cb s t = t\<lparr>http_struct := rq_SetContent s (http_struct t)\<rparr>"

definition response_body_cb :: "string \<Rightarrow> http_response parser_param \<Rightarrow> http_response parser_param" where
  "response_body_cb s t = t\<lparr>http_struct := rs_SetContent s (http_struct t)\<rparr>"

text \<open>The results of \<open>header_complete_cb\<close> and \<open>http_complete\<close>, which tell http_parser how to go on.\<close>

definition header_complete_cb :: int where
  "header_complete_cb = 2"

definition http_complete :: int where
  "http_complete = -1"

text \<open>The callbacks a run makes, for the settings of each parsing function.\<close>

fun run_request :: "(string \<Rightarrow> parsed_url option) \<Rightarrow> (string \<Rightarrow> string) \<Rightarrow> bool \<Rightarrow> parser_event list \<Rightarrow>
    http_request parser_param \<Rightarrow> http_request parser_param option" where
  "run_request parse_url unescape body [] t = Some t"
| "run_request parse_url unescape body (OnUrl s # es) t =
     (case request_url_cb parse_url unescape s t of
        None \<Rightarrow> None
      | Some t1 \<Rightarrow> run_request parse_url unescape body es t1)"
| "run_request parse_url unescape body (OnHeaderField s # es) t =
     run_request parse_url unescape body es (header_field_cb s t)"
| "run_request parse_url unescape body (OnHeaderValue s # es) t =
     run_request parse_url unescape body es (header_value_cb s t)"
| "run_request parse_url unescape body (OnBody s # es) t =
     run_request parse_url unescape body es (if body then request_body_cb s t else t)"

fun run_response :: "parser_event list \<Rightarrow> http_response parser_param \<Rightarrow> http_response parser_param" where
  "run_response [] t = t"
| "run_response (OnUrl s # es) t = run_response es t"
| "run_response (OnHeaderField s # es) t = run_response es (header_field_cb s t)"
| "run_response (OnHeaderValue s # es) t = run_response es (header_value_cb s t)"
| "run_response (OnBody s # es) t = run_response es (response_body_cb s t)"

text \<open>
  The loop \<open>for (i = 0; i < size; i += 2) SetHeader(headers[i], headers[i + 1])\<close>, for fewer than
  \<open>2\<^sup>3\<^sup>2\<close> header texts, so that the \<open>uint32_t\<close> holds their number.
\<close>

fun set_headers :: "(string \<Rightarrow> string \<Rightarrow> 'm \<Rightarrow> 'm) \<Rightarrow> string list \<Rightarrow> 'm \<Rightarrow> 'm" where
  "set_headers setter (f # v # hs) m = set_headers setter hs (setter f v m)"
| "set_headers setter hs m = m"

section \<open>Parsing\<close>

definition tolower :: "char \<Rightarrow> char" where
  "tolower c = (let n = of_char c :: nat in if 65 \<le> n \<and> n \<le> 90 then char_of (n + 32) else c)"

definition method_of :: "hp_method \<Rightarrow> u8" where
  "method_of m =
     (case m of HTTP_GET \<Rightarrow> HTTP_REQUEST_METHOD_GET | HTTP_POST \<Rightarrow> HTTP_REQUEST_METHOD_POST
      | HTTP_OTHER \<Rightarrow> HTTP_REQUEST_METHOD_UNKNOWN)"

text \<open>
  The keep-alive decision at the end of \<open>ParseHttpRequest\<close>: a \<open>Connection\<close> header other than
  \<open>keep-alive\<close> leaves the flag as it was.
\<close>

definition decide_keepalive :: "http_request \<Rightarrow> http_request" where
  "decide_keepalive r =
     (if rq_IsHeader ''Connection'' r
      then if map tolower (rq_GetHeader ''Connection'' r) = ''keep-alive'' then SetKeepAlive True r else r
      else SetKeepAlive True r)"

text \<open>
  \<open>exec\<close> is \<open>http_parser_execute\<close> on a buffer.  \<open>None\<close> as result is an exception; a null
  \<open>http_request\<close> is \<open>None\<close> as argument.
\<close>

definition ParseHttpRequest :: "(string \<Rightarrow> parser_run) \<Rightarrow> (string \<Rightarrow> parsed_url option) \<Rightarrow> (string \<Rightarrow> string) \<Rightarrow>
    string \<Rightarrow> http_request option \<Rightarrow> (int \<times> http_request option) option" where
  "ParseHttpRequest exec parse_url unescape httpbuf req =
     (case req of
        None \<Rightarrow> Some (0, None)
      | Some r \<Rightarrow>
          (let run = exec httpbuf in
           case run_request parse_url unescape True (events run) \<lparr>http_struct = r, param_headers = []\<rparr> of
             None \<Rightarrow> None
           | Some hpp \<Rightarrow>
               (let r1 = http_struct hpp; hs = param_headers hpp in
                if nparsed run \<noteq> length httpbuf then Some (-1, Some r1)
                else if odd (length hs) then Some (-2, Some r1)
                else let r2 = SetMethod (method_of (hp_method run)) (set_headers rq_SetHeader hs r1)
                     in Some (0, Some (decide_keepalive r2)))))"

text \<open>Here \<open>exec\<close> also depends on what \<open>on_headers_complete\<close> returns.\<close>

definition ParseHttpRequestHeadOnly :: "(int \<Rightarrow> string \<Rightarrow> parser_run) \<Rightarrow> (string \<Rightarrow> parsed_url option) \<Rightarrow> (string \<Rightarrow> string) \<Rightarrow>
    string \<Rightarrow> http_request option \<Rightarrow> u32 option \<Rightarrow> (int \<times> http_request option \<times> u32 option) option" where
  "ParseHttpRequestHeadOnly exec parse_url unescape httpbuf req np =
     (case req of
        None \<Rightarrow> Some (0, None, np)
      | Some r \<Rightarrow>
          (let run = exec header_complete_cb httpbuf in
           case run_request parse_url unescape False (events run) \<lparr>http_struct = r, param_headers = []\<rparr> of
             None \<Rightarrow> None
           | Some hpp \<Rightarrow>
               (let r1 = http_struct hpp; hs = param_headers hpp; n = nparsed run in
                if n = 0 then Some (-1, Some r1, np)
                else if odd (length hs) then Some (-2, Some r1, np)
                else Some (0, Some (set_headers rq_SetHeader hs r1), map_option (\<lambda>_. word_of_nat n) np))))"

text \<open>\<open>ParseHttpResponse\<close> aborts when the number of header texts is odd.\<close>

definition ParseHttpResponse :: "(string \<Rightarrow> parser_run) \<Rightarrow> string \<Rightarrow> http_response option \<Rightarrow>
    (int \<times> http_response option) option" where
  "ParseHttpResponse exec httpbuf rsp =
     (case rsp of
        None \<Rightarrow> Some (0, None)
      | Some r \<Rightarrow>
          (let run = exec httpbuf;
               hpp = run_response (events run) \<lparr>http_struct = r, param_headers = []\<rparr>;
               r1 = http_struct hpp; hs = param_headers hpp in
           if nparsed run \<noteq> length httpbuf then Some (-1, Some r1)
           else if odd (length hs) then None
           else Some (0, Some (SetStatus (int (status_code run)) (set_headers rs_SetHeader hs r1)))))"

text \<open>
  \<open>CheckHttp\<close>: \<open>check\<close> is a run with only \<open>on_message_complete\<close> set, given what that callback
  returns; its result is the number of bytes consumed and whether the callback was made.  The
  number is stored in a C int, and widened to \<open>size_t\<close> for the caller.
\<close>

definition CheckHttp :: "(int \<Rightarrow> string \<Rightarrow> nat \<times> bool) \<Rightarrow> string \<Rightarrow> int \<times> u64 option" where
  "CheckHttp check httpbuf =
     (let (n, complete) = check http_complete httpbuf; np = (word_of_nat n :: u32); size = length httpbuf in
      if unat np \<le> size \<and> complete then (HPC_OK, Some (scast np))
      else if np = 0 then (HPC_NOT_HTTP, None)
      else if unat np \<le> size \<and> \<not> complete then (HPC_NOT_COMPLETE_HTTP, None)
      else (HPC_UNKNOWN, None))"

lemmas cb_defs [op_defs] = header_field_cb_def header_value_cb_def request_body_cb_def response_body_cb_def

section \<open>What the callbacks collect\<close>

fun header_texts :: "parser_event list \<Rightarrow> string list" where
  "header_texts [] = []"
| "header_texts (OnHeaderField s # es) = s # header_texts es"
| "header_texts (OnHeaderValue s # es) = s # header_texts es"
| "header_texts (_ # es) = header_texts es"

fun bodies :: "parser_event list \<Rightarrow> string list" where
  "bodies [] = []"
| "bodies (OnBody s # es) = s # bodies es"
| "bodies (_ # es) = bodies es"

fun fields :: "string list \<Rightarrow> string list" where
  "fields (f # v # hs) = f # fields hs"
| "fields hs = []"

lemma request_url_cb_keeps:
  assumes "request_url_cb pu un s t = Some t'"
  shows "param_headers t' = param_headers t \<and> rq_headers (http_struct t') = rq_headers (http_struct t) \<and>
    rq_content (http_struct t') = rq_content (http_struct t) \<and> keepalive (http_struct t') = keepalive (http_struct t)"
  using assms by (auto simp: request_url_cb_def SetUri_def Let_def split: option.splits)

lemma run_request_collects:
  "run_request pu un b es t = Some t' \<Longrightarrow>
     param_headers t' = param_headers t @ header_texts es \<and>
     keepalive (http_struct t') = keepalive (http_struct t) \<and>
     (f \<noteq> ''Content-Length'' \<longrightarrow>
        map_of (rq_headers (http_struct t')) f = map_of (rq_headers (http_struct t)) f) \<and>
     rq_content (http_struct t') = (if b then last (rq_content (http_struct t) # bodies es) else rq_content (http_struct t))"
proof (induction pu un b es t arbitrary: t' rule: run_request.induct)
  case (2 pu un body s es t)
  from "2.prems" obtain t1 where t1: "request_url_cb pu un s t = Some t1"
    and r: "run_request pu un body es t1 = Some t'" by (auto split: option.splits)
  from "2.IH" [OF t1 r] request_url_cb_keeps [OF t1] show ?case by auto
qed (auto simp: op_defs update_conv')

lemma set_headers_rq:
  "keepalive (set_headers rq_SetHeader hs r) = keepalive r \<and>
   rq_content (set_headers rq_SetHeader hs r) = rq_content r \<and>
   struri (set_headers rq_SetHeader hs r) = struri r \<and>
   (f \<notin> set (fields hs) \<longrightarrow> map_of (rq_headers (set_headers rq_SetHeader hs r)) f = map_of (rq_headers r) f)"
  by (induction hs arbitrary: r rule: fields.induct) (auto simp: rq_SetHeader_def update_conv')

lemma decide_keepalive_keeps:
  "rq_headers (decide_keepalive r) = rq_headers r" "rq_content (decide_keepalive r) = rq_content r"
  "rq_method (decide_keepalive r) = rq_method r" "struri (decide_keepalive r) = struri r"
  "keepalive r \<Longrightarrow> keepalive (decide_keepalive r)"
  by (simp_all add: decide_keepalive_def SetKeepAlive_def)

lemma ParseHttpRequest_cases:
  assumes "ParseHttpRequest exec pu un buf (Some r) = Some (c, req')"
  obtains hpp where
    "run_request pu un True (events (exec buf)) \<lparr>http_struct = r, param_headers = []\<rparr> = Some hpp"
    "c = 0 \<longrightarrow> nparsed (exec buf) = length buf \<and> even (length (param_headers hpp))"
    "req' = Some (if c = 0 then decide_keepalive (SetMethod (method_of (hp_method (exec buf)))
       (set_headers rq_SetHeader (param_headers hpp) (http_struct hpp))) else http_struct hpp)"
  using assms by (auto simp: ParseHttpRequest_def Let_def split: option.splits if_splits)

section \<open>Properties\<close>

text \<open>
  C40: parsing into a request object that was used before keeps its state.  A keep-alive flag that
  is set stays set, whatever the new message says in its \<open>Connection\<close> header, and a header the
  new message does not have keeps the value of the earlier message.
\<close>

theorem request_state_survives:
  assumes "ParseHttpRequest exec pu un buf (Some r) = Some (c, Some r')"
    and "f \<notin> set (fields (header_texts (events (exec buf))))" and "f \<noteq> ''Content-Length''"
  shows "(keepalive r \<longrightarrow> keepalive r') \<and> rq_GetHeader f r' = rq_GetHeader f r"
proof -
  from assms(1) obtain hpp where
    run: "run_request pu un True (events (exec buf)) \<lparr>http_struct = r, param_headers = []\<rparr> = Some hpp"
    and r': "r' = (if c = 0 then decide_keepalive (SetMethod (method_of (hp_method (exec buf)))
       (set_headers rq_SetHeader (param_headers hpp) (http_struct hpp))) else http_struct hpp)"
    by (elim ParseHttpRequest_cases) simp
  from run_request_collects [OF run, of f] assms(2,3) r' set_headers_rq [of "param_headers hpp" "http_struct hpp" f]
  show ?thesis by (auto simp: rq_GetHeader_def SetMethod_def decide_keepalive_keeps)
qed

text \<open>
  Of a body that http_parser delivers in pieces only the last piece is kept: the content
  after parsing is the last piece, and not the body when an earlier piece was not empty.
\<close>

theorem body_pieces_are_overwritten:
  assumes "ParseHttpRequest exec pu un buf (Some r) = Some (c, Some r')"
    and "bodies (events (exec buf)) = pieces @ [piece]"
  shows "rq_content r' = piece \<and> (concat pieces \<noteq> [] \<longrightarrow> rq_content r' \<noteq> concat (bodies (events (exec buf))))"
proof -
  from assms(1) obtain hpp where
    run: "run_request pu un True (events (exec buf)) \<lparr>http_struct = r, param_headers = []\<rparr> = Some hpp"
    and r': "r' = (if c = 0 then decide_keepalive (SetMethod (method_of (hp_method (exec buf)))
       (set_headers rq_SetHeader (param_headers hpp) (http_struct hpp))) else http_struct hpp)"
    by (elim ParseHttpRequest_cases) simp
  from run_request_collects [OF run] assms(2) r' set_headers_rq [of "param_headers hpp" "http_struct hpp"]
  show ?thesis by (auto simp: SetMethod_def decide_keepalive_keeps)
qed

text \<open>
  What http_parser documents for a complete message: the URL, then each header as a field and a
  value, then the body if there is one, with every byte consumed.
\<close>

definition message_events :: "string \<Rightarrow> headers \<Rightarrow> string \<Rightarrow> parser_event list" where
  "message_events u hs b = OnUrl u # concat (map (\<lambda>(f, v). [OnHeaderField f, OnHeaderValue v]) hs) @
     (if b = [] then [] else [OnBody b])"

definition parser_method :: "string \<Rightarrow> hp_method" where
  "parser_method m = (if m = ''GET'' then HTTP_GET else if m = ''POST'' then HTTP_POST else HTTP_OTHER)"

definition parser_reads :: "(string \<Rightarrow> parser_run) \<Rightarrow> string \<Rightarrow> bool" where
  "parser_reads exec s \<longleftrightarrow>
     (case read_request s of None \<Rightarrow> True
      | Some (m, u, hs, b) \<Rightarrow> events (exec s) = message_events u hs b \<and> nparsed (exec s) = length s \<and>
          hp_method (exec s) = parser_method m)"

text \<open>A parser that behaves like this.\<close>

definition plain_parser :: "string \<Rightarrow> parser_run" where
  "plain_parser s =
     (case read_request s of
        None \<Rightarrow> \<lparr>events = [], nparsed = 0, hp_method = HTTP_OTHER, status_code = 0\<rparr>
      | Some (m, u, hs, b) \<Rightarrow> \<lparr>events = message_events u hs b, nparsed = length s,
          hp_method = parser_method m, status_code = 0\<rparr>)"

definition no_url :: "string \<Rightarrow> parsed_url option" where
  "no_url s = None"

lemma plain_parser_reads: "parser_reads plain_parser s"
  by (auto simp: parser_reads_def plain_parser_def split: option.splits)

lemma header_texts_message:
  "header_texts (message_events u hs b) = concat (map (\<lambda>(f, v). [f, v]) hs)"
proof -
  have "header_texts (concat (map (\<lambda>(f, v). [OnHeaderField f, OnHeaderValue v]) hs) @ es) =
      concat (map (\<lambda>(f, v). [f, v]) hs) @ header_texts es" for es
    by (induction hs) auto
  then show ?thesis by (simp add: message_events_def)
qed

lemma bodies_message: "bodies (message_events u hs b) = (if b = [] then [] else [b])"
proof -
  have "bodies (concat (map (\<lambda>(f, v). [OnHeaderField f, OnHeaderValue v]) hs) @ es) = bodies es" for es
    by (induction hs) auto
  then show ?thesis by (simp add: message_events_def)
qed

lemma even_pairs: "even (length (concat (map (\<lambda>(f, v). [f, v]) hs)))"
  by (induction hs) auto

lemma set_headers_pairs:
  "distinct (map fst hs) \<Longrightarrow>
   map_of (rq_headers (set_headers rq_SetHeader (concat (map (\<lambda>(f, v). [f, v]) hs)) r)) f =
     (case map_of hs f of Some v \<Rightarrow> Some v | None \<Rightarrow> map_of (rq_headers r) f)"
proof (induction hs arbitrary: r)
  case (Cons h hs)
  obtain g w where h: "h = (g, w)" by (cases h)
  with Cons.prems have "map_of hs g = None" by (simp add: map_of_eq_None_iff)
  with Cons h show ?case by (auto simp: rq_SetHeader_def update_conv' split: option.splits)
qed simp

lemma run_request_uri:
  "run_request pu un b es t = Some t' \<Longrightarrow> (\<And>u. OnUrl u \<notin> set es) \<Longrightarrow>
     struri (http_struct t') = struri (http_struct t)"
proof (induction pu un b es t rule: run_request.induct)
  case (2 pu un body s es t)
  then show ?case by (metis list.set_intros(1))
qed (auto simp: op_defs)

text \<open>The events behind the URL cannot fail, and add one header for a body.\<close>

lemma run_request_total: "(\<And>u. OnUrl u \<notin> set es) \<Longrightarrow> \<exists>t'. run_request pu un b es t = Some t'"
proof (induction pu un b es t rule: run_request.induct)
  case (2 pu un body s es t)
  then show ?case by (metis list.set_intros(1))
qed auto

lemma run_request_length_header:
  "run_request pu un True es t = Some t' \<Longrightarrow>
     map_of (rq_headers (http_struct t')) ''Content-Length'' =
       (if bodies es = [] then map_of (rq_headers (http_struct t)) ''Content-Length''
        else Some (nat_to_string (length (last (bodies es)))))"
proof (induction pu un True es t rule: run_request.induct)
  case (2 pu un s es t)
  from "2.prems" obtain t1 where t1: "request_url_cb pu un s t = Some t1"
    and r: "run_request pu un True es t1 = Some t'" by (auto split: option.splits)
  from "2.hyps" [OF t1 r] request_url_cb_keeps [OF t1] show ?case by simp
qed (auto simp: op_defs update_conv')

lemma map_of_nonempty_values:
  "distinct (map fst hs) \<Longrightarrow>
   map_of (filter (\<lambda>h. snd h \<noteq> []) hs) f = (case map_of hs f of Some v \<Rightarrow> if v = [] then None else Some v | None \<Rightarrow> None)"
proof (induction hs)
  case (Cons h hs)
  then have "map_of hs (fst h) = None" by (simp add: map_of_eq_None_iff)
  with Cons show ?case by (cases h) auto
qed simp

lemma nat_to_string_nonempty: "nat_to_string n \<noteq> []"
  by (subst nat_to_string.simps) simp

lemma run_message:
  assumes "ParseUrl pu un u URL_ctor \<noteq> None"
  obtains hpp where
    "run_request pu un True (message_events u hs b) \<lparr>http_struct = HttpRequest_ctor, param_headers = []\<rparr> = Some hpp"
    "struri (http_struct hpp) = u" "rq_content (http_struct hpp) = b"
    "param_headers hpp = concat (map (\<lambda>(f, v). [f, v]) hs)"
    "\<And>f. map_of (rq_headers (http_struct hpp)) f =
       (if f = ''Content-Length'' \<and> b \<noteq> [] then Some (nat_to_string (length b)) else None)"
proof -
  let ?t = "\<lparr>http_struct = HttpRequest_ctor, param_headers = []\<rparr>"
  let ?es = "concat (map (\<lambda>(f, v). [OnHeaderField f, OnHeaderValue v]) hs) @ (if b = [] then [] else [OnBody b])"
  from assms obtain t1 where t1: "request_url_cb pu un u ?t = Some t1" "struri (http_struct t1) = u"
    by (auto simp: request_url_cb_def SetUri_def HttpRequest_ctor_def Let_def)
  have n: "OnUrl v \<notin> set ?es" for v by auto
  from run_request_total [OF n] obtain hpp where h: "run_request pu un True ?es t1 = Some hpp" by blast
  have run: "run_request pu un True (message_events u hs b) ?t = Some hpp"
    using t1 h by (simp add: message_events_def)
  have e: "map_of (rq_headers (http_struct hpp)) f =
       (if f = ''Content-Length'' \<and> b \<noteq> [] then Some (nat_to_string (length b)) else None)" for f
    using run_request_collects [OF run, of f] run_request_length_header [OF run]
    by (cases "f = ''Content-Length''") (simp_all add: bodies_message HttpRequest_ctor_def)
  from run_request_collects [OF run] e that [OF run] run_request_uri [OF h n] t1(2) show ?thesis
    by (simp add: bodies_message header_texts_message HttpRequest_ctor_def)
qed

lemma parse_serialized:
  assumes ser: "rq_SerializeToString r = Some s" and reads: "parser_reads exec s"
    and uri: "CHR '' '' \<notin> set (struri r)" "CHR 0x0D \<notin> set (struri r)" "ParseUrl pu un (struri r) URL_ctor \<noteq> None"
    and clean: "\<forall>h \<in> set (rq_headers r). snd h \<noteq> [] \<longrightarrow> clean_header h"
    and dist: "distinct (map fst (rq_headers r))"
    and len: "rq_content r \<noteq> [] \<longrightarrow> rq_GetHeader ''Content-Length'' r = nat_to_string (length (rq_content r))"
  shows "\<exists>r'. ParseHttpRequest exec pu un s (Some HttpRequest_ctor) = Some (0, Some r') \<and>
    rq_method r' = rq_method r \<and> struri r' = struri r \<and> rq_content r' = rq_content r \<and>
    (\<forall>f. rq_GetHeader f r' = rq_GetHeader f r)"
proof -
  let ?hs = "filter (\<lambda>h. snd h \<noteq> []) (rq_headers r)"
  let ?m = "if rq_method r = HTTP_REQUEST_METHOD_GET then ''GET'' else ''POST''"
  from reads read_serialized [OF ser uri(1,2) clean]
  have run: "events (exec s) = message_events (struri r) ?hs (rq_content r)" "nparsed (exec s) = length s"
    "hp_method (exec s) = parser_method ?m" by (simp_all add: parser_reads_def)
  obtain hpp where h: "run_request pu un True (events (exec s)) \<lparr>http_struct = HttpRequest_ctor, param_headers = []\<rparr> = Some hpp"
    "struri (http_struct hpp) = struri r" "rq_content (http_struct hpp) = rq_content r"
    "param_headers hpp = concat (map (\<lambda>(f, v). [f, v]) ?hs)"
    "\<And>f. map_of (rq_headers (http_struct hpp)) f =
       (if f = ''Content-Length'' \<and> rq_content r \<noteq> [] then Some (nat_to_string (length (rq_content r))) else None)"
    unfolding run by (rule run_message [OF uri(3)]) blast
  let ?r2 = "SetMethod (method_of (hp_method (exec s))) (set_headers rq_SetHeader (param_headers hpp) (http_struct hpp))"
  have p: "ParseHttpRequest exec pu un s (Some HttpRequest_ctor) = Some (0, Some (decide_keepalive ?r2))"
    using h(1,4) run(2) even_pairs [of ?hs] by (simp add: ParseHttpRequest_def Let_def)
  have m: "rq_method (decide_keepalive ?r2) = rq_method r"
    using ser run(3) by (auto simp: decide_keepalive_keeps SetMethod_def method_of_def parser_method_def
          rq_SerializeToString_def Let_def split: if_splits)
  have d: "distinct (map fst ?hs)" using dist by (rule distinct_map_filter)
  have g: "rq_GetHeader f (decide_keepalive ?r2) = rq_GetHeader f r" for f
    using set_headers_pairs [OF d, of "http_struct hpp" f] h(4,5) map_of_nonempty_values [OF dist, of f] len
      nat_to_string_nonempty [of "length (rq_content r)"]
    by (auto simp: rq_GetHeader_def decide_keepalive_keeps SetMethod_def split: option.splits if_splits)
  from p m g h(2,3) set_headers_rq [of "param_headers hpp" "http_struct hpp"] show ?thesis
    by (auto simp: decide_keepalive_keeps SetMethod_def)
qed

text \<open>
  C11: parsing undoes serialising.  For a request with one entry per header field, whose texts are
  free of the characters that would be ambiguous and whose body, if any, is announced by its
  length, and a parser that behaves as http_parser documents, \<open>ParseHttpRequest\<close> into a fresh object
  succeeds and gives the same method, URI, body and header values.
\<close>

theorem parse_undoes_serialize:
  assumes ser: "rq_SerializeToString r = Some s" and reads: "parser_reads exec s"
    and uri: "CHR '' '' \<notin> set (struri r)" "CHR 0x0D \<notin> set (struri r)" "ParseUrl pu un (struri r) URL_ctor \<noteq> None"
    and clean: "\<forall>h \<in> set (rq_headers r). snd h \<noteq> [] \<longrightarrow> clean_header h"
    and dist: "distinct (map fst (rq_headers r))"
    and len: "rq_content r \<noteq> [] \<longrightarrow> rq_GetHeader ''Content-Length'' r = nat_to_string (length (rq_content r))"
  shows "\<exists>r'. ParseHttpRequest exec pu un s (Some HttpRequest_ctor) = Some (0, Some r') \<and>
    rq_method r' = rq_method r \<and> struri r' = struri r \<and> rq_content r' = rq_content r \<and>
    (\<forall>f. rq_GetHeader f r' = rq_GetHeader f r)"
  using assms by (rule parse_serialized)

theorem parse_undoes_serialize_witness:
  "\<exists>r'. ParseHttpRequest plain_parser no_url id
      (rq_SerializeToString0 (rq_SetContent ''hi'' (SetUri ''/a'' (SetMethod HTTP_REQUEST_METHOD_POST HttpRequest_ctor))))
      (Some HttpRequest_ctor) = Some (0, Some r') \<and> rq_content r' = ''hi'' \<and> struri r' = ''/a''"
proof -
  define r where "r = rq_SetContent ''hi'' (SetUri ''/a'' (SetMethod HTTP_REQUEST_METHOD_POST HttpRequest_ctor))"
  have d: "nat_to_string 2 = ''2''" by code_simp
  have f: "struri r = ''/a''" "rq_headers r = [(''Content-Length'', ''2'')]" "rq_content r = ''hi''"
    "rq_method r = HTTP_REQUEST_METHOD_POST" "rq_GetHeader ''Content-Length'' r = ''2''"
    by (simp_all add: r_def op_defs HttpRequest_ctor_def d numeral_2_eq_2 [symmetric])
  have s: "rq_SerializeToString r = Some (rq_SerializeToString0 r)"
    by (simp add: rq_SerializeToString0_def rq_SerializeToString_def f HTTP_REQUEST_METHOD_POST_def
          HTTP_REQUEST_METHOD_GET_def Let_def)
  show ?thesis unfolding r_def [symmetric] using parse_undoes_serialize [OF s plain_parser_reads, of no_url id]
    by (auto simp: f clean_header_def ParseUrl_def no_url_def d numeral_2_eq_2 [symmetric])
qed

text \<open>
  The \<open>uri\<close> member of a parsed URL lacks the last character of the URL: it is the text from
  the path on without its last character, and a path of one character is replaced by \<open>/\<close>.
\<close>

theorem ParseUrl_drops_a_character:
  assumes "pu s = Some hp" and "hp UF_PATH = Some (off, len)" and "off < length s"
    and "url_port hp s (has_and_set hp UF_SCHEMA s (schema url)) \<noteq> None"
  shows "\<exists>u. ParseUrl pu un s url = Some (0, u) \<and> path u = substr s off len \<and>
    uri u = (if length (drop off s) = 1 then ''/'' else butlast (drop off s))"
proof -
  have b: "substr s off (length s - off - 1) = butlast (drop off s)"
    by (simp add: substr_def butlast_conv_take)
  have "butlast (drop off s) = [] \<longleftrightarrow> length (drop off s) = 1"
    using assms(3) by (cases "drop off s" rule: rev_cases) auto
  with assms b show ?thesis by (auto simp: ParseUrl_def Let_def has_and_set_def)
qed

theorem ParseUrl_drops_a_character_witness:
  "\<exists>u. ParseUrl (\<lambda>s. Some (Map.empty(UF_PATH \<mapsto> (0, 3)))) id ''/ab'' URL_ctor = Some (0, u) \<and>
     path u = ''/ab'' \<and> uri u = ''/a''"
  using ParseUrl_drops_a_character [of "\<lambda>s. Some (Map.empty(UF_PATH \<mapsto> (0, 3)))" "''/ab''"
      "Map.empty(UF_PATH \<mapsto> (0, 3))" 0 3 URL_ctor id]
  by (simp add: url_port_def substr_def)

lemma ParseUrl_succeeds:
  assumes "pu s = Some hp" and "url_port hp s (has_and_set hp UF_SCHEMA s (schema url)) = Some p"
    and "\<And>off len. hp UF_PATH = Some (off, len) \<Longrightarrow> off < length s"
  shows "\<exists>u. ParseUrl pu un s url = Some (0, u) \<and> schema u = has_and_set hp UF_SCHEMA s (schema url) \<and>
    host u = has_and_set hp UF_HOST s (host url) \<and> port u = p"
proof (cases "hp UF_PATH")
  case None
  with assms(1,2) show ?thesis by (simp add: ParseUrl_def Let_def)
next
  case (Some a)
  obtain off len where "a = (off, len)" by (cases a)
  with Some assms show ?thesis by (simp add: ParseUrl_def Let_def)
qed

definition query_string :: "(string \<Rightarrow> string) \<Rightarrow> headers \<Rightarrow> string" where
  "query_string escape kvs = join CHR ''&'' (map (\<lambda>(k, v). escape k @ CHR ''='' # escape v) kvs)"

text \<open>What an escaping function promises, and a decoder that undoes it.\<close>

definition escapes :: "(string \<Rightarrow> string) \<Rightarrow> (string \<Rightarrow> string) \<Rightarrow> bool" where
  "escapes escape unescape \<longleftrightarrow>
     (\<forall>x. unescape (escape x) = x \<and> CHR ''&'' \<notin> set (escape x) \<and> CHR ''='' \<notin> set (escape x))"

lemma set_query_params_pairs:
  assumes "escapes escape unescape" and "distinct (map fst kvs)" and "\<forall>kv \<in> set kvs. escape (snd kv) \<noteq> []"
  shows "map_of (set_query_params unescape (map (\<lambda>(k, v). escape k @ CHR ''='' # escape v) kvs) ps) k =
    (case map_of kvs k of Some v \<Rightarrow> Some v | None \<Rightarrow> map_of ps k)"
  using assms(2,3)
proof (induction kvs arbitrary: ps)
  case (Cons kv kvs)
  obtain k' v' where kv: "kv = (k', v')" by (cases kv)
  with Cons.prems have n: "map_of kvs k' = None" by (simp add: map_of_eq_None_iff)
  have "Split (join CHR ''='' [escape k', escape v']) CHR ''='' = [escape k', escape v']"
    by (rule Split_join) (use assms(1) Cons.prems kv in \<open>auto simp: escapes_def\<close>)
  with assms(1) kv n Cons show ?case by (auto simp: escapes_def update_conv' split: option.splits)
qed simp


text \<open>Two letters for each character, and back.\<close>

definition nibble :: "nat \<Rightarrow> char" where
  "nibble n = char_of (97 + n)"

fun hex_escape :: "string \<Rightarrow> string" where
  "hex_escape [] = []"
| "hex_escape (c # s) = nibble (of_char c div 16) # nibble (of_char c mod 16) # hex_escape s"

fun hex_unescape :: "string \<Rightarrow> string" where
  "hex_unescape (a # b # s) = char_of ((of_char a - 97) * 16 + (of_char b - 97) :: nat) # hex_unescape s"
| "hex_unescape s = []"

lemma of_char_nibble: "n < 16 \<Longrightarrow> of_char (nibble n) = 97 + n"
  by (simp add: nibble_def)

lemma hex_escapes: "escapes hex_escape hex_unescape"
proof -
  have b: "of_char c div 16 < (16 :: nat)" for c :: char
    using nat_of_char_less_256 [of c] by (simp add: less_mult_imp_div_less)
  have n: "nibble k \<noteq> CHR ''&'' \<and> nibble k \<noteq> CHR ''=''" if "k < 16" for k
  proof -
    have "(of_char (CHR ''&'') :: nat) = 38" "(of_char (CHR ''='') :: nat) = 61" by simp_all
    with of_char_nibble [OF that] show ?thesis by fastforce
  qed
  have "hex_unescape (hex_escape x) = x" for x
    by (induction x) (simp_all add: of_char_nibble b)
  moreover have "CHR ''&'' \<notin> set (hex_escape x) \<and> CHR ''='' \<notin> set (hex_escape x)" for x
    by (induction x) (use n b in \<open>simp_all, metis mod_less_divisor zero_less_numeral\<close>)
  ultimately show ?thesis by (simp add: escapes_def)
qed


theorem request_state_survives_witness:
  "\<exists>r'. ParseHttpRequest (\<lambda>s. \<lparr>events = [OnHeaderField ''Connection'', OnHeaderValue ''close''],
        nparsed = length s, hp_method = HTTP_GET, status_code = 0\<rparr>) no_url id ''x''
      (Some (SetKeepAlive True (rq_SetHeader ''Cookie'' ''secret'' HttpRequest_ctor))) = Some (0, Some r') \<and>
     rq_GetHeader ''Connection'' r' = ''close'' \<and> keepalive r' \<and> rq_GetHeader ''Cookie'' r' = ''secret''"
proof -
  let ?exec = "\<lambda>s. \<lparr>events = [OnHeaderField ''Connection'', OnHeaderValue ''close''],
        nparsed = length (s :: string), hp_method = HTTP_GET, status_code = 0\<rparr>"
  let ?r = "SetKeepAlive True (rq_SetHeader ''Cookie'' ''secret'' HttpRequest_ctor)"
  obtain r' where r': "ParseHttpRequest ?exec no_url id ''x'' (Some ?r) = Some (0, Some r')"
    "rq_GetHeader ''Connection'' r' = ''close''"
    by (simp add: ParseHttpRequest_def op_defs decide_keepalive_def HttpRequest_ctor_def)
  from request_state_survives [OF r'(1), of "''Cookie''"]
  have "keepalive r'" "rq_GetHeader ''Cookie'' r' = ''secret''"
    by (simp_all add: op_defs HttpRequest_ctor_def)
  with r' show ?thesis by blast
qed

theorem body_pieces_are_overwritten_witness:
  "\<exists>r'. ParseHttpRequest (\<lambda>s. \<lparr>events = [OnBody ''ab'', OnBody ''c''], nparsed = length s,
        hp_method = HTTP_POST, status_code = 0\<rparr>) no_url id ''x'' (Some HttpRequest_ctor) = Some (0, Some r') \<and>
     rq_content r' = ''c''"
proof -
  let ?exec = "\<lambda>s. \<lparr>events = [OnBody ''ab'', OnBody ''c''], nparsed = length (s :: string),
        hp_method = HTTP_POST, status_code = 0\<rparr>"
  obtain r' where r': "ParseHttpRequest ?exec no_url id ''x'' (Some HttpRequest_ctor) = Some (0, Some r')"
    by (simp add: ParseHttpRequest_def op_defs HttpRequest_ctor_def Let_def)
  from body_pieces_are_overwritten [OF r', of "[''ab'']" "''c''"] r' show ?thesis by simp
qed

end
