(* ===== verification/Http_Server.thy ===== *)
theory Http_Server
  imports Frame_IO Http_Parser
begin

text \<open>
  http_server.h and http_server.cc: the coroutine that serves one connection.  \<open>http_env\<close> holds
  what is not part of the sources: http_parser, its URL parser, \<open>curl_unescape\<close> and the
  \<open>Serve\<close> function of the derived class.  The loop consumes one script of answers for every
  call of \<open>Frame::recv\<close>.
\<close>

section \<open>State\<close>

record http_env =
  env_check :: "int \<Rightarrow> string \<Rightarrow> nat \<times> bool"
  env_exec :: "string \<Rightarrow> parser_run"
  env_url :: "string \<Rightarrow> parsed_url option"
  env_unescape :: "string \<Rightarrow> string"
  env_Serve :: "http_request \<times> http_response \<times> errno \<times> frame \<Rightarrow> http_request \<times> http_response \<times> errno \<times> frame"

text \<open>The locals \<open>req\<close> and \<open>recvd\<close> of \<open>Run\<close>, the members of \<open>HttpSrvWork\<close>, and the process.\<close>

record http_work =
  req :: string
  recvd :: nat
  hreq :: http_request
  hrsp :: http_response
  work_errno :: errno
  work_frame :: frame

text \<open>
  How \<open>Run\<close> ends: it returns, an exception leaves it, or \<open>Frame::recv\<close> has written behind the
  end of the buffer.
\<close>

datatype run_result = Running | Returned int | Thrown | Overrun

section \<open>Operations\<close>

definition CheckPkg :: "(int \<Rightarrow> string \<Rightarrow> nat \<times> bool) \<Rightarrow> string \<Rightarrow> int" where
  "CheckPkg check buffer =
     (case CheckHttp check buffer of
        (ret, real_len) \<Rightarrow>
          if ret = HPC_OK then (case real_len of Some n \<Rightarrow> sint (ucast n :: 32 word) | None \<Rightarrow> 0)
          else if ret = HPC_NOT_COMPLETE_HTTP then 0
          else -1)"

text \<open>\<open>std::string::resize\<close> to a larger size, which appends null characters.\<close>

definition resize :: "nat \<Rightarrow> string \<Rightarrow> string" where
  "resize n s = s @ replicate (n - length s) (CHR 0x00)"

definition grow :: "http_work \<Rightarrow> http_work" where
  "grow st = (if recvd st = length (req st) then st\<lparr>req := resize (length (req st) * 2) (req st)\<rparr> else st)"

text \<open>The third argument of \<open>Frame::recv\<close>, a difference of two \<open>size_t\<close>.\<close>

definition room :: "http_work \<Rightarrow> nat" where
  "room st = unat (word_of_nat (length (req st)) - word_of_nat (recvd st) :: u64)"

definition overwrite :: "string \<Rightarrow> nat \<Rightarrow> string \<Rightarrow> string" where
  "overwrite s i d = take i s @ d @ drop (i + length d) s"

text \<open>What is done with a complete package of \<open>nparsed\<close> bytes.\<close>

definition process_pkg :: "http_env \<Rightarrow> nat \<Rightarrow> http_work \<Rightarrow> http_work \<times> run_result" where
  "process_pkg env n st =
     (case ParseHttpRequest (env_exec env) (env_url env) (env_unescape env) (take n (req st)) (Some (hreq st)) of
        Some (ret, Some q) \<Rightarrow>
          (if ret = 0 then
             (case env_Serve env (q, hrsp st, work_errno st, work_frame st) of
                (q1, p1, e1, s1) \<Rightarrow>
                  (let st1 = st\<lparr>hreq := q1, hrsp := p1, work_errno := e1, work_frame := s1\<rparr>;
                       st2 = (if recvd st1 > n then st1\<lparr>req := drop n (req st1)\<rparr>
                              else if recvd st1 = n then st1\<lparr>recvd := 0\<rparr> else st1)
                   in (st2, if keepalive (hreq st2) then Running else Returned 0)))
           else (st\<lparr>hreq := q\<rparr>, Returned (-69)))
      | _ \<Rightarrow> (st, Thrown))"

text \<open>One round of the loop of \<open>Run\<close>; \<open>None\<close> while \<open>Frame::recv\<close> has not returned.\<close>

definition run_round :: "http_env \<Rightarrow> int \<Rightarrow> char list answer list \<Rightarrow> http_work \<Rightarrow> (http_work \<times> run_result) option" where
  "run_round env sockfd w st0 =
     (let st = grow st0 in
      case recv sockfd (room st) w (work_errno st) (work_frame st) of
        None \<Rightarrow> None
      | Some (ret, e1, d, s1) \<Rightarrow>
          (let st1 = st\<lparr>work_errno := e1, work_frame := s1\<rparr> in
           if ret > 0 then
             (if recvd st1 + length d > length (req st1) then Some (st1, Overrun)
              else
                let st2 = st1\<lparr>req := overwrite (req st1) (recvd st1) d, recvd := recvd st1 + length d\<rparr>;
                    nparsed = CheckPkg (env_check env) (take (unat (word_of_nat (recvd st2) :: u32)) (req st2))
                in if nparsed > 0 then Some (process_pkg env (nat nparsed) st2)
                   else if nparsed = 0 then Some (st2, Running)
                   else Some (st2, Returned (-74)))
           else if ret = 0 then Some (st1, Returned (-77))
           else Some (st1, Returned (-79))))"

fun run_loop :: "http_env \<Rightarrow> int \<Rightarrow> char list answer list list \<Rightarrow> http_work \<Rightarrow> http_work \<times> run_result" where
  "run_loop env sockfd [] st = (st, Running)"
| "run_loop env sockfd (w # ws) st =
     (case run_round env sockfd w st of
        None \<Rightarrow> (st, Running)
      | Some (st1, Running) \<Rightarrow> run_loop env sockfd ws st1
      | Some (st1, r) \<Rightarrow> (st1, r))"

definition HttpSrvWork_Run :: "http_env \<Rightarrow> int \<Rightarrow> char list answer list list \<Rightarrow> http_request \<Rightarrow> http_response \<Rightarrow> errno \<Rightarrow>
    frame \<Rightarrow> http_work \<times> run_result" where
  "HttpSrvWork_Run env sockfd ws q p e s =
     run_loop env sockfd ws \<lparr>req = resize 512 [], recvd = 0, hreq = q, hrsp = p, work_errno = e, work_frame = s\<rparr>"

definition HttpSrvWork_Reply :: "int \<Rightarrow> nat answer list \<Rightarrow> http_request \<Rightarrow> http_response \<Rightarrow> errno \<Rightarrow> frame \<Rightarrow>
    (http_response \<times> (int \<times> errno \<times> char list \<times> frame) option)" where
  "HttpSrvWork_Reply sockfd w q p e s =
     (let p1 = (if rq_IsHeader ''Connection'' q then rs_SetHeader ''Connection'' (rq_GetHeader ''Connection'' q) p else p)
      in (p1, send sockfd (rs_SerializeToString p1) w e s))"

section \<open>Receiving\<close>

text \<open>The buffer holds exactly the bytes that have arrived since the last request.\<close>

definition collected :: "string \<Rightarrow> http_work \<Rightarrow> bool" where
  "collected acc st \<longleftrightarrow> take (recvd st) (req st) = acc \<and> length acc = recvd st \<and>
     recvd st \<le> length (req st) \<and> req st \<noteq> [] \<and> 2 * length (req st) < 2 ^ 32"

text \<open>
  Pieces in which a stream can arrive: each is as long as \<open>Frame::recv\<close> allows at most, with
  a buffer of \<open>sz\<close> bytes of which \<open>n\<close> are used, and in all the buffer stays below 2 GiB.
\<close>

fun fits :: "nat \<Rightarrow> nat \<Rightarrow> string list \<Rightarrow> bool" where
  "fits sz n [] \<longleftrightarrow> 2 * sz < 2 ^ 32"
| "fits sz n (c # cs) \<longleftrightarrow>
     (let sz' = if n = sz then 2 * sz else sz in
      2 * sz < 2 ^ 32 \<and> c \<noteq> [] \<and> length c \<le> sz' - n \<and> fits sz' (n + length c) cs)"

lemma grow_collected:
  assumes "collected acc st"
  shows "take (recvd (grow st)) (req (grow st)) = acc" and "recvd (grow st) = length acc"
    and "length (req (grow st)) = (if recvd st = length (req st) then 2 * length (req st) else length (req st))"
    and "recvd (grow st) < length (req (grow st))"
  using assms by (auto simp: collected_def grow_def resize_def)

lemma room_eq: "recvd st \<le> length (req st) \<Longrightarrow> length (req st) < 2 ^ 64 \<Longrightarrow> room st = length (req st) - recvd st"
  unfolding room_def by (rule unat_of_nat_diff) simp_all

lemma overwrite_take: "i + length d \<le> length s \<Longrightarrow> take (i + length d) (overwrite s i d) = take i s @ d"
  by (simp add: overwrite_def)

lemma length_overwrite: "i + length d \<le> length s \<Longrightarrow> length (overwrite s i d) = length s"
  by (simp add: overwrite_def)

lemma ucast_scast_32: "ucast (scast (w :: u32) :: u64) = w"
proof (rule bit_word_eqI)
  fix n assume "n < LENGTH(32)"
  then have "n \<le> 31" by simp
  then have "n = 31 \<or> n < 31" by linarith
  then show "bit (ucast (scast w :: u64) :: u32) n = bit w n"
    by (auto simp: bit_ucast_iff bit_signed_iff min_def)
qed

text \<open>
  \<open>CheckPkg\<close> gives the length of a complete message, 0 for the beginning of one and -1 otherwise,
  for what http_parser can report on a buffer below 2 GiB.
\<close>

lemma CheckPkg_eq:
  assumes "check http_complete s = (n, complete)" and "n \<le> length s" and "length s < 2 ^ 31"
  shows "CheckPkg check s = (if complete then int n else if n = 0 then -1 else 0)"
proof -
  have n: "n < 2 ^ 31" using assms(2,3) by simp
  then have u: "unat (word_of_nat n :: u32) = n" by (intro unat_of_nat_small) simp
  then have z: "(word_of_nat n :: u32) = 0 \<longleftrightarrow> n = 0" by (simp only: unat_eq_zero [symmetric])
  have "sint (word_of_nat n :: u32) = int n" using size_to_int_small [OF n] by (simp only: size_to_int_def)
  with assms u z show ?thesis
    by (simp add: CheckPkg_def CheckHttp_def HPC_OK_def HPC_NOT_HTTP_def HPC_NOT_COMPLETE_HTTP_def ucast_scast_32)
qed

definition same_objects :: "http_work \<Rightarrow> http_work \<Rightarrow> bool" where
  "same_objects st st' \<longleftrightarrow> hreq st' = hreq st \<and> hrsp st' = hrsp st \<and> work_errno st' = work_errno st \<and>
     work_frame st' = work_frame st"

text \<open>The buffer has been doubled some number of times.\<close>

definition doubled :: "http_work \<Rightarrow> http_work \<Rightarrow> bool" where
  "doubled st st' \<longleftrightarrow> (\<exists>j. length (req st') = length (req st) * 2 ^ j)"

lemma doubled_refl: "doubled st st"
  unfolding doubled_def by (rule exI [of _ 0]) simp

lemma doubled_trans: "doubled st st1 \<Longrightarrow> doubled st1 st2 \<Longrightarrow> doubled st st2"
  by (metis doubled_def mult.assoc power_add)

text \<open>Pieces that fit a buffer fit one that has been doubled before.\<close>

lemma fits_larger:
  "fits sz n cs \<Longrightarrow> n \<le> sz \<Longrightarrow> 2 * (sz * 2 ^ j) < 2 ^ 32 \<Longrightarrow> fits (sz * 2 ^ j) n cs"
proof (induction cs arbitrary: sz n j)
  case (Cons c cs)
  let ?sz = "if n = sz then 2 * sz else sz"
  have c: "c \<noteq> []" "length c \<le> ?sz - n" "fits ?sz (n + length c) cs" "2 * sz < 2 ^ 32" using Cons.prems(1) by (simp_all add: Let_def split: if_splits)
  show ?case
  proof (cases "j = 0")
    case True
    then show ?thesis using Cons.prems(1) by simp
  next
    case False
    then have "1 < (2 :: nat) ^ j" by (intro one_less_power) simp_all
    moreover have "sz \<noteq> 0" using c(1,2) Cons.prems(2) length_greater_0_conv [of c] by (auto simp del: length_greater_0_conv split: if_splits)
    ultimately have lt: "n < sz * 2 ^ j" using Cons.prems(2) by (simp add: le_less_trans)
    define k where "k = (if n = sz then j - 1 else j)"
    have k: "sz * 2 ^ j = ?sz * 2 ^ k" using False by (cases j) (auto simp: k_def)
    have "n + length c \<le> ?sz" using c(2) Cons.prems(2) by (auto split: if_splits)
    then have "fits (?sz * 2 ^ k) (n + length c) cs" using Cons.IH [OF c(3)] Cons.prems(3) k by metis
    moreover have "?sz \<le> ?sz * 2 ^ k" by simp
    then have "length c \<le> sz * 2 ^ j - n" using c(2) unfolding k by linarith
    ultimately show ?thesis using lt c(1) Cons.prems(3) unfolding k [symmetric] by (simp add: Let_def)
  qed
qed simp

text \<open>A piece that fits is appended to what has been collected.\<close>

lemma run_round_piece:
  assumes col: "collected acc st" and fit: "fits (length (req st)) (recvd st) (c # cs)"
  obtains st' where "collected (acc @ c) st'" "fits (length (req st')) (recvd st') cs"
    "same_objects st st'"
    "length (req st') = (if recvd st = length (req st) then 2 * length (req st) else length (req st))" "doubled st st'"
    "run_round env fd [Ok c] st =
       (let n = CheckPkg (env_check env) (acc @ c) in
        if n > 0 then Some (process_pkg env (nat n) st')
        else if n = 0 then Some (st', Running) else Some (st', Returned (-74)))"
proof -
  let ?g = "grow st"
  let ?st = "?g\<lparr>req := overwrite (req ?g) (recvd ?g) c, recvd := recvd ?g + length c\<rparr>"
  note g = grow_collected [OF col]
  have fr: "hreq ?g = hreq st" "hrsp ?g = hrsp st" "work_errno ?g = work_errno st" "work_frame ?g = work_frame st"
    "recvd ?g = recvd st"
    by (simp_all add: grow_def)
  have small: "length (req ?g) < 2 ^ 32" using col g(3) by (auto simp: collected_def split: if_splits)
  have le: "recvd ?g + length c \<le> length (req ?g)" "c \<noteq> []" "length c \<le> length (req ?g) - recvd ?g"
    and fit': "fits (length (req ?g)) (recvd st + length c) cs"
    using fit g fr by (auto simp: Let_def split: if_splits)
  have room: "room ?g = length (req ?g) - recvd ?g"
    by (rule room_eq) (use le(1) small in auto)
  have sz: "2 * length (req ?g) < 2 ^ 32" using fit' by (cases cs) (auto simp: Let_def)
  have len: "length (overwrite (req ?g) (recvd ?g) c) = length (req ?g)"
    and buf: "take (recvd ?g + length c) (overwrite (req ?g) (recvd ?g) c) = acc @ c"
    using le(1) g(1) by (simp_all add: length_overwrite overwrite_take)
  have "req ?st \<noteq> []" using len le by auto
  with sz len buf le g(2) have c: "collected (acc @ c) ?st" by (simp add: collected_def)
  have u: "unat (word_of_nat (recvd ?g + length c) :: u32) = recvd ?g + length c"
    using le(1) small by (intro unat_of_nat_small) simp
  have "run_round env fd [Ok c] st =
       (let n = CheckPkg (env_check env) (acc @ c) in
        if n > 0 then Some (process_pkg env (nat n) ?st)
        else if n = 0 then Some (?st, Running) else Some (?st, Returned (-74)))"
    using room le u buf g(4) by (simp add: run_round_def Let_def del: of_nat_add)
  moreover have "doubled st ?st"
    unfolding doubled_def by (rule exI [of _ "if recvd st = length (req st) then 1 else 0"]) (simp add: len g(3))
  ultimately show thesis using fr fit' len g(3) by (intro that [OF c]) (simp_all add: same_objects_def)
qed

lemma run_loop_pieces:
  assumes "collected acc st" and "fits (length (req st)) (recvd st) (cs @ ds)"
    and "\<And>i. 0 < i \<Longrightarrow> i \<le> length cs \<Longrightarrow> CheckPkg (env_check env) (acc @ concat (take i cs)) = 0"
  shows "\<exists>st'. collected (acc @ concat cs) st' \<and> fits (length (req st')) (recvd st') ds \<and> same_objects st st' \<and> doubled st st' \<and>
    run_loop env fd (map (\<lambda>c. [Ok c]) cs @ ws) st = run_loop env fd ws st'"
  using assms
proof (induction cs arbitrary: acc st)
  case Nil
  then show ?case by (intro exI [of _ st]) (simp add: same_objects_def doubled_refl)
next
  case (Cons c cs)
  obtain st1 where st1: "collected (acc @ c) st1" "fits (length (req st1)) (recvd st1) (cs @ ds)"
    "same_objects st st1" "doubled st st1"
    "run_round env fd [Ok c] st =
       (let n = CheckPkg (env_check env) (acc @ c) in
        if n > 0 then Some (process_pkg env (nat n) st1)
        else if n = 0 then Some (st1, Running) else Some (st1, Returned (-74)))"
    using Cons.prems(2) unfolding append_Cons by (rule run_round_piece [OF Cons.prems(1), where env = env and fd = fd])
  have n: "CheckPkg (env_check env) (acc @ c) = 0" using Cons.prems(3) [of 1] by simp
  have "CheckPkg (env_check env) ((acc @ c) @ concat (take i cs)) = 0" if "0 < i" "i \<le> length cs" for i
    using Cons.prems(3) [of "Suc i"] that by simp
  from Cons.IH [OF st1(1,2) this] obtain st' where "collected (acc @ concat (c # cs)) st'"
    "fits (length (req st')) (recvd st') ds" "same_objects st1 st'" "doubled st1 st'"
    "run_loop env fd (map (\<lambda>c. [Ok c]) cs @ ws) st1 = run_loop env fd ws st'" by auto
  with st1(3-5) n doubled_trans [OF st1(4)] show ?case by (intro exI [of _ st']) (simp add: same_objects_def)
qed

lemma length_resize: "length (resize n []) = n"
  by (simp add: resize_def)

lemma collected_start:
  "collected [] \<lparr>req = resize 512 [], recvd = 0, hreq = q, hrsp = p, work_errno = e, work_frame = s\<rparr>"
  by (auto simp: collected_def length_resize length_0_conv [symmetric] simp del: length_0_conv)

section \<open>Properties\<close>

text \<open>One request, from any state with an empty buffer.\<close>

lemma run_loop_request:
  assumes col: "collected [] st" and fit: "fits (length (req st)) 0 (cs @ [c])"
    and more: "\<forall>i. 0 < i \<and> i \<le> length cs \<longrightarrow> CheckPkg (env_check env) (concat (take i cs)) = 0"
    and whole: "CheckPkg (env_check env) (concat (cs @ [c])) = int (length (concat (cs @ [c])))"
    and parse: "ParseHttpRequest (env_exec env) (env_url env) (env_unescape env) (concat (cs @ [c])) (Some (hreq st)) = Some (0, Some q1)"
    and serve: "env_Serve env (q1, hrsp st, work_errno st, work_frame st) = (q2, p2, e2, s2)"
  shows "\<exists>st'. collected [] st' \<and> doubled st st' \<and> hreq st' = q2 \<and> hrsp st' = p2 \<and> work_errno st' = e2 \<and> work_frame st' = s2 \<and>
    run_loop env fd (map (\<lambda>c. [Ok c]) (cs @ [c]) @ ws) st = (if keepalive q2 then run_loop env fd ws st' else (st', Returned 0))"
proof -
  let ?all = "concat (cs @ [c])"
  have z: "recvd st = 0" using col by (simp add: collected_def)
  obtain st1 where st1: "collected (concat cs) st1" "fits (length (req st1)) (recvd st1) [c]" "same_objects st st1" "doubled st st1"
    "run_loop env fd (map (\<lambda>c. [Ok c]) cs @ [Ok c] # ws) st = run_loop env fd ([Ok c] # ws) st1"
    using run_loop_pieces [OF col, where cs = cs and ds = "[c]" and ws = "[Ok c] # ws" and env = env and fd = fd] fit more z by auto
  obtain st2 where st2: "collected ?all st2" "same_objects st1 st2" "doubled st1 st2"
    "run_round env fd [Ok c] st1 =
       (let n = CheckPkg (env_check env) (concat cs @ c) in
        if n > 0 then Some (process_pkg env (nat n) st2)
        else if n = 0 then Some (st2, Running) else Some (st2, Returned (-74)))"
    by (rule run_round_piece [OF st1(1,2), where env = env and fd = fd]) simp
  have c: "c \<noteq> []" using st1(2) by (simp add: Let_def)
  let ?st = "st2\<lparr>recvd := 0, hreq := q2, hrsp := p2, work_errno := e2, work_frame := s2\<rparr>"
  have b: "take (length ?all) (req st2) = ?all" "recvd st2 = length ?all" using st2(1) by (auto simp: collected_def)
  have "process_pkg env (length ?all) st2 = (?st, if keepalive q2 then Running else Returned 0)"
    using b parse serve st1(3) st2(2) by (simp add: process_pkg_def same_objects_def)
  moreover have "0 < int (length ?all)" "nat (int (length ?all)) = length ?all" using c by (simp_all add: add_nonneg_pos)
  ultimately have "run_round env fd [Ok c] st1 = Some (?st, if keepalive q2 then Running else Returned 0)"
    using st2(4) whole by (simp only: concat_append concat.simps append_Nil2 Let_def if_True)
  moreover have "collected [] ?st" using st2(1) by (simp add: collected_def)
  moreover have "doubled st ?st" using doubled_trans [OF st1(4) st2(3)] by (simp add: doubled_def)
  ultimately show ?thesis using st1(5) by (intro exI [of _ ?st]) simp
qed

lemma run_reassembles:
  assumes fit: "fits 512 0 (cs @ [c])"
    and more: "\<forall>i. 0 < i \<and> i \<le> length cs \<longrightarrow> CheckPkg (env_check env) (concat (take i cs)) = 0"
    and whole: "CheckPkg (env_check env) (concat (cs @ [c])) = int (length (concat (cs @ [c])))"
    and parse: "ParseHttpRequest (env_exec env) (env_url env) (env_unescape env) (concat (cs @ [c])) (Some q) = Some (0, Some q1)"
    and serve: "env_Serve env (q1, p, e, s) = (q2, p2, e2, s2)"
  shows "\<exists>st. collected [] st \<and> hreq st = q2 \<and> hrsp st = p2 \<and> work_errno st = e2 \<and> work_frame st = s2 \<and>
    HttpSrvWork_Run env fd (map (\<lambda>c. [Ok c]) (cs @ [c]) @ ws) q p e s =
      (if keepalive q2 then run_loop env fd ws st else (st, Returned 0))"
  using run_loop_request [OF collected_start [of q p e s] _ more whole] assms unfolding HttpSrvWork_Run_def
  by (fastforce simp: length_resize)

text \<open>
  A request that arrives in pieces is put together.  For any cut of the stream into pieces
  that \<open>Frame::recv\<close> can deliver, when http_parser finds the message complete with the last piece
  and not before, the server parses exactly the concatenation, calls \<open>Serve\<close> once with the parsed
  request, and then either returns 0 or is ready for the next request with an empty buffer.
\<close>

theorem request_reassembled:
  assumes fit: "fits 512 0 (cs @ [c])"
    and more: "\<forall>i. 0 < i \<and> i \<le> length cs \<longrightarrow> CheckPkg (env_check env) (concat (take i cs)) = 0"
    and whole: "CheckPkg (env_check env) (concat (cs @ [c])) = int (length (concat (cs @ [c])))"
    and parse: "ParseHttpRequest (env_exec env) (env_url env) (env_unescape env) (concat (cs @ [c])) (Some q) = Some (0, Some q1)"
    and serve: "env_Serve env (q1, p, e, s) = (q2, p2, e2, s2)"
  shows "\<exists>st. collected [] st \<and> hreq st = q2 \<and> hrsp st = p2 \<and> work_errno st = e2 \<and> work_frame st = s2 \<and>
    HttpSrvWork_Run env fd (map (\<lambda>c. [Ok c]) (cs @ [c]) @ ws) q p e s =
      (if keepalive q2 then run_loop env fd ws st else (st, Returned 0))"
  using assms by (rule run_reassembles)

lemma room_pos:
  assumes "recvd st \<noteq> length (req st)" and "recvd st < 2 ^ 64" and "length (req st) < 2 ^ 64"
  shows "0 < room st"
proof -
  have "unat (word_of_nat (length (req st)) :: u64) = length (req st)" "unat (word_of_nat (recvd st) :: u64) = recvd st"
    using assms(2,3) by (simp_all add: unat_of_nat_small)
  with assms(1) have "word_of_nat (length (req st)) \<noteq> (word_of_nat (recvd st) :: u64)" by metis
  then show ?thesis by (simp add: room_def unat_gt_0)
qed

text \<open>The rest of the buffer is moved to the front and \<open>recvd\<close> stays.\<close>

lemma process_pkg_rest:
  assumes "n < recvd st" and "env_Serve env (q1, hrsp st, work_errno st, work_frame st) = (q2, p2, e2, s2)"
    and "ParseHttpRequest (env_exec env) (env_url env) (env_unescape env) (take n (req st)) (Some (hreq st)) = Some (0, Some q1)"
  shows "process_pkg env n st =
    (st\<lparr>hreq := q2, hrsp := p2, work_errno := e2, work_frame := s2, req := drop n (req st)\<rparr>,
     if keepalive q2 then Running else Returned 0)"
  using assms by (simp add: process_pkg_def)

lemma run_round_overrun:
  assumes "length (req st) < recvd st" and "recvd st < 2 ^ 64" and "d \<noteq> []"
  shows "run_round env fd [Ok d] st = Some (grow st, Overrun)"
proof -
  have g: "grow st = st" using assms(1) by (simp add: grow_def)
  have "0 < room st" using assms by (intro room_pos) simp_all
  with assms g show ?thesis by (auto simp: run_round_def Let_def)
qed

text \<open>
  C34: a client that sends a second request before the first is answered makes the server write
  behind its buffer.  After a request of \<open>n\<close> bytes the buffer is shortened by \<open>n\<close>, but the number
  of received bytes is not; when it exceeds the size of the buffer, the room passed to
  \<open>Frame::recv\<close> wraps around and the next bytes are stored outside.
\<close>

theorem pipelining_overruns_the_buffer:
  assumes c: "fits 512 0 [c]" "CheckPkg (env_check env) c = int n" "0 < n" "n < length c" "512 < n + length c"
    and parse: "ParseHttpRequest (env_exec env) (env_url env) (env_unescape env) (take n c) (Some q) = Some (0, Some q1)"
    and serve: "env_Serve env (q1, p, e, s) = (q2, p2, e2, s2)" "keepalive q2" and d: "d \<noteq> []"
  shows "snd (HttpSrvWork_Run env fd ([Ok c] # [Ok d] # ws) q p e s) = Overrun"
proof -
  let ?init = "\<lparr>req = resize 512 [], recvd = 0, hreq = q, hrsp = p, work_errno = e, work_frame = s\<rparr>"
  have f: "fits (length (req ?init)) (recvd ?init) [c]" using c(1) by (simp only: http_work.simps length_resize)
  obtain st1 where st1: "collected ([] @ c) st1" "same_objects ?init st1" "length (req st1) = 512"
    "run_round env fd [Ok c] ?init =
       (let n = CheckPkg (env_check env) ([] @ c) in
        if n > 0 then Some (process_pkg env (nat n) st1)
        else if n = 0 then Some (st1, Running) else Some (st1, Returned (-74)))"
    by (rule run_round_piece [OF collected_start f, where env = env and fd = fd]) (simp add: length_resize)
  have r: "recvd st1 = length c" "take (length c) (req st1) = c" using st1(1) by (auto simp: collected_def)
  then have t: "take n (req st1) = take n c" using c(4) by (metis less_imp_le min.absorb1 take_take)
  let ?st = "st1\<lparr>hreq := q2, hrsp := p2, work_errno := e2, work_frame := s2, req := drop n (req st1)\<rparr>"
  have "process_pkg env n st1 = (?st, Running)"
    using process_pkg_rest [of n st1 env q1 q2 p2 e2 s2] c(4) r serve parse t st1(2) by (simp add: same_objects_def)
  then have "run_round env fd [Ok c] ?init = Some (?st, Running)" using st1(4) c(2,3) by simp
  moreover have "length c \<le> 512" using c(1) by (simp add: Let_def)
  then have "run_round env fd [Ok d] ?st = Some (grow ?st, Overrun)"
    using c(4,5) d st1(3) r by (intro run_round_overrun) auto
  ultimately show ?thesis by (simp add: HttpSrvWork_Run_def)
qed

text \<open>An environment for examples: a message is complete after \<open>k\<close> bytes.\<close>

definition demo_env :: "nat \<Rightarrow> http_env" where
  "demo_env k = \<lparr>env_check = \<lambda>_ s. (min k (length s), k \<le> length s),
     env_exec = \<lambda>s. \<lparr>events = [], nparsed = length s, hp_method = HTTP_GET, status_code = 0\<rparr>,
     env_url = no_url, env_unescape = id, env_Serve = id\<rparr>"

lemma demo_CheckPkg:
  assumes "0 < k" and "length s < 2 ^ 31" and "s \<noteq> []"
  shows "CheckPkg (env_check (demo_env k)) s = (if k \<le> length s then int k else 0)"
  using assms CheckPkg_eq [of "env_check (demo_env k)" s "min k (length s)" "k \<le> length s"]
  by (auto simp: demo_env_def)

lemma demo_parse: "ParseHttpRequest (env_exec (demo_env k)) (env_url (demo_env k)) (env_unescape (demo_env k)) s
    (Some HttpRequest_ctor) = Some (0, Some (SetKeepAlive True (SetMethod HTTP_REQUEST_METHOD_GET HttpRequest_ctor)))"
  by (simp add: demo_env_def ParseHttpRequest_def decide_keepalive_def method_of_def op_defs HttpRequest_ctor_def Let_def)

theorem request_reassembled_witness:
  "\<exists>st. HttpSrvWork_Run (demo_env 4) 5 (map (\<lambda>c. [Ok c]) ([''GE''] @ [''T!''])) HttpRequest_ctor HttpResponse_ctor EINTR
      Frame_static = (st, Running) \<and> collected [] st \<and> rq_method (hreq st) = HTTP_REQUEST_METHOD_GET"
proof -
  have f: "fits 512 0 ([''GE''] @ [''T!''])" by (simp add: Let_def)
  let ?q = "SetKeepAlive True (SetMethod HTTP_REQUEST_METHOD_GET HttpRequest_ctor)"
  have serve: "env_Serve (demo_env 4) (?q, HttpResponse_ctor, EINTR, Frame_static) = (?q, HttpResponse_ctor, EINTR, Frame_static)"
    by (simp add: demo_env_def)
  have "\<forall>i. 0 < i \<and> i \<le> length [''GE''] \<longrightarrow> CheckPkg (env_check (demo_env 4)) (concat (take i [''GE''])) = 0"
    by (auto simp: le_Suc_eq demo_CheckPkg)
  moreover have "CheckPkg (env_check (demo_env 4)) (concat ([''GE''] @ [''T!''])) = int (length (concat ([''GE''] @ [''T!''])))"
    by (simp add: demo_CheckPkg)
  ultimately obtain st where "collected [] st"
    "hreq st = SetKeepAlive True (SetMethod HTTP_REQUEST_METHOD_GET HttpRequest_ctor)"
    "HttpSrvWork_Run (demo_env 4) 5 (map (\<lambda>c. [Ok c]) ([''GE''] @ [''T!'']) @ []) HttpRequest_ctor HttpResponse_ctor EINTR
      Frame_static = (st, Running)"
    using request_reassembled [OF f _ _ demo_parse serve, where fd = 5 and ws = "[]"] by (auto simp: SetKeepAlive_def)
  then show ?thesis by (intro exI [of _ st]) (simp add: op_defs)
qed

theorem pipelining_overruns_the_buffer_witness:
  "snd (HttpSrvWork_Run (demo_env 300) 5 [[Ok (replicate 400 (CHR ''x''))], [Ok ''y'']] HttpRequest_ctor HttpResponse_ctor
     EINTR Frame_static) = Overrun"
proof -
  let ?c = "replicate 400 (CHR ''x'')"
  have f: "fits 512 0 [?c]" by (simp add: Let_def)
  have k: "CheckPkg (env_check (demo_env 300)) ?c = int 300" by (simp add: demo_CheckPkg)
  let ?q = "SetKeepAlive True (SetMethod HTTP_REQUEST_METHOD_GET HttpRequest_ctor)"
  have serve: "env_Serve (demo_env 300) (?q, HttpResponse_ctor, EINTR, Frame_static) = (?q, HttpResponse_ctor, EINTR, Frame_static)"
    by (simp add: demo_env_def)
  show ?thesis
    by (rule pipelining_overruns_the_buffer [OF f k _ _ _ demo_parse serve]) (simp_all add: op_defs)
qed

end
