(* ===== verification/Tcp_Client.thy ===== *)
theory Tcp_Client
  imports Http_Server
begin

text \<open>
  http/tcp_conn.* and http/http_client.*: the connection object of the clients, and the HTTP client
  derived from it.  \<open>conn_sys\<close> holds the answers of \<open>socket\<close>, \<open>fcntl\<close> and \<open>connect\<close> and the texts of
  \<open>strerror\<close>; the sending and receiving loops consume one script for every call.
\<close>

section \<open>Objects\<close>

definition CHECK_ERROR :: int where
  "CHECK_ERROR = -1"

definition CHECK_INCOMPLETE :: int where
  "CHECK_INCOMPLETE = -2"

definition kInvalidFd :: int where
  "kInvalidFd = -1"

definition kMaxRecvSize :: nat where
  "kMaxRecvSize = 5120"

text \<open>The members of \<open>TcpConn\<close>, and what the calls change around them.\<close>

record tcp_conn =
  conn_ip :: u32
  conn_port :: u16
  conn_fd :: int
  connect_timeout :: int
  read_timeout :: int
  write_timeout :: int
  strlog :: string
  conn_closed :: "int list"
  conn_errno :: errno
  conn_frame :: frame

record conn_sys =
  cs_socket :: int
  cs_socket_errno :: errno
  cs_getfl :: int
  cs_setfl :: "int \<Rightarrow> int"
  cs_connect :: "u32 answer list"
  cs_strerror :: "errno \<Rightarrow> string"

section \<open>Operations of the connection\<close>

definition log_append :: "string \<Rightarrow> tcp_conn \<Rightarrow> tcp_conn" where
  "log_append t c = c\<lparr>strlog := strlog c @ t\<rparr>"

definition log_error :: "conn_sys \<Rightarrow> string \<Rightarrow> tcp_conn \<Rightarrow> tcp_conn" where
  "log_error sys t c = log_append (t @ cs_strerror sys (conn_errno c)) c"

definition TcpConn_ctor :: "errno \<Rightarrow> frame \<Rightarrow> tcp_conn" where
  "TcpConn_ctor e s = \<lparr>conn_ip = 0, conn_port = 0, conn_fd = kInvalidFd, connect_timeout = 0, read_timeout = 0,
     write_timeout = 0, strlog = [], conn_closed = [], conn_errno = e, conn_frame = s\<rparr>"

definition GetErrorMsg :: "tcp_conn \<Rightarrow> string \<times> tcp_conn" where
  "GetErrorMsg c = (strlog c, c\<lparr>strlog := []\<rparr>)"

definition TcpConn_Close :: "tcp_conn \<Rightarrow> tcp_conn" where
  "TcpConn_Close c =
     c\<lparr>conn_closed := (if conn_fd c \<noteq> kInvalidFd then conn_closed c @ [conn_fd c] else conn_closed c),
       conn_fd := kInvalidFd, strlog := []\<rparr>"

definition SetBlocking :: "conn_sys \<Rightarrow> bool \<Rightarrow> tcp_conn \<Rightarrow> int \<times> tcp_conn" where
  "SetBlocking sys blocking c =
     (if cs_getfl sys = -1 then (-1, log_append ''|fcntl GET error'' c)
      else let flags = (if blocking then cs_getfl sys AND NOT O_NONBLOCK else cs_getfl sys OR O_NONBLOCK) in
        if cs_setfl sys flags = -1 then (-1, log_append ''|fcntl SET error'' c)
        else (0, c))"

definition TcpConn_Init :: "conn_sys \<Rightarrow> u32 \<Rightarrow> u16 \<Rightarrow> int \<Rightarrow> int \<Rightarrow> int \<Rightarrow> tcp_conn \<Rightarrow> (int \<times> tcp_conn) option" where
  "TcpConn_Init sys ip p tc tr tw c =
     (if ip = 0 \<or> p = 0 then Some (-1, c)
      else
        let c1 = c\<lparr>conn_ip := ip, conn_port := p, connect_timeout := tc, read_timeout := tr, write_timeout := tw,
                   conn_fd := cs_socket sys\<rparr>
        in if conn_fd c1 = -1 then Some (-1, log_error sys ''|socket error: '' (c1\<lparr>conn_errno := cs_socket_errno sys\<rparr>))
           else let (r, c2) = SetBlocking sys False c1 in
             if r < 0 then Some (-1, log_append ''|SetBlocking error'' (TcpConn_Close c2))
             else case connect (conn_fd c2) (cs_connect sys) (conn_errno c2) (conn_frame c2) of
               None \<Rightarrow> None
             | Some (ret, e, s) \<Rightarrow>
                 (let c3 = c2\<lparr>conn_errno := e, conn_frame := s\<rparr> in
                  if ret < 0 then Some (-1, log_error sys ''|tinyco::connect error: '' (TcpConn_Close c3))
                  else Some (0, c3)))"

definition TryReConnect :: "conn_sys \<Rightarrow> tcp_conn \<Rightarrow> (int \<times> tcp_conn) option" where
  "TryReConnect sys c = TcpConn_Init sys (conn_ip c) (conn_port c) 200 200 200 c"

text \<open>
  The sending loop of \<open>SendAndReceive\<close> and \<open>Send\<close>; \<open>left\<close> is a C int.  The result has the bytes
  that were sent.
\<close>

fun conn_send_loop :: "conn_sys \<Rightarrow> string \<Rightarrow> int \<Rightarrow> string \<Rightarrow> nat answer list list \<Rightarrow> tcp_conn \<Rightarrow>
    (int \<times> string \<times> tcp_conn) option" where
  "conn_send_loop sys buf left out ws c =
     (if \<not> left > 0 then Some (0, out, c)
      else case ws of
        [] \<Rightarrow> None
      | w # ws1 \<Rightarrow>
          (case send (conn_fd c) (take (nat left) (drop (length buf - nat left) buf)) w (conn_errno c) (conn_frame c) of
             None \<Rightarrow> None
           | Some (ret, e, d, s) \<Rightarrow>
               (let c1 = c\<lparr>conn_errno := e, conn_frame := s\<rparr> in
                if ret < 0 then Some (-1, out @ d, log_error sys ''|tinyco::send error: '' c1)
                else if ret = 0 then
                  Some (-1, out @ d, log_error sys ''|tinyco::send error: server close the connection: '' c1)
                else if ret > left then Some (-1, out @ d, log_error sys ''|tinyco::send werid error: '' c1)
                else conn_send_loop sys buf (left - ret) (out @ d) ws1 c1)))"

declare conn_send_loop.simps [simp del]

text \<open>
  The receiving loop: its result is \<open>eof\<close> and the buffer when it ends with a \<open>break\<close>, and \<open>None\<close> as
  \<open>eof\<close> when the function returns -1 from inside.
\<close>

fun conn_recv_loop :: "conn_sys \<Rightarrow> (string \<Rightarrow> int) \<Rightarrow> string \<Rightarrow> char list answer list list \<Rightarrow> tcp_conn \<Rightarrow>
    (int option \<times> string \<times> tcp_conn) option" where
  "conn_recv_loop sys func real_buf [] c = None"
| "conn_recv_loop sys func real_buf (w # ws) c =
     (case recv (conn_fd c) kMaxRecvSize w (conn_errno c) (conn_frame c) of
        None \<Rightarrow> None
      | Some (ret, e, d, s) \<Rightarrow>
          (let c1 = c\<lparr>conn_errno := e, conn_frame := s\<rparr> in
           if ret < 0 then Some (None, real_buf, log_error sys ''|tinyco::recv error: '' c1)
           else if ret = 0 then
             Some (None, real_buf,
               log_append (''|recvd='' @ int_to_string (size_to_int (length real_buf)))
                 (log_error sys ''|tinyco::recv error: server close the connection: '' c1))
           else
             let buf1 = real_buf @ d; eof = func buf1 in
             if eof > 0 then Some (Some eof, buf1, c1)
             else if eof < 0 \<and> eof \<noteq> CHECK_INCOMPLETE then
               Some (Some eof, buf1, log_append (''|recv error data: ret_code='' @ int_to_string eof) c1)
             else conn_recv_loop sys func buf1 ws c1))"

text \<open>
  \<open>TcpConn::SendAndReceive\<close>: the result, what was sent, the output if it was assigned, and the
  connection.  \<open>rs\<close> are the scripts of the receiving loop.
\<close>

definition TcpConn_SendAndReceive :: "conn_sys \<Rightarrow> string \<Rightarrow> (string \<Rightarrow> int) \<Rightarrow> nat answer list list \<Rightarrow>
    char list answer list list \<Rightarrow> tcp_conn \<Rightarrow> (int \<times> string \<times> string option \<times> tcp_conn) option" where
  "TcpConn_SendAndReceive sys buf func ws rs c =
     (if buf = [] then Some (-1, [], None, c)
      else
        case (if conn_fd c = kInvalidFd then TryReConnect sys (log_append ''|try to reconnect server'' c) else Some (0, c)) of
          None \<Rightarrow> None
        | Some (r, c1) \<Rightarrow>
            if r < 0 then Some (-1, [], None, log_append ''|reconnect server error'' c1)
            else
              (case conn_send_loop sys buf (size_to_int (length buf)) [] ws c1 of
                 None \<Rightarrow> None
               | Some (r', out, c2) \<Rightarrow>
                   if r' < 0 then Some (-1, out, None, c2)
                   else
                     (case conn_recv_loop sys func [] rs c2 of
                        None \<Rightarrow> None
                      | Some (None, _, c3) \<Rightarrow> Some (-1, out, None, c3)
                      | Some (Some eof, real_buf, c3) \<Rightarrow>
                          if eof < 0 then Some (-1, out, None, log_append ''|func eof error.'' c3)
                          else Some (0, out, Some (take (nat eof) real_buf), c3))))"

definition TcpConn_Send :: "conn_sys \<Rightarrow> string \<Rightarrow> nat answer list list \<Rightarrow> tcp_conn \<Rightarrow> (int \<times> string \<times> tcp_conn) option" where
  "TcpConn_Send sys buf ws c =
     (case (if conn_fd c = kInvalidFd then TryReConnect sys (log_append ''|try to reconnect server'' c) else Some (0, c)) of
        None \<Rightarrow> None
      | Some (r, c1) \<Rightarrow>
          if r < 0 then Some (-1, [], log_append ''|reconnect server error'' c1)
          else if buf = [] then Some (-1, [], c1)
          else conn_send_loop sys buf (size_to_int (length buf)) [] ws c1)"

section \<open>The HTTP client\<close>

text \<open>
  The client stores timeouts and passes them to its connection, which stores them too; no call
  reads them.
\<close>

record http_client =
  hc_conn :: tcp_conn
  ms_connect_timeout :: int
  ms_read_timeout :: int
  ms_write_timeout :: int
  hc_strerr :: string

definition HttpClient_ctor :: "errno \<Rightarrow> frame \<Rightarrow> http_client" where
  "HttpClient_ctor e s = \<lparr>hc_conn = TcpConn_ctor e s, ms_connect_timeout = 1000, ms_read_timeout = 5000,
     ms_write_timeout = 500, hc_strerr = []\<rparr>"

text \<open>\<open>GetErrorMsg\<close> of the client hides that of the connection.\<close>

definition HttpClient_GetErrorMsg :: "http_client \<Rightarrow> string \<times> http_client" where
  "HttpClient_GetErrorMsg h = (hc_strerr h, h\<lparr>hc_strerr := []\<rparr>)"

definition SetConnectMsTimeout :: "int \<Rightarrow> http_client \<Rightarrow> http_client" where
  "SetConnectMsTimeout timeout h = h\<lparr>ms_connect_timeout := if timeout < 0 then 1000 else timeout\<rparr>"

definition SetReadMsTimeout :: "int \<Rightarrow> http_client \<Rightarrow> http_client" where
  "SetReadMsTimeout timeout h = h\<lparr>ms_read_timeout := if timeout < 0 then 5000 else timeout\<rparr>"

definition SetWriteMsTimeout :: "int \<Rightarrow> http_client \<Rightarrow> http_client" where
  "SetWriteMsTimeout timeout h = h\<lparr>ms_write_timeout := if timeout < 0 then 500 else timeout\<rparr>"

definition HttpClient_Init :: "conn_sys \<Rightarrow> u32 \<Rightarrow> u16 \<Rightarrow> http_client \<Rightarrow> (int \<times> http_client) option" where
  "HttpClient_Init sys ip p h =
     (if ip = 0 \<or> p = 0 then Some (-1, h)
      else case TcpConn_Init sys ip p (ms_connect_timeout h) (ms_read_timeout h) (ms_write_timeout h) (hc_conn h) of
        None \<Rightarrow> None
      | Some (ret, c) \<Rightarrow> Some (if ret < 0 then -2 else 0, h\<lparr>hc_conn := c\<rparr>))"

text \<open>\<open>HttpCheckComplete\<close>: 0 for a text that is not HTTP, which the receiving loop takes as incomplete.\<close>

definition HttpCheckComplete :: "(int \<Rightarrow> string \<Rightarrow> nat \<times> bool) \<Rightarrow> string \<Rightarrow> int" where
  "HttpCheckComplete check httpbuf =
     (let ret = fst (CheckHttp check httpbuf) in
      if ret = HPC_OK then size_to_int (length httpbuf)
      else if ret = HPC_NOT_HTTP then 0
      else if ret = HPC_NOT_COMPLETE_HTTP then CHECK_INCOMPLETE
      else CHECK_ERROR)"

definition HttpClient_SendAndReceive :: "conn_sys \<Rightarrow> (int \<Rightarrow> string \<Rightarrow> nat \<times> bool) \<Rightarrow> string \<Rightarrow> nat answer list list \<Rightarrow>
    char list answer list list \<Rightarrow> http_client \<Rightarrow> (int \<times> string \<times> string option \<times> http_client) option" where
  "HttpClient_SendAndReceive sys check sendbuf ws rs h =
     map_option (\<lambda>(r, out, res, c). (r, out, res, h\<lparr>hc_conn := c\<rparr>))
       (TcpConn_SendAndReceive sys sendbuf (HttpCheckComplete check) ws rs (hc_conn h))"

text \<open>The version for a buffer of \<open>recvlen\<close> bytes, with the bytes copied to it.\<close>

definition HttpClient_SendAndReceive_buf :: "conn_sys \<Rightarrow> (int \<Rightarrow> string \<Rightarrow> nat \<times> bool) \<Rightarrow> string \<Rightarrow> nat \<Rightarrow> nat answer list list \<Rightarrow>
    char list answer list list \<Rightarrow> http_client \<Rightarrow> (int \<times> string \<times> string option \<times> http_client) option" where
  "HttpClient_SendAndReceive_buf sys check sendbuf recvlen ws rs h =
     (if sendbuf = [] then Some (-1, [], None, h)
      else case HttpClient_SendAndReceive sys check sendbuf ws rs h of
        None \<Rightarrow> None
      | Some (ret, out, res, h1) \<Rightarrow>
          if ret < 0 then Some (-2, out, None, h1)
          else (case res of
            None \<Rightarrow> Some (ret, out, Some [], h1)
          | Some str \<Rightarrow> if recvlen < length str then Some (-3, out, None, h1) else Some (ret, out, Some str, h1)))"

text \<open>No operation of the client writes \<open>strerr_\<close>, so the message of every failure is empty.\<close>

lemma HttpClient_no_message:
  "HttpClient_Init sys ip p h = Some (r, h1) \<Longrightarrow> fst (HttpClient_GetErrorMsg h1) = fst (HttpClient_GetErrorMsg h)"
  "HttpClient_SendAndReceive sys check buf ws rs h = Some (r, out, res, h1) \<Longrightarrow>
     fst (HttpClient_GetErrorMsg h1) = fst (HttpClient_GetErrorMsg h)"
  "fst (HttpClient_GetErrorMsg (HttpClient_ctor e s)) = []"
  by (auto simp: HttpClient_Init_def HttpClient_SendAndReceive_def HttpClient_GetErrorMsg_def HttpClient_ctor_def split: if_splits option.splits)

section \<open>An exchange\<close>

lemma conn_send_loop_drains:
  assumes "drains (length buf) w" and "length buf < 2 ^ 31"
  shows "\<exists>e' s'. conn_send_loop sys buf (int (length buf)) [] (w # ws) c = Some (0, buf, c\<lparr>conn_errno := e', conn_frame := s'\<rparr>)"
proof (cases "buf = []")
  case True
  then show ?thesis by (intro exI [of _ "conn_errno c"] exI [of _ "conn_frame c"]) (simp add: conn_send_loop.simps)
next
  case False
  obtain e' s' where s: "send (conn_fd c) buf w (conn_errno c) (conn_frame c) = Some (int (length buf), e', buf, s')"
    using send_drains [OF assms] by blast
  have "conn_send_loop sys buf (int (length buf)) [] (w # ws) c =
      conn_send_loop sys buf 0 buf ws (c\<lparr>conn_errno := e', conn_frame := s'\<rparr>)"
    using False s by (subst conn_send_loop.simps) simp
  also have "\<dots> = Some (0, buf, c\<lparr>conn_errno := e', conn_frame := s'\<rparr>)" by (subst conn_send_loop.simps) simp
  finally show ?thesis by blast
qed

lemma conn_recv_loop_pieces:
  assumes "\<forall>c \<in> set (cs @ [d]). c \<noteq> [] \<and> length c \<le> kMaxRecvSize"
    and "\<And>i. 0 < i \<Longrightarrow> i \<le> length cs \<Longrightarrow> func (acc @ concat (take i cs)) = CHECK_INCOMPLETE"
    and "0 < func (acc @ concat (cs @ [d]))"
  shows "conn_recv_loop sys func acc (map (\<lambda>c. [Ok c]) (cs @ [d])) c =
    Some (Some (func (acc @ concat (cs @ [d]))), acc @ concat (cs @ [d]), c)"
  using assms
proof (induction cs arbitrary: acc)
  case Nil
  then show ?case by (simp add: Let_def)
next
  case (Cons a cs)
  have a: "a \<noteq> []" "length a \<le> kMaxRecvSize" using Cons.prems(1) by auto
  have n: "func (acc @ a) = -2" using Cons.prems(2) [of 1] by (simp add: CHECK_INCOMPLETE_def)
  have "func ((acc @ a) @ concat (take i cs)) = CHECK_INCOMPLETE" if "0 < i" "i \<le> length cs" for i
    using Cons.prems(2) [of "Suc i"] that by simp
  from Cons.IH [of "acc @ a", OF _ this] Cons.prems(1,3) a n show ?case by (simp add: CHECK_INCOMPLETE_def Let_def)
qed

lemma client_exchanges:
  assumes "conn_fd (hc_conn h) \<noteq> kInvalidFd" and "buf \<noteq> []" and "length buf < 2 ^ 31" and "drains (length buf) w"
    and pieces: "\<forall>c \<in> set (cs @ [d]). c \<noteq> [] \<and> length c \<le> kMaxRecvSize"
    and part: "\<forall>i. 0 < i \<and> i \<le> length cs \<longrightarrow> fst (CheckHttp check (concat (take i cs))) = HPC_NOT_COMPLETE_HTTP"
    and whole: "fst (CheckHttp check (concat (cs @ [d]))) = HPC_OK" and "length (concat (cs @ [d])) < 2 ^ 31"
  shows "\<exists>h'. HttpClient_SendAndReceive sys check buf (w # ws) (map (\<lambda>c. [Ok c]) (cs @ [d])) h =
    Some (0, buf, Some (concat (cs @ [d])), h')"
proof -
  let ?all = "concat (cs @ [d])" and ?func = "HttpCheckComplete check"
  have w: "?func ?all = int (length ?all)"
    using whole size_to_int_small [OF assms(8)] by (simp add: HttpCheckComplete_def)
  have "0 < length ?all" using pieces by simp
  then have pos: "0 < ?func ([] @ ?all)" unfolding append_Nil w by (simp only: of_nat_0_less_iff)
  have "?func ([] @ concat (take i cs)) = CHECK_INCOMPLETE" if "0 < i" "i \<le> length cs" for i
    using part that by (simp add: HttpCheckComplete_def HPC_OK_def HPC_NOT_HTTP_def HPC_NOT_COMPLETE_HTTP_def)
  note recv = conn_recv_loop_pieces [OF pieces this pos]
  obtain e' s' where s: "conn_send_loop sys buf (int (length buf)) [] (w # ws) (hc_conn h) =
      Some (0, buf, (hc_conn h)\<lparr>conn_errno := e', conn_frame := s'\<rparr>)"
    using conn_send_loop_drains [OF assms(4,3)] by blast
  show ?thesis using s w recv assms(1,2) size_to_int_small [OF assms(3)]
    by (simp add: HttpClient_SendAndReceive_def TcpConn_SendAndReceive_def del: concat_append)
qed

text \<open>
  C12: an exchange of the HTTP client.  When the kernel takes the request, in whatever pieces, and the
  response arrives in pieces that http_parser finds complete with the last one and not before,
  \<open>SendAndReceive\<close> returns 0, exactly the request was sent, and the output is the whole response.
\<close>

theorem client_exchange:
  assumes "conn_fd (hc_conn h) \<noteq> kInvalidFd" and "buf \<noteq> []" and "length buf < 2 ^ 31" and "drains (length buf) w"
    and pieces: "\<forall>c \<in> set (cs @ [d]). c \<noteq> [] \<and> length c \<le> kMaxRecvSize"
    and part: "\<forall>i. 0 < i \<and> i \<le> length cs \<longrightarrow> fst (CheckHttp check (concat (take i cs))) = HPC_NOT_COMPLETE_HTTP"
    and whole: "fst (CheckHttp check (concat (cs @ [d]))) = HPC_OK" and "length (concat (cs @ [d])) < 2 ^ 31"
  shows "\<exists>h'. HttpClient_SendAndReceive sys check buf (w # ws) (map (\<lambda>c. [Ok c]) (cs @ [d])) h =
    Some (0, buf, Some (concat (cs @ [d])), h')"
  using assms by (rule client_exchanges)

text \<open>A check that finds four bytes complete.\<close>

lemma demo_CheckHttp:
  "fst (CheckHttp (env_check (demo_env 4)) ''HT'') = HPC_NOT_COMPLETE_HTTP"
  "fst (CheckHttp (env_check (demo_env 4)) ''HTTP'') = HPC_OK"
  by (simp_all add: CheckHttp_def demo_env_def)

theorem client_exchange_witness:
  "\<exists>h'. HttpClient_SendAndReceive \<lparr>cs_socket = 5, cs_socket_errno = EINTR, cs_getfl = 0, cs_setfl = \<lambda>_. 0, cs_connect = [],
       cs_strerror = \<lambda>_. []\<rparr> (env_check (demo_env 4)) ''GET'' [[Ok 2, Ok 2]] (map (\<lambda>c. [Ok c]) ([''HT''] @ [''TP'']))
       ((HttpClient_ctor EINTR Frame_static)\<lparr>hc_conn := (TcpConn_ctor EINTR Frame_static)\<lparr>conn_fd := 5\<rparr>\<rparr>) =
     Some (0, ''GET'', Some ''HTTP'', h')"
proof -
  let ?h = "(HttpClient_ctor EINTR Frame_static)\<lparr>hc_conn := (TcpConn_ctor EINTR Frame_static)\<lparr>conn_fd := 5\<rparr>\<rparr>"
  have "\<forall>i. 0 < i \<and> i \<le> length [''HT''] \<longrightarrow>
      fst (CheckHttp (env_check (demo_env 4)) (concat (take i [''HT'']))) = HPC_NOT_COMPLETE_HTTP"
    by (auto simp: le_Suc_eq demo_CheckHttp)
  moreover have "drains (length ''GET'') [Ok 2, Ok 2]" by (simp add: numeral_eq_Suc)
  ultimately show ?thesis
    using client_exchange [of ?h "''GET''" "[Ok 2, Ok 2]" "[''HT'']" "''TP''" "env_check (demo_env 4)"] demo_CheckHttp(2)
    by (simp add: kInvalidFd_def kMaxRecvSize_def)
qed

end
