(* ===== verification/Https_Client.thy ===== *)
theory Https_Client
  imports Http_Server
begin

text \<open>
  http/https_client.*: the BIO of the framework and the client over OpenSSL.  OpenSSL is a parameter:
  whether its constructors succeed, what \<open>SSL_connect\<close> returns, and a list of answers for \<open>SSL_write\<close>
  and \<open>SSL_read\<close>, with what the process has done meanwhile.  \<open>BIO_free\<close> and \<open>SSL_free\<close> call the
  \<open>destroy\<close> function of the BIO, as documented.  \<open>SSL_get_error\<close>, \<open>inet_ntoa\<close>, \<open>strerror\<close> and the number
  behind \<open>errno\<close> are parameters of the texts that \<open>GetErrorMsg\<close> returns.
\<close>

section \<open>The BIO\<close>

record bio =
  bio_init :: bool
  bio_num :: int
  bio_flags :: int
  bio_shutdown :: bool

definition mt_new :: "bio \<Rightarrow> int \<times> bio" where
  "mt_new b = (1, b\<lparr>bio_init := False, bio_num := 0, bio_flags := 0\<rparr>)"

text \<open>The result, the BIO and the descriptors closed; \<open>None\<close> is a null pointer.\<close>

definition mt_free :: "bio option \<Rightarrow> int \<times> bio option \<times> int list" where
  "mt_free a =
     (case a of
        None \<Rightarrow> (0, None, [])
      | Some b \<Rightarrow>
          if bio_shutdown b
          then (1, Some (b\<lparr>bio_init := False, bio_flags := 0\<rparr>), if bio_init b then [bio_num b] else [])
          else (1, Some b, []))"

text \<open>Reading and writing through the BIO; a null buffer is \<open>None\<close>.\<close>

definition mt_read :: "bio \<Rightarrow> nat option \<Rightarrow> char list answer list \<Rightarrow> errno \<Rightarrow> frame \<Rightarrow>
    (int \<times> errno \<times> char list \<times> frame) option" where
  "mt_read b out w e s =
     (case out of None \<Rightarrow> Some (0, e, [], s) | Some outl \<Rightarrow> recv (bio_num b) outl w (EOTHER 0) s)"

definition mt_write :: "bio \<Rightarrow> string option \<Rightarrow> nat answer list \<Rightarrow> errno \<Rightarrow> frame \<Rightarrow>
    (int \<times> errno \<times> char list \<times> frame) option" where
  "mt_write b inb w e s =
     (case inb of None \<Rightarrow> Some (0, e, [], s) | Some buf \<Rightarrow> send (bio_num b) buf w (EOTHER 0) s)"

datatype bio_cmd = BIO_C_SET_FD int | BIO_C_GET_FD | BIO_CTRL_GET_CLOSE | BIO_CTRL_SET_CLOSE | BIO_CTRL_DUP | BIO_CTRL_FLUSH
  | BIO_CMD_OTHER

definition mt_ctrl :: "bio \<Rightarrow> bio_cmd \<Rightarrow> int \<Rightarrow> int \<times> bio \<times> int list" where
  "mt_ctrl b cmd num =
     (case cmd of
        BIO_C_SET_FD fd \<Rightarrow>
          (case mt_free (Some b) of
             (_, b1, closed) \<Rightarrow>
               (1, (case b1 of Some b2 \<Rightarrow> b2 | None \<Rightarrow> b)\<lparr>bio_num := fd, bio_shutdown := (num \<noteq> 0), bio_init := True\<rparr>, closed))
      | BIO_C_GET_FD \<Rightarrow> (if bio_init b then bio_num b else -1, b, [])
      | BIO_CTRL_GET_CLOSE \<Rightarrow> (of_bool (bio_shutdown b), b, [])
      | BIO_CTRL_SET_CLOSE \<Rightarrow> (1, b\<lparr>bio_shutdown := (num \<noteq> 0)\<rparr>, [])
      | BIO_CTRL_DUP \<Rightarrow> (1, b, [])
      | BIO_CTRL_FLUSH \<Rightarrow> (1, b, [])
      | BIO_CMD_OTHER \<Rightarrow> (0, b, []))"

text \<open>
  \<open>BIO_new_socket_mt\<close>: \<open>fresh\<close> is what \<open>BIO_new\<close> allocated before it calls \<open>mt_new\<close>, \<open>None\<close> when it fails.
\<close>

definition BIO_new_socket_mt :: "bio option \<Rightarrow> int \<Rightarrow> int \<Rightarrow> bio option" where
  "BIO_new_socket_mt fresh fd close_flag =
     (case fresh of
        None \<Rightarrow> None
      | Some b \<Rightarrow> Some (fst (snd (mt_ctrl (snd (mt_new b)) (BIO_C_SET_FD fd) close_flag))))"

section \<open>The client\<close>

record https_client =
  hs_fd :: int
  hs_ctx :: bool
  hs_bio :: "bio option"
  hs_ssl :: bool
  hs_connect_timeout :: int
  hs_read_timeout :: int
  hs_write_timeout :: int
  hs_strlog :: string
  hs_strerr :: string
  hs_closed :: "int list"
  hs_errno :: errno
  hs_frame :: frame

record https_sys =
  ht_socket :: int
  ht_getfl :: int
  ht_setfl :: "int \<Rightarrow> int"
  ht_keepalive :: int
  ht_keepidle :: int
  ht_keepintvl :: int
  ht_keepcnt :: int
  ht_bio_new :: "bio option"
  ht_ctx_new :: bool
  ht_connect :: "u32 answer list"
  ht_ssl_new :: bool
  ht_ssl_connect :: "int \<times> errno \<times> (frame \<Rightarrow> frame)"
  ht_ssl_write :: "(int \<times> errno \<times> (frame \<Rightarrow> frame)) list"
  ht_ssl_read :: "((int + string) \<times> errno \<times> (frame \<Rightarrow> frame)) list"
  ht_ssl_error :: "int \<Rightarrow> int"
  ht_inet_ntoa :: "u32 \<Rightarrow> string"
  ht_strerror :: "errno \<Rightarrow> string"
  ht_errno_number :: "errno \<Rightarrow> int"

definition HttpsClient_ctor :: "bool \<Rightarrow> errno \<Rightarrow> frame \<Rightarrow> https_client" where
  "HttpsClient_ctor ctx e s = \<lparr>hs_fd = -1, hs_ctx = ctx, hs_bio = None, hs_ssl = False, hs_connect_timeout = 0, hs_read_timeout = 0,
     hs_write_timeout = 0, hs_strlog = [], hs_strerr = [], hs_closed = [], hs_errno = e, hs_frame = s\<rparr>"

definition ClearLog :: "https_client \<Rightarrow> https_client" where
  "ClearLog h = h\<lparr>hs_strlog := [], hs_strerr := []\<rparr>"

definition Https_GetErrorMsg :: "https_client \<Rightarrow> string \<times> https_client" where
  "Https_GetErrorMsg h = (hs_strerr h, h\<lparr>hs_strerr := []\<rparr>)"

definition err_append :: "string \<Rightarrow> https_client \<Rightarrow> https_client" where
  "err_append t h = h\<lparr>hs_strerr := hs_strerr h @ t\<rparr>"

definition add_closed :: "int list \<Rightarrow> https_client \<Rightarrow> https_client" where
  "add_closed fds h = h\<lparr>hs_closed := hs_closed h @ fds\<rparr>"

definition HttpsClient_Close :: "https_client \<Rightarrow> https_client" where
  "HttpsClient_Close h =
     (let h1 = (if hs_ssl h then (add_closed (snd (snd (mt_free (hs_bio h)))) h)\<lparr>hs_bio := None\<rparr> else h);
          h2 = (if hs_bio h1 \<noteq> None then add_closed (snd (snd (mt_free (hs_bio h1)))) h1 else h1);
          h3 = (if hs_fd h2 \<noteq> -1 then add_closed [hs_fd h2] h2 else h2)
      in h3\<lparr>hs_fd := -1, hs_ssl := False, hs_bio := None\<rparr>)"

definition CreateSocket :: "https_sys \<Rightarrow> https_client \<Rightarrow> int \<times> https_client" where
  "CreateSocket sys h =
     (let h1 = h\<lparr>hs_fd := ht_socket sys\<rparr>; fd = hs_fd h1 in
      if fd = -1 then (-1, err_append ''socket error'' h1)
      else if SetNonBlock (ht_getfl sys) (ht_setfl sys) < 0 then (-2, err_append ''fail to set nonblock'' h1)
      else if ht_keepalive sys \<noteq> 0 then (-4, add_closed [fd] (err_append ''setsockopt SO_KEEPALIVE error'' h1))
      else if ht_keepidle sys \<noteq> 0 then (-5, add_closed [fd] (err_append ''setsockopt TCP_KEEPIDLE error'' h1))
      else if ht_keepintvl sys \<noteq> 0 then (-6, add_closed [fd] (err_append ''setsockopt TCP_KEEPINTVL error'' h1))
      else if ht_keepcnt sys \<noteq> 0 then (-7, add_closed [fd] (err_append ''setsockopt TCP_KEEPCNT error'' h1))
      else (fd, h1))"

text \<open>\<open>Init\<close>; the text after a failed \<open>connect\<close> is a literal in the source, too.\<close>

definition HttpsClient_Init :: "https_sys \<Rightarrow> u32 \<Rightarrow> u16 \<Rightarrow> int \<Rightarrow> int \<Rightarrow> int \<Rightarrow> https_client \<Rightarrow> (int \<times> https_client) option" where
  "HttpsClient_Init sys ip p tc tr tw h =
     (let h0 = (ClearLog h)\<lparr>hs_connect_timeout := tc, hs_write_timeout := tw, hs_read_timeout := tr\<rparr>;
          (fd, h1) = CreateSocket sys h0; h2 = h1\<lparr>hs_fd := fd\<rparr>
      in if fd < 0 then Some (-1, err_append ''CreateSocket error'' h2)
         else let h3 = h2\<lparr>hs_bio := BIO_new_socket_mt (ht_bio_new sys) fd 1\<rparr> in
           if hs_bio h3 = None then Some (-2, HttpsClient_Close h3)
           else if \<not> hs_ctx h3 \<and> \<not> ht_ctx_new sys then Some (-2, HttpsClient_Close (err_append ''SSL_CTX_new error'' h3))
           else let h4 = h3\<lparr>hs_ctx := True,
                            hs_strlog := hs_strlog h3 @ ''HttpsClient connect to '' @ ht_inet_ntoa sys ip @ '':'' @ nat_to_string (unat p)\<rparr> in
             case connect (hs_fd h4) (ht_connect sys) (hs_errno h4) (hs_frame h4) of
               None \<Rightarrow> None
             | Some (r, e, s) \<Rightarrow>
                 (let h5 = h4\<lparr>hs_errno := e, hs_frame := s\<rparr> in
                  if r < 0 then Some (-2, HttpsClient_Close (err_append ''tinyco::connect error: strerror(errno)'' h5))
                  else if \<not> ht_ssl_new sys then Some (-2, HttpsClient_Close (err_append ''SSL_new error'' h5))
                  else let (r', e', k) = ht_ssl_connect sys;
                           h6 = h5\<lparr>hs_ssl := True, hs_errno := e', hs_frame := k (hs_frame h5)\<rparr>
                       in if r' \<le> 0
                          then Some (-2, HttpsClient_Close (err_append (''SSL_connect error, error code = '' @ int_to_string (ht_ssl_error sys r')) h6))
                          else Some (0, h6)))"

text \<open>The text of a failed \<open>SSL_write\<close> or \<open>SSL_read\<close> that returned \<open>r\<close>.\<close>

definition ssl_report :: "https_sys \<Rightarrow> string \<Rightarrow> int \<Rightarrow> int \<Rightarrow> https_client \<Rightarrow> https_client" where
  "ssl_report sys what r ret h =
     err_append (what @ '' error, error code = '' @ int_to_string (ht_ssl_error sys r) @ ''|ret = '' @ int_to_string ret @
       ''|errno = '' @ int_to_string (ht_errno_number sys (hs_errno h)) @ ''|strerror = '' @ ht_strerror sys (hs_errno h)) h"

text \<open>
  The loop around \<open>SSL_write\<close>; \<open>left\<close> is a \<open>size_t\<close>, and the function takes it as a C int.  The result says
  whether the function goes on, with the last value of \<open>ret\<close>.
\<close>

fun ssl_write_loop :: "https_sys \<Rightarrow> nat \<Rightarrow> int \<Rightarrow> (int \<times> errno \<times> (frame \<Rightarrow> frame)) list \<Rightarrow> https_client \<Rightarrow>
    (bool \<times> int \<times> https_client) option" where
  "ssl_write_loop sys left r as h =
     (if left = 0 then Some (True, r, h)
      else case as of
        [] \<Rightarrow> None
      | (ret, e, k) # as1 \<Rightarrow>
          (let h1 = h\<lparr>hs_errno := e, hs_frame := k (hs_frame h)\<rparr> in
           if ret \<le> 0 then Some (False, ret, ssl_report sys ''SSL_write'' ret ret h1)
           else if size_to_int left < ret
           then Some (False, ret, err_append (''SSL_write error, left = '' @ nat_to_string left @ ''|ret = '' @ int_to_string ret) h1)
           else ssl_write_loop sys (left - nat ret) ret as1 h1))"

declare ssl_write_loop.simps [simp del]

text \<open>
  The loop around \<open>SSL_read\<close>: whether a complete message was read, and the buffer.  Its report prints
  \<open>ret\<close>, which still has the result of the last \<open>SSL_write\<close>.
\<close>

fun ssl_read_loop :: "https_sys \<Rightarrow> int \<Rightarrow> (int \<Rightarrow> string \<Rightarrow> nat \<times> bool) \<Rightarrow> string \<Rightarrow> ((int + string) \<times> errno \<times> (frame \<Rightarrow> frame)) list \<Rightarrow>
    https_client \<Rightarrow> (bool \<times> string \<times> https_client) option" where
  "ssl_read_loop sys r check real_buf [] h = None"
| "ssl_read_loop sys r check real_buf ((Inl n, e, k) # as) h =
     Some (False, real_buf, ssl_report sys ''SSL_read'' n r (h\<lparr>hs_errno := e, hs_frame := k (hs_frame h)\<rparr>))"
| "ssl_read_loop sys r check real_buf ((Inr d, e, k) # as) h =
     (let h1 = h\<lparr>hs_errno := e, hs_frame := k (hs_frame h)\<rparr>; buf1 = real_buf @ d; ret = fst (CheckHttp check buf1) in
      if ret = HPC_OK then Some (True, buf1, h1)
      else if ret = HPC_NOT_COMPLETE_HTTP then ssl_read_loop sys r check buf1 as h1
      else Some (False, buf1, h1))"

definition HttpsClient_SendAndReceive :: "https_sys \<Rightarrow> (int \<Rightarrow> string \<Rightarrow> nat \<times> bool) \<Rightarrow> string \<Rightarrow> https_client \<Rightarrow>
    (int \<times> string option \<times> https_client) option" where
  "HttpsClient_SendAndReceive sys check sendbuf h =
     (let h0 = ClearLog h in
      if hs_fd h0 < 0 \<or> \<not> hs_ssl h0 \<or> hs_bio h0 = None then Some (-1, None, err_append ''invalid parameters'' h0)
      else if sendbuf = [] then Some (-1, None, err_append ''invalid parameters'' h0)
      else case ssl_write_loop sys (length sendbuf) 0 (ht_ssl_write sys) h0 of
        None \<Rightarrow> None
      | Some (ok, r, h1) \<Rightarrow>
          if \<not> ok then Some (-1, None, h1)
          else (case ssl_read_loop sys r check [] (ht_ssl_read sys) h1 of
            None \<Rightarrow> None
          | Some (http_done, buf, h2) \<Rightarrow> Some (if http_done then (0, Some buf, h2) else (-1, None, h2))))"

section \<open>Properties\<close>

text \<open>A client that is connected holds its descriptor twice: as a member and in the BIO.\<close>

definition connected :: "int \<Rightarrow> https_client \<Rightarrow> bool" where
  "connected fd h \<longleftrightarrow> 0 \<le> fd \<and> hs_fd h = fd \<and> hs_ssl h \<and>
     (\<exists>b. hs_bio h = Some b \<and> bio_init b \<and> bio_shutdown b \<and> bio_num b = fd)"

lemma BIO_new_socket_mt_owns:
  "BIO_new_socket_mt fresh fd 1 = Some b \<Longrightarrow> bio_init b \<and> bio_shutdown b \<and> bio_num b = fd"
  by (auto simp: BIO_new_socket_mt_def mt_ctrl_def mt_new_def mt_free_def split: option.splits if_splits)

lemma CreateSocket_fd: "CreateSocket sys h = (fd, h') \<Longrightarrow> 0 \<le> fd \<Longrightarrow> hs_closed h' = hs_closed h"
  by (auto simp: CreateSocket_def Let_def split: if_splits)

lemma Init_connected:
  assumes "HttpsClient_Init sys ip p tc tr tw h = Some (0, h')"
  shows "\<exists>fd. connected fd h' \<and> hs_closed h' = hs_closed h"
proof -
  obtain fd h1 where c: "CreateSocket sys ((ClearLog h)\<lparr>hs_connect_timeout := tc, hs_write_timeout := tw, hs_read_timeout := tr\<rparr>) = (fd, h1)"
    by fastforce
  with assms have fd: "0 \<le> fd" by (auto simp: HttpsClient_Init_def Let_def split: if_splits)
  have b: "BIO_new_socket_mt (ht_bio_new sys) fd 1 \<noteq> None"
    using assms c fd by (auto simp: HttpsClient_Init_def Let_def split: if_splits)
  then obtain b where b: "BIO_new_socket_mt (ht_bio_new sys) fd 1 = Some b" by blast
  have "hs_fd h' = fd" "hs_ssl h'" "hs_bio h' = Some b" "hs_closed h' = hs_closed h1"
    using assms c fd b by (auto simp: HttpsClient_Init_def Let_def split: if_splits option.splits prod.splits)
  with fd b BIO_new_socket_mt_owns [OF b] CreateSocket_fd [OF c fd] show ?thesis by (auto simp: connected_def ClearLog_def)
qed

section \<open>An exchange\<close>

text \<open>Answers of \<open>SSL_write\<close> that take \<open>n\<close> bytes in positive pieces.\<close>

fun ssl_takes :: "nat \<Rightarrow> (int \<times> errno \<times> (frame \<Rightarrow> frame)) list \<Rightarrow> bool" where
  "ssl_takes n [] \<longleftrightarrow> n = 0"
| "ssl_takes n ((ret, e, k) # as) \<longleftrightarrow> 0 < ret \<and> ret \<le> int n \<and> ssl_takes (n - nat ret) as"

lemma ssl_write_loop_takes:
  "ssl_takes n as \<Longrightarrow> n < 2 ^ 31 \<Longrightarrow>
    \<exists>r1 e s. ssl_write_loop sys n r as h = Some (True, r1, h\<lparr>hs_errno := e, hs_frame := s\<rparr>)"
proof (induction n as arbitrary: r h rule: ssl_takes.induct)
  case (1 n)
  then show ?case by (intro exI [of _ r] exI [of _ "hs_errno h"] exI [of _ "hs_frame h"]) (simp add: ssl_write_loop.simps)
next
  case (2 n ret e k as)
  have n: "n \<noteq> 0" "\<not> size_to_int n < ret" using "2.prems" size_to_int_small [of n] by auto
  with "2.prems" have "ssl_write_loop sys n r ((ret, e, k) # as) h =
      ssl_write_loop sys (n - nat ret) ret as (h\<lparr>hs_errno := e, hs_frame := k (hs_frame h)\<rparr>)"
    by (subst ssl_write_loop.simps) (simp add: Let_def)
  with "2.IH" [of ret "h\<lparr>hs_errno := e, hs_frame := k (hs_frame h)\<rparr>"] "2.prems" show ?case by auto
qed

lemma ssl_read_loop_pieces:
  assumes "\<And>i. 0 < i \<Longrightarrow> i < length cs \<Longrightarrow> fst (CheckHttp check (acc @ concat (map fst (take i cs)))) = HPC_NOT_COMPLETE_HTTP"
    and "fst (CheckHttp check (acc @ concat (map fst cs))) = HPC_OK" and "cs \<noteq> []"
  shows "\<exists>h1. ssl_read_loop sys r check acc (map (\<lambda>(c, e, k). (Inr c, e, k)) cs) h = Some (True, acc @ concat (map fst cs), h1)"
  using assms
proof (induction cs arbitrary: acc h)
  case Nil
  then show ?case by simp
next
  case (Cons x cs)
  obtain c e k where x: "x = (c, e, k)" by (cases x)
  show ?case
  proof (cases "cs = []")
    case True
    with Cons.prems(2) x show ?thesis by (simp add: Let_def)
  next
    case False
    have n: "fst (CheckHttp check (acc @ c)) = HPC_NOT_COMPLETE_HTTP" using Cons.prems(1) [of 1] False x by simp
    have "fst (CheckHttp check ((acc @ c) @ concat (map fst (take i cs)))) = HPC_NOT_COMPLETE_HTTP" if "0 < i" "i < length cs" for i
      using Cons.prems(1) [of "Suc i"] that x by simp
    from Cons.IH [OF this _ False, of "h\<lparr>hs_errno := e, hs_frame := k (hs_frame h)\<rparr>"] Cons.prems(2) n x show ?thesis
      by (simp add: Let_def HPC_OK_def HPC_NOT_COMPLETE_HTTP_def)
  qed
qed

text \<open>
  An exchange of the HTTPS client: when OpenSSL takes the request, in whatever pieces, and delivers a
  response that http_parser finds complete with its last piece and not before, the result is 0 and
  the output is the whole response.
\<close>

theorem https_exchange:
  assumes "0 \<le> hs_fd h" and "hs_ssl h" and "hs_bio h \<noteq> None" and "buf \<noteq> []" and "length buf < 2 ^ 31"
    and "ssl_takes (length buf) (ht_ssl_write sys)" and "ht_ssl_read sys = map (\<lambda>(c, e, k). (Inr c, e, k)) cs" and "cs \<noteq> []"
    and "\<forall>i. 0 < i \<and> i < length cs \<longrightarrow> fst (CheckHttp check (concat (map fst (take i cs)))) = HPC_NOT_COMPLETE_HTTP"
    and "fst (CheckHttp check (concat (map fst cs))) = HPC_OK"
  shows "\<exists>h1. HttpsClient_SendAndReceive sys check buf h = Some (0, Some (concat (map fst cs)), h1)"
proof -
  obtain r1 e s where w: "ssl_write_loop sys (length buf) 0 (ht_ssl_write sys) (ClearLog h) = Some (True, r1, (ClearLog h)\<lparr>hs_errno := e, hs_frame := s\<rparr>)"
    using ssl_write_loop_takes [OF assms(6,5), of sys 0 "ClearLog h"] by blast
  obtain h1 where "ssl_read_loop sys r1 check [] (map (\<lambda>(c, e, k). (Inr c, e, k)) cs) ((ClearLog h)\<lparr>hs_errno := e, hs_frame := s\<rparr>) =
      Some (True, concat (map fst cs), h1)"
    using ssl_read_loop_pieces [of cs check "[]"] assms(8-10) by fastforce
  with w assms show ?thesis by (simp add: HttpsClient_SendAndReceive_def ClearLog_def Let_def)
qed

section \<open>Closing\<close>

text \<open>
  Closing an HTTPS client closes its descriptor twice, once as the BIO that owns it is freed and once
  directly; in between another coroutine or the system may have given the number to another socket.
\<close>

theorem Https_Close_closes_twice:
  assumes "HttpsClient_Init sys ip p tc tr tw h = Some (0, h')" and "hs_closed h = []"
  shows "0 \<le> hs_fd h' \<and> hs_closed (HttpsClient_Close h') = [hs_fd h', hs_fd h']"
proof -
  obtain fd where "connected fd h'" "hs_closed h' = []" using Init_connected [OF assms(1)] assms(2) by auto
  then show ?thesis by (auto simp: connected_def HttpsClient_Close_def mt_free_def add_closed_def Let_def)
qed

theorem Https_Close_closes_twice_witness:
  "\<exists>h'. HttpsClient_Init \<lparr>ht_socket = 5, ht_getfl = 0, ht_setfl = \<lambda>_. 0, ht_keepalive = 0, ht_keepidle = 0, ht_keepintvl = 0,
      ht_keepcnt = 0, ht_bio_new = Some \<lparr>bio_init = False, bio_num = 0, bio_flags = 0, bio_shutdown = True\<rparr>, ht_ctx_new = True,
      ht_connect = [Ok 0], ht_ssl_new = True, ht_ssl_connect = (1, EINTR, id), ht_ssl_write = [], ht_ssl_read = [],
      ht_ssl_error = id, ht_inet_ntoa = \<lambda>_. [], ht_strerror = \<lambda>_. [], ht_errno_number = \<lambda>_. 0\<rparr>
      7 443 1000 5000 500 (HttpsClient_ctor False EINTR Frame_static) = Some (0, h') \<and> hs_closed (HttpsClient_Close h') = [5, 5]"
proof -
  let ?sys = "\<lparr>ht_socket = 5, ht_getfl = 0, ht_setfl = \<lambda>_. 0, ht_keepalive = 0, ht_keepidle = 0, ht_keepintvl = 0,
      ht_keepcnt = 0, ht_bio_new = Some \<lparr>bio_init = False, bio_num = 0, bio_flags = 0, bio_shutdown = True\<rparr>, ht_ctx_new = True,
      ht_connect = [Ok 0], ht_ssl_new = True, ht_ssl_connect = (1, EINTR, id), ht_ssl_write = [], ht_ssl_read = [],
      ht_ssl_error = id, ht_inet_ntoa = \<lambda>_. [], ht_strerror = \<lambda>_. [], ht_errno_number = \<lambda>_. 0\<rparr>"
  obtain h' where h: "HttpsClient_Init ?sys 7 443 1000 5000 500 (HttpsClient_ctor False EINTR Frame_static) = Some (0, h')" "hs_fd h' = 5"
    by (simp add: HttpsClient_Init_def CreateSocket_def SetNonBlock_def HttpsClient_ctor_def BIO_new_socket_mt_def mt_ctrl_def
          mt_new_def mt_free_def ClearLog_def Let_def)
  from Https_Close_closes_twice [OF h(1)] h show ?thesis by (simp add: HttpsClient_ctor_def)
qed

end
