(* ===== verification/Dns.thy ===== *)
theory Dns
  imports Frame_IO
begin

text \<open>
  dns/: the resolver with its cache.  c-ares is a parameter: the answers of its initialisation,
  \<open>ares_mkquery\<close>, the configured servers, and the addresses \<open>ares_parse_a_reply\<close> finds in a reply, \<open>None\<close>
  when it gives no host entry.  The exchange is \<open>Frame::UdpSendAndRecv\<close>.
\<close>

section \<open>Objects\<close>

record res_cache =
  rc_ip :: "u32 list"
  rc_timeout :: u32
  rc_idx :: u32

text \<open>\<open>res_cache_[domain]\<close> of a domain that is not there is value-initialised.\<close>

definition ResCache_init :: res_cache where
  "ResCache_init = \<lparr>rc_ip = [], rc_timeout = 0, rc_idx = 0\<rparr>"

definition PickOne :: "res_cache \<Rightarrow> u32 \<times> res_cache" where
  "PickOne r =
     (if rc_ip r = [] then (0, r)
      else (rc_ip r ! (unat (rc_idx r) mod length (rc_ip r)), r\<lparr>rc_idx := rc_idx r + 1\<rparr>))"

record dns_state =
  ares_channel_init :: bool
  cache :: "(string \<times> res_cache) list"
  dns_errno :: errno
  dns_frame :: frame

record dns_sys =
  ds_library_init :: int
  ds_init_options :: int
  ds_now :: u64
  ds_mkquery :: "string \<Rightarrow> int \<times> string"
  ds_nservers :: int
  ds_fd :: int
  ds_getfl :: int
  ds_setfl :: "int \<Rightarrow> int"
  ds_sendto :: "string \<Rightarrow> int"
  ds_recvfrom :: "(char list \<times> unit) answer list"
  ds_now_after :: u64
  ds_parse :: "string \<Rightarrow> u32 list option"

section \<open>Resolving\<close>

definition ares_setup :: "dns_sys \<Rightarrow> dns_state \<Rightarrow> bool \<times> dns_state" where
  "ares_setup sys st =
     (if ares_channel_init st then (True, st)
      else if ds_library_init sys \<noteq> 0 then (False, st)
      else if ds_init_options sys \<noteq> 0 then (False, st)
      else (True, st\<lparr>ares_channel_init := True\<rparr>))"

definition cache_hit :: "u64 \<Rightarrow> string \<Rightarrow> dns_state \<Rightarrow> res_cache option" where
  "cache_hit now domain st =
     (case map_of (cache st) domain of
        None \<Rightarrow> None
      | Some r \<Rightarrow> if ucast (rc_timeout r) > now div 1000 then Some r else None)"

text \<open>The addresses of a reply are appended to those of the entry.\<close>

definition store_reply :: "u64 \<Rightarrow> string \<Rightarrow> u32 list \<Rightarrow> dns_state \<Rightarrow> u32 \<times> dns_state" where
  "store_reply now domain ips st =
     (let n = (case map_of (cache st) domain of Some r \<Rightarrow> r | None \<Rightarrow> ResCache_init);
          n1 = n\<lparr>rc_timeout := ucast (now div 1000 + 5 * 60), rc_ip := rc_ip n @ ips\<rparr>;
          (ip, n2) = PickOne n1
      in (ip, st\<lparr>cache := AList.update domain n2 (cache st)\<rparr>))"

text \<open>\<open>Resolve\<close>: \<open>Some ip\<close> with true, \<open>None\<close> with false; nothing while it has not returned.\<close>

definition Resolve :: "dns_sys \<Rightarrow> string \<Rightarrow> dns_state \<Rightarrow> (u32 option \<times> dns_state) option" where
  "Resolve sys domain st0 =
     (let (ok, st) = ares_setup sys st0 in
      if \<not> ok then Some (None, st)
      else case cache_hit (ds_now sys) domain st of
        Some r \<Rightarrow>
          (let (ip, r1) = PickOne r in Some (Some ip, st\<lparr>cache := AList.update domain r1 (cache st)\<rparr>))
      | None \<Rightarrow>
          (let (ret, query) = ds_mkquery sys domain in
           if ret \<noteq> 0 then Some (None, st)
           else if ds_nservers sys \<le> 0 then Some (None, st)
           else case UdpSendAndRecv (ds_fd sys) (ds_getfl sys) (ds_setfl sys) (ds_sendto sys query) (ds_recvfrom sys) []
               (dns_errno st) (dns_frame st) of
             None \<Rightarrow> None
           | Some (ret', e, rsp, s) \<Rightarrow>
               (let st1 = st\<lparr>dns_errno := e, dns_frame := s\<rparr> in
                if ret' < 0 then Some (None, st1)
                else (case ds_parse sys rsp of
                  None \<Rightarrow> Some (None, st1)
                | Some ips \<Rightarrow> (let (ip, st2) = store_reply (ds_now_after sys) domain ips st1 in Some (Some ip, st2))))))"

text \<open>A sequence of calls for one domain, each with its own answers.\<close>

fun resolve_all :: "dns_sys list \<Rightarrow> string \<Rightarrow> dns_state \<Rightarrow> (u32 option list \<times> dns_state) option" where
  "resolve_all [] domain st = Some ([], st)"
| "resolve_all (sys # ss) domain st =
     (case Resolve sys domain st of
        None \<Rightarrow> None
      | Some (a, st1) \<Rightarrow> map_option (\<lambda>(as, st2). (a # as, st2)) (resolve_all ss domain st1))"

section \<open>Properties\<close>

definition fresh_at :: "res_cache \<Rightarrow> u64 \<Rightarrow> bool" where
  "fresh_at r now \<longleftrightarrow> ucast (rc_timeout r) > now div 1000"

lemma Resolve_hit:
  assumes "ares_channel_init st" and "map_of (cache st) domain = Some r" and "rc_ip r \<noteq> []" and "fresh_at r (ds_now sys)"
  shows "Resolve sys domain st = Some (Some (rc_ip r ! (unat (rc_idx r) mod length (rc_ip r))),
    st\<lparr>cache := AList.update domain (r\<lparr>rc_idx := rc_idx r + 1\<rparr>) (cache st)\<rparr>)"
  using assms by (simp add: Resolve_def ares_setup_def cache_hit_def fresh_at_def PickOne_def)

lemma unat_plus_one: "unat (x :: u32) + 1 < 2 ^ 32 \<Longrightarrow> unat (x + 1) = unat x + 1"
  using unat_add_lem [of x 1] by simp

text \<open>
  C28: as long as an entry of the cache is fresh, successive calls ask nobody and hand out its
  addresses in turn, starting with the one behind the last.
\<close>

theorem Resolve_rotates:
  assumes "ares_channel_init st" and "map_of (cache st) domain = Some r" and "rc_ip r \<noteq> []"
    and "\<forall>sys \<in> set ss. fresh_at r (ds_now sys)" and "unat (rc_idx r) + length ss < 2 ^ 32"
  shows "\<exists>st'. resolve_all ss domain st =
    Some (map (\<lambda>i. Some (rc_ip r ! ((unat (rc_idx r) + i) mod length (rc_ip r)))) [0..<length ss], st') \<and>
    dns_frame st' = dns_frame st"
  using assms
proof (induction ss arbitrary: st r)
  case (Cons sys ss)
  let ?r = "r\<lparr>rc_idx := rc_idx r + 1\<rparr>" and ?n = "length (rc_ip r)"
  let ?st = "st\<lparr>cache := AList.update domain ?r (cache st)\<rparr>"
  have h: "Resolve sys domain st = Some (Some (rc_ip r ! (unat (rc_idx r) mod ?n)), ?st)"
    using Cons.prems by (intro Resolve_hit) simp_all
  have i: "unat (rc_idx ?r) = unat (rc_idx r) + 1" using Cons.prems(5) by (simp add: unat_plus_one)
  have "\<exists>st'. resolve_all ss domain ?st =
      Some (map (\<lambda>i. Some (rc_ip ?r ! ((unat (rc_idx ?r) + i) mod length (rc_ip ?r)))) [0..<length ss], st') \<and>
      dns_frame st' = dns_frame ?st"
    by (rule Cons.IH) (use Cons.prems i in \<open>auto simp: update_conv' fresh_at_def\<close>)
  then obtain st' where "resolve_all ss domain ?st =
      Some (map (\<lambda>i. Some (rc_ip r ! ((unat (rc_idx r) + 1 + i) mod ?n))) [0..<length ss], st')" "dns_frame st' = dns_frame st"
    unfolding i by auto
  with h show ?case by (auto simp: map_upt_Suc simp del: upt_Suc)
qed simp

text \<open>
  Addresses outlive their entry.  When an entry has expired the addresses of the new reply are
  added behind the old ones, and the call returns an element of the joint list: an expired address
  whenever the counter points to one.
\<close>

theorem Resolve_returns_expired_addresses:
  assumes "ares_channel_init st" and "map_of (cache st) domain = Some r" and "\<not> fresh_at r (ds_now sys)"
    and "ds_mkquery sys domain = (0, q)" and "0 < ds_nservers sys"
    and "UdpSendAndRecv (ds_fd sys) (ds_getfl sys) (ds_setfl sys) (ds_sendto sys q) (ds_recvfrom sys) []
      (dns_errno st) (dns_frame st) = Some (0, e, rsp, s)"
    and "ds_parse sys rsp = Some ips" and "unat (rc_idx r) mod length (rc_ip r @ ips) < length (rc_ip r)"
  shows "\<exists>st'. Resolve sys domain st = Some (Some (rc_ip r ! (unat (rc_idx r) mod length (rc_ip r @ ips))), st')"
proof -
  have "rc_ip r \<noteq> []" using assms(8) by auto
  with assms show ?thesis
    by (simp add: Resolve_def ares_setup_def cache_hit_def fresh_at_def store_reply_def PickOne_def Let_def nth_append)
qed

definition demo_dns :: dns_sys where
  "demo_dns = \<lparr>ds_library_init = 0, ds_init_options = 0, ds_now = 400000, ds_mkquery = \<lambda>d. (0, d), ds_nservers = 1, ds_fd = 4,
     ds_getfl = 0, ds_setfl = \<lambda>_. 0, ds_sendto = \<lambda>_. 1, ds_recvfrom = [Ok (''r'', ())], ds_now_after = 400000,
     ds_parse = \<lambda>_. Some [22]\<rparr>"

definition demo_cache :: "u32 \<Rightarrow> dns_state" where
  "demo_cache timeout = \<lparr>ares_channel_init = True, cache = [(''a.b'', \<lparr>rc_ip = [11, 12], rc_timeout = timeout, rc_idx = 0\<rparr>)],
     dns_errno = EINTR, dns_frame = Frame_static\<rparr>"

theorem Resolve_rotates_witness:
  "\<exists>st'. resolve_all [demo_dns, demo_dns, demo_dns] ''a.b'' (demo_cache 500) = Some ([Some 11, Some 12, Some 11], st')"
  using Resolve_rotates [of "demo_cache 500" "''a.b''" "\<lparr>rc_ip = [11, 12], rc_timeout = 500, rc_idx = 0\<rparr>" "[demo_dns, demo_dns, demo_dns]"]
  by (auto simp: demo_cache_def demo_dns_def fresh_at_def upt_rec)

theorem Resolve_returns_expired_addresses_witness:
  "\<exists>st'. Resolve demo_dns ''a.b'' (demo_cache 300) = Some (Some 11, st')"
  using Resolve_returns_expired_addresses [of "demo_cache 300" "''a.b''" "\<lparr>rc_ip = [11, 12], rc_timeout = 300, rc_idx = 0\<rparr>" demo_dns
      "''a.b''" EINTR "''r''" Frame_static "[22]"]
  by (simp add: demo_cache_def demo_dns_def fresh_at_def UdpSendAndRecv_def SetNonBlock_def sendto_def)

end
