(* ===== verification/Http_Exchange.thy ===== *)
theory Http_Exchange
  imports Http_Server
begin

text \<open>
  Requests and responses across a connection: what \<open>HttpParserImpl\<close> makes of a serialised response,
  and the URL object of a parsed request.  http_parser is a parameter that is assumed to report a
  message in the serialised form as the reference reader reads it.
\<close>

section \<open>The URL object of a request\<close>

lemma run_request_uri_obj:
  "run_request pu un b es t = Some t' \<Longrightarrow> (\<And>u. OnUrl u \<notin> set es) \<Longrightarrow> uri_obj (http_struct t') = uri_obj (http_struct t)"
  by (induction pu un b es t arbitrary: t' rule: run_request.induct)
    (auto simp: op_defs split: option.splits if_splits)

lemma set_headers_uri_obj: "uri_obj (set_headers rq_SetHeader hs r) = uri_obj r"
  by (induction hs arbitrary: r rule: fields.induct) (auto simp: rq_SetHeader_def)

lemma parse_serialized_url:
  assumes ser: "rq_SerializeToString r = Some s" and reads: "parser_reads hp s"
    and uri: "CHR '' '' \<notin> set (struri r)" "CHR 0x0D \<notin> set (struri r)" "ParseUrl pu un (struri r) URL_ctor = Some (x, u)"
    and clean: "\<forall>h \<in> set (rq_headers r). snd h \<noteq> [] \<longrightarrow> clean_header h"
    and parse: "ParseHttpRequest hp pu un s (Some HttpRequest_ctor) = Some (0, Some r')"
  shows "uri_obj r' = u"
proof -
  let ?hs = "filter (\<lambda>h. snd h \<noteq> []) (rq_headers r)"
  let ?t = "\<lparr>http_struct = HttpRequest_ctor, param_headers = []\<rparr>"
  let ?es = "concat (map (\<lambda>(f, v). [OnHeaderField f, OnHeaderValue v]) ?hs) @ (if rq_content r = [] then [] else [OnBody (rq_content r)])"
  from reads read_serialized [OF ser uri(1,2) clean]
  have ev: "events (hp s) = OnUrl (struri r) # ?es" by (simp add: parser_reads_def message_events_def)
  define t1 where "t1 = ?t\<lparr>http_struct := (SetUri (struri r) HttpRequest_ctor)\<lparr>uri_obj := u\<rparr>\<rparr>"
  have cb: "request_url_cb pu un (struri r) ?t = Some t1"
    using uri(3) by (simp add: request_url_cb_def t1_def SetUri_def HttpRequest_ctor_def Let_def)
  from parse obtain hpp where h: "run_request pu un True (events (hp s)) ?t = Some hpp"
    and r': "r' = decide_keepalive (SetMethod (method_of (hp_method (hp s))) (set_headers rq_SetHeader (param_headers hpp) (http_struct hpp)))"
    by (auto simp: ParseHttpRequest_def Let_def split: option.splits if_splits)
  have "run_request pu un True ?es t1 = Some hpp" using h ev cb by simp
  moreover have "OnUrl v \<notin> set ?es" for v by auto
  ultimately have "uri_obj (http_struct hpp) = u" using run_request_uri_obj [of pu un True ?es t1 hpp] by (simp add: t1_def)
  then show ?thesis by (simp add: r' decide_keepalive_def SetKeepAlive_def SetMethod_def set_headers_uri_obj)
qed

section \<open>Responses\<close>

text \<open>The reference reader: the number behind \<open>HTTP/1.1\<close>, the headers and the body.\<close>

definition read_response :: "string \<Rightarrow> (nat \<times> headers \<times> string) option" where
  "read_response s =
     (case read_line s of
        None \<Rightarrow> None
      | Some (l, r) \<Rightarrow>
          (if take 9 l = ''HTTP/1.1 ''
           then map_option (\<lambda>(hs, b). (digits_value (takeWhile isdigit (drop 9 l)), hs, b)) (read_headers r)
           else None))"

definition response_events :: "headers \<Rightarrow> string \<Rightarrow> parser_event list" where
  "response_events hs b = concat (map (\<lambda>(f, v). [OnHeaderField f, OnHeaderValue v]) hs) @ (if b = [] then [] else [OnBody b])"

definition response_reads :: "(string \<Rightarrow> parser_run) \<Rightarrow> string \<Rightarrow> bool" where
  "response_reads hp s \<longleftrightarrow>
     (case read_response s of None \<Rightarrow> True
      | Some (n, hs, b) \<Rightarrow> events (hp s) = response_events hs b \<and> nparsed (hp s) = length s \<and> status_code (hp s) = n)"

text \<open>A parser that behaves like this.\<close>

definition response_parser :: "string \<Rightarrow> parser_run" where
  "response_parser s =
     (case read_response s of
        None \<Rightarrow> \<lparr>events = [], nparsed = 0, hp_method = HTTP_OTHER, status_code = 0\<rparr>
      | Some (n, hs, b) \<Rightarrow> \<lparr>events = response_events hs b, nparsed = length s, hp_method = HTTP_OTHER, status_code = n\<rparr>)"

lemma response_parser_reads: "response_reads response_parser s"
  by (auto simp: response_reads_def response_parser_def split: option.splits)

lemma takeWhile_digits: "takeWhile isdigit (nat_to_string n @ CHR '' '' # r) = nat_to_string n"
  using nat_to_string_digits [of n] by (simp add: takeWhile_append isdigit_def)

lemma read_response_serialized:
  assumes "\<forall>h \<in> set (rs_headers r). snd h \<noteq> [] \<longrightarrow> clean_header h" and "0 \<le> status r"
  shows "read_response (rs_SerializeToString r) = Some (nat (status r), filter (\<lambda>h. snd h \<noteq> []) (rs_headers r), rs_content r)"
proof -
  let ?l = "''HTTP/1.1 '' @ int_to_string (status r) @ '' '' @ reason (status r)"
  let ?rest = "header_lines (rs_headers r) @ crlf @ rs_content r"
  have "CHR 0x0D \<notin> set ?l" using int_to_string_no_cr [of "status r"] by (auto simp: reason_def)
  from read_line_app [OF this, of ?rest] have "read_line (rs_SerializeToString r) = Some (?l, ?rest)"
    by (simp add: rs_SerializeToString_def)
  moreover have "takeWhile isdigit (drop 9 ?l) = nat_to_string (nat (status r))"
    using assms(2) takeWhile_digits [of "nat (status r)" "reason (status r)"] by (simp add: int_to_string_def)
  ultimately show ?thesis using read_header_lines [OF assms(1), of "rs_content r"]
    by (simp add: read_response_def digits_value_nat_to_string)
qed

lemma run_response_headers:
  "run_response (concat (map (\<lambda>(f, v). [OnHeaderField f, OnHeaderValue v]) hs) @ es) t =
    run_response es (t\<lparr>param_headers := param_headers t @ concat (map (\<lambda>(f, v). [f, v]) hs)\<rparr>)"
  by (induction hs arbitrary: t) (auto simp: header_field_cb_def header_value_cb_def)

lemma set_headers_rs:
  "distinct (map fst hs) \<Longrightarrow>
   map_of (rs_headers (set_headers rs_SetHeader (concat (map (\<lambda>(f, v). [f, v]) hs)) r)) f =
     (case map_of hs f of Some v \<Rightarrow> Some v | None \<Rightarrow> map_of (rs_headers r) f)"
  "rs_content (set_headers rs_SetHeader (concat (map (\<lambda>(f, v). [f, v]) hs)) r) = rs_content r"
proof (induction hs arbitrary: r)
  case (Cons h hs)
  obtain g w where h: "h = (g, w)" by (cases h)
  { case 1 with h have "map_of hs g = None" by (simp add: map_of_eq_None_iff)
    with 1 Cons h show ?case by (auto simp: rs_SetHeader_def update_conv' split: option.splits) }
  { case 2 with Cons h show ?case by (simp add: rs_SetHeader_def) }
qed simp_all

lemma parse_response:
  assumes reads: "response_reads hp (rs_SerializeToString r)" and clean: "\<forall>h \<in> set (rs_headers r). snd h \<noteq> [] \<longrightarrow> clean_header h"
    and dist: "distinct (map fst (rs_headers r))" and st: "0 \<le> status r"
    and len: "rs_content r \<noteq> [] \<longrightarrow> rs_GetHeader ''Content-Length'' r = nat_to_string (length (rs_content r))"
  shows "\<exists>r'. ParseHttpResponse hp (rs_SerializeToString r) (Some HttpResponse_ctor) = Some (0, Some r') \<and>
    status r' = status r \<and> rs_content r' = rs_content r \<and> (\<forall>f. rs_GetHeader f r' = rs_GetHeader f r)"
proof -
  let ?s = "rs_SerializeToString r" and ?hs = "filter (\<lambda>h. snd h \<noteq> []) (rs_headers r)"
  from reads read_response_serialized [OF clean st]
  have run: "events (hp ?s) = response_events ?hs (rs_content r)" "nparsed (hp ?s) = length ?s" "status_code (hp ?s) = nat (status r)"
    by (simp_all add: response_reads_def)
  define m where "m = (if rs_content r = [] then HttpResponse_ctor else rs_SetContent (rs_content r) HttpResponse_ctor)"
  have hpp: "run_response (events (hp ?s)) \<lparr>http_struct = HttpResponse_ctor, param_headers = []\<rparr> =
      \<lparr>http_struct = m, param_headers = concat (map (\<lambda>(f, v). [f, v]) ?hs)\<rparr>"
    unfolding run(1) response_events_def run_response_headers by (simp add: m_def response_body_cb_def)
  define r' where "r' = SetStatus (status r) (set_headers rs_SetHeader (concat (map (\<lambda>(f, v). [f, v]) ?hs)) m)"
  have p: "ParseHttpResponse hp ?s (Some HttpResponse_ctor) = Some (0, Some r')"
    using hpp run(2,3) st even_pairs [of ?hs] by (simp add: ParseHttpResponse_def Let_def r'_def)
  have c: "rs_content m = rs_content r" by (simp add: m_def rs_SetContent_def HttpResponse_ctor_def)
  have d: "distinct (map fst ?hs)" using dist by (rule distinct_map_filter)
  have g: "rs_GetHeader f r' = rs_GetHeader f r" for f
  proof -
    have "map_of (rs_headers r') f = (case map_of ?hs f of Some v \<Rightarrow> Some v | None \<Rightarrow> map_of (rs_headers m) f)"
      by (simp add: r'_def SetStatus_def set_headers_rs(1) [OF d])
    moreover have "map_of (rs_headers m) f =
        (if f = ''Content-Length'' \<and> rs_content r \<noteq> [] then Some (nat_to_string (length (rs_content r))) else None)"
      by (simp add: m_def rs_SetContent_def HttpResponse_ctor_def)
    ultimately show ?thesis using len map_of_nonempty_values [OF dist, of f] nat_to_string_nonempty [of "length (rs_content r)"]
        nat_to_string_nonempty [of "length (rs_content r)", symmetric]
      by (auto simp: rs_GetHeader_def split: option.splits if_splits)
  qed
  from p c g show ?thesis by (auto simp: r'_def SetStatus_def set_headers_rs(2))
qed

text \<open>
  C13: \<open>ParseHttpResponse\<close> undoes \<open>SerializeToString\<close>.  Given a parser that behaves as documented, a response
  is parsed from its serialised form into one with the same status, body and headers.
\<close>

theorem response_parse_undoes_serialize:
  assumes "response_reads hp (rs_SerializeToString r)" and "\<forall>h \<in> set (rs_headers r). snd h \<noteq> [] \<longrightarrow> clean_header h"
    and "distinct (map fst (rs_headers r))" and "0 \<le> status r"
    and "rs_content r \<noteq> [] \<longrightarrow> rs_GetHeader ''Content-Length'' r = nat_to_string (length (rs_content r))"
  shows "\<exists>r'. ParseHttpResponse hp (rs_SerializeToString r) (Some HttpResponse_ctor) = Some (0, Some r') \<and>
    status r' = status r \<and> rs_content r' = rs_content r \<and> (\<forall>f. rs_GetHeader f r' = rs_GetHeader f r)"
  using assms by (rule parse_response)

theorem response_parse_undoes_serialize_witness:
  "\<exists>r'. ParseHttpResponse response_parser (rs_SerializeToString (rs_SetContent ''hi'' (SetStatus 404 HttpResponse_ctor)))
      (Some HttpResponse_ctor) = Some (0, Some r') \<and> status r' = 404 \<and> rs_content r' = ''hi''"
proof -
  have d: "nat_to_string (Suc (Suc 0)) = ''2''" by code_simp
  show ?thesis
    using response_parse_undoes_serialize [OF response_parser_reads, of "rs_SetContent ''hi'' (SetStatus 404 HttpResponse_ctor)"]
    by (auto simp: op_defs HttpResponse_ctor_def d clean_header_def)
qed

end
