(* ===== verification/Http_Op.thy ===== *)
theory Http_Op
  imports Tcp_Client Https_Client Dns Http_Exchange
begin

text \<open>
  http/http_op.*: requests to a URL.  \<open>op_env\<close> collects the parameters of the parts it is made of: the
  resolver, the two clients and http_parser.
\<close>

section \<open>Operations\<close>

definition EC_DNS_RESOLVE_ERROR :: int where
  "EC_DNS_RESOLVE_ERROR = -1"

definition EC_INIT_ERROR :: int where
  "EC_INIT_ERROR = -2"

definition EC_SEND_AND_RECEIVE_ERROR :: int where
  "EC_SEND_AND_RECEIVE_ERROR = -3"

definition EC_RESPONSE_ERROR :: int where
  "EC_RESPONSE_ERROR = -4"

definition EC_UNKNOWN :: int where
  "EC_UNKNOWN = -5"

record op_env =
  oe_dns :: dns_sys
  oe_conn :: conn_sys
  oe_https :: https_sys
  oe_check :: "int \<Rightarrow> string \<Rightarrow> nat \<times> bool"
  oe_exec :: "string \<Rightarrow> parser_run"
  oe_url :: "string \<Rightarrow> parsed_url option"
  oe_unescape :: "string \<Rightarrow> string"
  oe_send :: "nat answer list list"
  oe_recv :: "char list answer list list"

text \<open>
  The state around an operation: the resolver with \<open>errno\<close> and the framework, the static SSL context, the
  bytes that were sent in clear and the descriptors that were closed.
\<close>

record op_state =
  os_dns :: dns_state
  os_ctx :: bool
  os_sent :: string
  os_closed :: "int list"

definition os_leave :: "errno \<Rightarrow> frame \<Rightarrow> string \<Rightarrow> int list \<Rightarrow> op_state \<Rightarrow> op_state" where
  "os_leave e s out fds st =
     st\<lparr>os_dns := (os_dns st)\<lparr>dns_errno := e, dns_frame := s\<rparr>, os_sent := os_sent st @ out, os_closed := os_closed st @ fds\<rparr>"

text \<open>\<open>__HttpSendAndReveive\<close>: the client is closed by its destructor.\<close>

definition HttpSendAndReveive :: "op_env \<Rightarrow> u32 \<Rightarrow> u32 \<Rightarrow> string \<Rightarrow> op_state \<Rightarrow> (int \<times> string \<times> op_state) option" where
  "HttpSendAndReveive env ip p sendbuf st =
     (case HttpClient_Init (oe_conn env) ip (ucast p) (HttpClient_ctor (dns_errno (os_dns st)) (dns_frame (os_dns st))) of
        None \<Rightarrow> None
      | Some (r, hc) \<Rightarrow>
          if r < 0 then
            (let c = TcpConn_Close (hc_conn hc)
             in Some (EC_INIT_ERROR, [], os_leave (conn_errno c) (conn_frame c) [] (conn_closed c) st))
          else
            (case HttpClient_SendAndReceive (oe_conn env) (oe_check env) sendbuf (oe_send env) (oe_recv env) hc of
               None \<Rightarrow> None
             | Some (r', out, res, hc1) \<Rightarrow>
                 (let c = TcpConn_Close (hc_conn hc1);
                      st1 = os_leave (conn_errno c) (conn_frame c) out (conn_closed c) st;
                      recvbuf = (case res of Some t \<Rightarrow> t | None \<Rightarrow> [])
                  in Some (if r' < 0 then EC_SEND_AND_RECEIVE_ERROR else r', recvbuf, st1))))"

definition HttpsSendAndReveive :: "op_env \<Rightarrow> u32 \<Rightarrow> u32 \<Rightarrow> string \<Rightarrow> op_state \<Rightarrow> (int \<times> string \<times> op_state) option" where
  "HttpsSendAndReveive env ip p sendbuf st =
     (case HttpsClient_Init (oe_https env) ip (ucast p) 1000 5000 500
         (HttpsClient_ctor (os_ctx st) (dns_errno (os_dns st)) (dns_frame (os_dns st))) of
        None \<Rightarrow> None
      | Some (r, hc) \<Rightarrow>
          if r < 0 then
            (let c = HttpsClient_Close hc
             in Some (EC_INIT_ERROR, [], (os_leave (hs_errno c) (hs_frame c) [] (hs_closed c) st)\<lparr>os_ctx := hs_ctx c\<rparr>))
          else
            (case HttpsClient_SendAndReceive (oe_https env) (oe_check env) sendbuf hc of
               None \<Rightarrow> None
             | Some (r', res, hc1) \<Rightarrow>
                 (let c = HttpsClient_Close hc1;
                      st1 = (os_leave (hs_errno c) (hs_frame c) [] (hs_closed c) st)\<lparr>os_ctx := hs_ctx c\<rparr>;
                      recvbuf = (case res of Some t \<Rightarrow> t | None \<Rightarrow> [])
                  in Some (if r' < 0 then EC_SEND_AND_RECEIVE_ERROR else r', recvbuf, st1))))"

text \<open>
  \<open>__HttpRequest\<close> and \<open>__HttpsRequest\<close>: the result, the response object and the state; \<open>Some None\<close> is
  the abort of \<open>ParseHttpResponse\<close>.
\<close>

definition finish_request :: "op_env \<Rightarrow> http_response \<Rightarrow> int \<times> string \<times> op_state \<Rightarrow> (int \<times> http_response \<times> op_state) option" where
  "finish_request env hr res =
     (case res of
        (ret, recvbuf, st) \<Rightarrow>
          if ret < 0 then Some (ret, hr, st)
          else (case ParseHttpResponse (oe_exec env) recvbuf (Some hr) of
            Some (r, Some hr1) \<Rightarrow> Some (if r < 0 then EC_RESPONSE_ERROR else r, hr1, st)
          | _ \<Rightarrow> None))"

definition HttpRequest_op :: "op_env \<Rightarrow> u32 \<Rightarrow> u16 \<Rightarrow> http_request \<Rightarrow> http_response \<Rightarrow> op_state \<Rightarrow>
    (int \<times> http_response \<times> op_state) option option" where
  "HttpRequest_op env ip p q hr st =
     map_option (finish_request env hr) (HttpSendAndReveive env ip (ucast p) (rq_SerializeToString0 q) st)"

definition HttpsRequest_op :: "op_env \<Rightarrow> u32 \<Rightarrow> u16 \<Rightarrow> http_request \<Rightarrow> http_response \<Rightarrow> op_state \<Rightarrow>
    (int \<times> http_response \<times> op_state) option option" where
  "HttpsRequest_op env ip p q hr st =
     map_option (finish_request env hr) (HttpsSendAndReveive env ip (ucast p) (rq_SerializeToString0 q) st)"

definition fixed_url :: "string \<Rightarrow> string" where
  "fixed_url url =
     (if take 7 url \<noteq> ''http://'' \<and> take 8 url \<noteq> ''https://'' then ''http://'' @ url else url)"

text \<open>The loop over \<open>extra_headers\<close>.\<close>

definition set_extra :: "headers \<Rightarrow> http_request \<Rightarrow> http_request" where
  "set_extra extra q = fold (\<lambda>(f, v). rq_SetHeader f v) extra q"

definition get_request :: "URL \<Rightarrow> headers \<Rightarrow> http_request" where
  "get_request u extra =
     set_extra extra (SetUri (uri u) (SetMethod HTTP_REQUEST_METHOD_GET (rq_SetHeader ''Host'' (host u) HttpRequest_ctor)))"

definition post_request :: "URL \<Rightarrow> headers \<Rightarrow> string \<Rightarrow> http_request" where
  "post_request u extra c =
     set_extra extra (rq_SetContent c (rq_SetHeader ''Host'' (host u)
       (SetUri (uri u) (SetMethod HTTP_REQUEST_METHOD_POST HttpRequest_ctor))))"

text \<open>The common course of \<open>HttpGet\<close> and \<open>HttpPost\<close>, with the request made from the parsed URL.\<close>

definition http_call :: "op_env \<Rightarrow> string \<Rightarrow> (URL \<Rightarrow> http_request) \<Rightarrow> http_response \<Rightarrow> op_state \<Rightarrow>
    (int \<times> http_response \<times> op_state) option option" where
  "http_call env url mk hr st =
     (case ParseUrl (oe_url env) (oe_unescape env) (fixed_url url) URL_ctor of
        None \<Rightarrow> Some None
      | Some (r, u) \<Rightarrow>
          if r < 0 then Some (Some (EC_UNKNOWN, hr, st))
          else (case Resolve (oe_dns env) (host u) (os_dns st) of
            None \<Rightarrow> None
          | Some (None, d) \<Rightarrow> Some (Some (EC_DNS_RESOLVE_ERROR, hr, st\<lparr>os_dns := d\<rparr>))
          | Some (Some ip, d) \<Rightarrow>
              (let st1 = st\<lparr>os_dns := d\<rparr> in
               if \<not> IsHttps u then HttpRequest_op env ip (ucast (port u)) (mk u) hr st1
               else HttpsRequest_op env ip (ucast (port u)) (mk u) hr st1)))"

definition HttpGet :: "op_env \<Rightarrow> string \<Rightarrow> headers \<Rightarrow> http_response \<Rightarrow> op_state \<Rightarrow> (int \<times> http_response \<times> op_state) option option" where
  "HttpGet env url extra hr st = http_call env url (\<lambda>u. get_request u extra) hr st"

definition HttpPost :: "op_env \<Rightarrow> string \<Rightarrow> headers \<Rightarrow> string \<Rightarrow> http_response \<Rightarrow> op_state \<Rightarrow>
    (int \<times> http_response \<times> op_state) option option" where
  "HttpPost env url extra c hr st = http_call env url (\<lambda>u. post_request u extra c) hr st"

text \<open>The public functions; each \<open>HttpGet\<close> and \<open>HttpPost\<close> without a resolver makes a new one, which shares the cache.\<close>

definition HttpOp_HttpGet :: "op_env \<Rightarrow> string \<Rightarrow> headers \<Rightarrow> http_response \<Rightarrow> op_state \<Rightarrow> (int \<times> http_response \<times> op_state) option option" where
  "HttpOp_HttpGet env url extra hr st = HttpGet env url extra hr st"

definition HttpOp_HttpPost :: "op_env \<Rightarrow> string \<Rightarrow> headers \<Rightarrow> string \<Rightarrow> http_response \<Rightarrow> op_state \<Rightarrow>
    (int \<times> http_response \<times> op_state) option option" where
  "HttpOp_HttpPost env url extra c hr st = HttpPost env url extra c hr st"

definition HttpOp_HttpRequest :: "op_env \<Rightarrow> u32 \<Rightarrow> u16 \<Rightarrow> http_request \<Rightarrow> http_response \<Rightarrow> op_state \<Rightarrow>
    (int \<times> http_response \<times> op_state) option option" where
  "HttpOp_HttpRequest env ip p q hr st = HttpRequest_op env ip p q hr st"

definition HttpOp_HttpsRequest :: "op_env \<Rightarrow> u32 \<Rightarrow> u16 \<Rightarrow> http_request \<Rightarrow> http_response \<Rightarrow> op_state \<Rightarrow>
    (int \<times> http_response \<times> op_state) option option" where
  "HttpOp_HttpsRequest env ip p q hr st = HttpsRequest_op env ip p q hr st"

section \<open>Properties\<close>

text \<open>A URL whose parts can stand in a request.\<close>

definition clean_url :: "URL \<Rightarrow> bool" where
  "clean_url u \<longleftrightarrow> CHR '' '' \<notin> set (uri u) \<and> CHR 0x0D \<notin> set (uri u) \<and> CHR 0x0D \<notin> set (host u)"

lemma Init_connects:
  assumes "ip \<noteq> 0" and "p \<noteq> 0" and "0 \<le> cs_socket sys" and "cs_getfl sys \<noteq> -1"
    and "cs_setfl sys (cs_getfl sys OR O_NONBLOCK) \<noteq> -1"
    and "connect (cs_socket sys) (cs_connect sys) (conn_errno (hc_conn h)) (conn_frame (hc_conn h)) = Some (0, e, s)"
  shows "\<exists>h'. HttpClient_Init sys ip p h = Some (0, h') \<and> conn_fd (hc_conn h') = cs_socket sys"
  using assms by (simp add: HttpClient_Init_def TcpConn_Init_def SetBlocking_def Let_def)

text \<open>
  A plain request whose connection is established and whose response arrives complete: the result is
  that of parsing the response, and the serialised request is what was sent.
\<close>

lemma HttpRequest_op_exchange:
  assumes "ip \<noteq> 0" and "p \<noteq> 0" and "0 \<le> cs_socket (oe_conn env)" and "cs_getfl (oe_conn env) \<noteq> -1"
    and "cs_setfl (oe_conn env) (cs_getfl (oe_conn env) OR O_NONBLOCK) \<noteq> -1" and "cs_connect (oe_conn env) = [Ok 0]"
    and req: "rq_SerializeToString0 q \<noteq> []" "length (rq_SerializeToString0 q) < 2 ^ 31"
      "drains (length (rq_SerializeToString0 q)) w" "oe_send env = [w]"
    and rsp: "oe_recv env = map (\<lambda>c. [Ok c]) (cs @ [d])" "\<forall>c \<in> set (cs @ [d]). c \<noteq> [] \<and> length c \<le> kMaxRecvSize"
      "\<forall>i. 0 < i \<and> i \<le> length cs \<longrightarrow> fst (CheckHttp (oe_check env) (concat (take i cs))) = HPC_NOT_COMPLETE_HTTP"
      "fst (CheckHttp (oe_check env) (concat (cs @ [d]))) = HPC_OK" "length (concat (cs @ [d])) < 2 ^ 31"
    and parse: "ParseHttpResponse (oe_exec env) (concat (cs @ [d])) (Some hr) = Some (0, Some hr1)"
  shows "\<exists>st'. HttpRequest_op env ip p q hr st = Some (Some (0, hr1, st')) \<and> os_sent st' = os_sent st @ rq_SerializeToString0 q"
proof -
  let ?h = "HttpClient_ctor (dns_errno (os_dns st)) (dns_frame (os_dns st))"
  have "connect (cs_socket (oe_conn env)) (cs_connect (oe_conn env)) (conn_errno (hc_conn ?h)) (conn_frame (hc_conn ?h)) =
      Some (0, conn_errno (hc_conn ?h), conn_frame (hc_conn ?h))"
    using assms(6) by simp
  from Init_connects [OF assms(1-5) this] obtain h1 where
    init: "HttpClient_Init (oe_conn env) ip p ?h = Some (0, h1)" and fd: "conn_fd (hc_conn h1) = cs_socket (oe_conn env)" by blast
  have fd1: "conn_fd (hc_conn h1) \<noteq> kInvalidFd" using fd assms(3) by (simp add: kInvalidFd_def)
  obtain h2 where x: "HttpClient_SendAndReceive (oe_conn env) (oe_check env) (rq_SerializeToString0 q) (oe_send env) (oe_recv env) h1 =
      Some (0, rq_SerializeToString0 q, Some (concat (cs @ [d])), h2)"
    using client_exchanges [OF fd1 req(1,2,3) rsp(2-5)] rsp(1) req(4) by auto
  have "ucast (ucast p :: u32) = p" by (rule bit_word_eqI) (auto simp: bit_ucast_iff)
  then show ?thesis using init x parse
    by (simp add: HttpRequest_op_def HttpSendAndReveive_def finish_request_def os_leave_def Let_def del: concat_append)
qed

text \<open>A URL parser that finds \<open>https\<close>, a host of one letter, a port of four digits and a path behind them.\<close>

definition demo_url :: "string \<Rightarrow> parsed_url option" where
  "demo_url s = Some [UF_SCHEMA \<mapsto> (0, 5), UF_HOST \<mapsto> (8, 1), UF_PORT \<mapsto> (10, 4), UF_PATH \<mapsto> (14, 2)]"


definition demo_op_env :: op_env where
  "demo_op_env = \<lparr>oe_dns = demo_dns,
     oe_conn = \<lparr>cs_socket = 5, cs_socket_errno = EINTR, cs_getfl = 0, cs_setfl = \<lambda>_. 0, cs_connect = [Ok 0], cs_strerror = \<lambda>_. []\<rparr>,
     oe_https = \<lparr>ht_socket = 5, ht_getfl = 0, ht_setfl = \<lambda>_. 0, ht_keepalive = 0, ht_keepidle = 0, ht_keepintvl = 0,
       ht_keepcnt = 0, ht_bio_new = None, ht_ctx_new = True, ht_connect = [], ht_ssl_new = True, ht_ssl_connect = (1, EINTR, id),
       ht_ssl_write = [], ht_ssl_read = [],
      ht_ssl_error = id, ht_inet_ntoa = \<lambda>_. [], ht_strerror = \<lambda>_. [], ht_errno_number = \<lambda>_. 0\<rparr>,
     oe_check = env_check (demo_env 4), oe_exec = plain_parser, oe_url = demo_url, oe_unescape = id, oe_send = [], oe_recv = []\<rparr>"

definition demo_op_state :: op_state where
  "demo_op_state = \<lparr>os_dns = (demo_cache 500)\<lparr>cache := [(''a'', \<lparr>rc_ip = [11], rc_timeout = 500, rc_idx = 0\<rparr>)]\<rparr>, os_ctx = False,
     os_sent = [], os_closed = []\<rparr>"




end
