(* ===== verification/Util_Net.thy ===== *)
theory Util_Net
  imports Util_String
begin

text \<open>
  The address texts of util/network.h and util/network.cc.  Addresses and ports of a \<open>sockaddr_in\<close> are in
  network byte order; the first byte in memory is the lowest of the word, as on x86.
\<close>

unbundle bit_operations_syntax

record end_point =
  ep_ip :: u32
  ep_port :: u16

definition EndPoint_ctor :: end_point where
  "EndPoint_ctor = \<lparr>ep_ip = 0, ep_port = 0\<rparr>"

definition ip_byte :: "nat \<Rightarrow> u32 \<Rightarrow> u8" where
  "ip_byte i a = ucast (drop_bit (8 * i) a)"

definition inet_ntoa :: "u32 \<Rightarrow> string" where
  "inet_ntoa a = join CHR ''.'' (map (\<lambda>i. nat_to_string (unat (ip_byte i a))) [0, 1, 2, 3])"

definition ntohs :: "u16 \<Rightarrow> u16" where
  "ntohs p = push_bit 8 p OR drop_bit 8 p"

definition ntoa :: "u32 \<Rightarrow> string" where
  "ntoa ip = inet_ntoa ip"

definition InetAddrToString :: "u32 \<Rightarrow> u16 \<Rightarrow> string" where
  "InetAddrToString sin_addr sin_port = inet_ntoa sin_addr @ '':'' @ nat_to_string (unat (ntohs sin_port))"

definition EndPoint_ToString :: "end_point \<Rightarrow> string" where
  "EndPoint_ToString e = ntoa (ep_ip e) @ '':'' @ nat_to_string (unat (ep_port e))"

section \<open>Reading the texts back\<close>

text \<open>The reference reader: four numbers with points between them, a colon and a number.\<close>

definition read_end_point :: "string \<Rightarrow> end_point option" where
  "read_end_point s =
     (case Split s CHR '':'' of
        [a, p] \<Rightarrow>
          (case map digits_value (Split a CHR ''.'') of
             [b0, b1, b2, b3] \<Rightarrow> Some \<lparr>ep_ip = word_of_nat (b0 + 256 * (b1 + 256 * (b2 + 256 * b3))), ep_port = word_of_nat (digits_value p)\<rparr>
           | _ \<Rightarrow> None)
      | _ \<Rightarrow> None)"

lemma digits_free: "\<not> isdigit c \<Longrightarrow> c \<notin> set (nat_to_string n)"
  using nat_to_string_digits [of n] by auto

lemma digits_nonempty: "nat_to_string n \<noteq> []"
  using nat_to_string_digits [of n] by simp

lemma unat_ip_byte: "unat (ip_byte i a) = unat a div 2 ^ (8 * i) mod 256"
proof -
  have "unat (ip_byte i a) = unat (drop_bit (8 * i) a) mod 256"
    by (simp add: ip_byte_def unsigned_ucast_eq take_bit_eq_mod)
  then show ?thesis unfolding unat_drop_bit_eq by (simp only: drop_bit_eq_div)
qed

lemma bytes_of_nat: "(n::nat) < 2 ^ 32 \<Longrightarrow>
    n mod 256 + 256 * (n div 256 mod 256 + 256 * (n div 65536 mod 256 + 256 * (n div 16777216 mod 256))) = n"
proof -
  assume n: "n < 2 ^ 32"
  have d: "n div 65536 = n div 256 div 256" "n div 16777216 = n div 256 div 256 div 256" by (simp_all add: div_mult2_eq [symmetric])
  have "n div 256 div 256 div 256 < 256" using n by (simp add: div_less_iff_less_mult div_mult2_eq [symmetric])
  then have "n div 256 div 256 mod 256 + 256 * (n div 256 div 256 div 256 mod 256) = n div 256 div 256" by simp
  then show ?thesis unfolding d by simp
qed

lemma ip_of_bytes:
  "word_of_nat (unat (ip_byte 0 a) + 256 * (unat (ip_byte 1 a) + 256 * (unat (ip_byte 2 a) + 256 * unat (ip_byte 3 a)))) = a"
proof -
  have "unat (ip_byte 0 a) + 256 * (unat (ip_byte 1 a) + 256 * (unat (ip_byte 2 a) + 256 * unat (ip_byte 3 a))) = unat a"
    using bytes_of_nat [of "unat a"] unsigned_less [of a, where ?'a = nat] by (simp add: unat_ip_byte)
  then show ?thesis by simp
qed

lemma read_inet_ntoa: "map digits_value (Split (inet_ntoa a) CHR ''.'') = map (\<lambda>i. unat (ip_byte i a)) [0, 1, 2, 3]"
proof -
  have "\<not> isdigit CHR ''.''" by (simp add: isdigit_def)
  then have "Split (inet_ntoa a) CHR ''.'' = map (\<lambda>i. nat_to_string (unat (ip_byte i a))) [0, 1, 2, 3]"
    unfolding inet_ntoa_def by (intro Split_join) (auto simp: digits_free digits_nonempty)
  then show ?thesis by (simp add: digits_value_nat_to_string)
qed

lemma read_address: "read_end_point (inet_ntoa a @ '':'' @ nat_to_string (unat p)) = Some \<lparr>ep_ip = a, ep_port = p\<rparr>"
proof -
  have c: "\<not> isdigit CHR '':''" by (simp add: isdigit_def)
  have "CHR '':'' \<notin> set (inet_ntoa a)" using digits_free [OF c] by (simp add: inet_ntoa_def)
  then have "Split (join CHR '':'' [inet_ntoa a, nat_to_string (unat p)]) CHR '':'' = [inet_ntoa a, nat_to_string (unat p)]"
    using digits_free [OF c] digits_nonempty by (intro Split_join) auto
  then show ?thesis using read_inet_ntoa [of a] ip_of_bytes [of a]
    by (simp add: read_end_point_def digits_value_nat_to_string)
qed

lemma ntohs_twice: "ntohs (ntohs p) = p"
  by (rule bit_word_eqI) (auto simp: ntohs_def bit_simps)

text \<open>
  C32: the texts of end points are unambiguous.  An end point is read back from \<open>ToString\<close>, an address of
  a \<open>sockaddr_in\<close> from \<open>InetAddrToString\<close> with its port in host order, and two conversions of a port cancel.
\<close>

theorem end_point_roundtrip:
  "read_end_point (EndPoint_ToString e) = Some e \<and>
   read_end_point (InetAddrToString a p) = Some \<lparr>ep_ip = a, ep_port = ntohs p\<rparr> \<and> ntohs (ntohs p) = p"
  using read_address [of "ep_ip e" "ep_port e"] read_address [of a "ntohs p"] ntohs_twice
  by (simp add: EndPoint_ToString_def InetAddrToString_def ntoa_def)

end
