(* ===== verification/Rpc.thy ===== *)
theory Rpc
  imports Server_Impl Http_Op Util_Net
begin

text \<open>
  rpc/: the server side, \<open>TinycoRpc::Serve\<close>, and the client side, \<open>Channel::CallMethod\<close> and
  \<open>Controller\<close>.  protobuf is a parameter: messages are their serialised texts, a service is what its
  descriptor and its methods answer.
\<close>

section \<open>The server\<close>

record rpc_env =
  rp_method_count :: "ptr \<Rightarrow> int"
  rp_FindMethodByName :: "ptr \<Rightarrow> string \<Rightarrow> bool"
  rp_ParseFromString :: "ptr \<Rightarrow> string \<Rightarrow> string \<Rightarrow> bool"
  rp_CallMethod :: "ptr \<Rightarrow> string \<Rightarrow> string \<Rightarrow> string"
  rp_effect :: "frame \<Rightarrow> frame"

text \<open>The members of the work object \<open>Serve\<close> uses, and what has been sent on the connection.\<close>

record rpc_work =
  rw_sockfd :: int
  rw_hreq :: http_request
  rw_hrsp :: http_response
  rw_sent :: string
  rw_errno :: errno
  rw_frame :: frame

definition rpc_Reply :: "nat answer list \<Rightarrow> rpc_work \<Rightarrow> rpc_work option" where
  "rpc_Reply w st =
     (case HttpSrvWork_Reply (rw_sockfd st) w (rw_hreq st) (rw_hrsp st) (rw_errno st) (rw_frame st) of
        (p, None) \<Rightarrow> None
      | (p, Some (r, e, d, s)) \<Rightarrow> Some (st\<lparr>rw_hrsp := p, rw_sent := rw_sent st @ d, rw_errno := e, rw_frame := s\<rparr>))"

definition reply404 :: "nat answer list \<Rightarrow> rpc_work \<Rightarrow> (int \<times> rpc_work) option" where
  "reply404 w st = map_option (\<lambda>st1. (0, st1)) (rpc_Reply w (st\<lparr>rw_hrsp := SetStatus 404 (rw_hrsp st)\<rparr>))"

definition TinycoRpc_Serve :: "rpc_env \<Rightarrow> (string \<times> method_descriptor) list \<Rightarrow> nat answer list \<Rightarrow> rpc_work \<Rightarrow>
    (int \<times> rpc_work) option" where
  "TinycoRpc_Serve env mm w st =
     (case map_of mm (path (uri_obj (rw_hreq st))) of
        None \<Rightarrow> reply404 w st
      | Some md \<Rightarrow>
          if rp_method_count env (service md) = 0 then reply404 w st
          else if \<not> rp_FindMethodByName env (service md) (md_method md) then reply404 w st
          else if \<not> rp_ParseFromString env (service md) (md_method md) (rq_content (rw_hreq st)) then Some (-1, st)
          else
            let strrsp = rp_CallMethod env (service md) (md_method md) (rq_content (rw_hreq st));
                st1 = st\<lparr>rw_frame := rp_effect env (rw_frame st), rw_hrsp := rs_SetContent strrsp (rw_hrsp st)\<rparr>
            in map_option (\<lambda>st2. (0, st2)) (rpc_Reply w st1))"

section \<open>The client\<close>

record controller =
  c_connect_timeout :: int
  c_recv_timeout :: int
  c_error_code :: int
  hreq_header :: http_request
  hrsp_header :: http_response

text \<open>The timeouts are indeterminate; the arguments stand for them.\<close>

definition Controller_ctor :: "int \<Rightarrow> int \<Rightarrow> controller" where
  "Controller_ctor tc tr = \<lparr>c_connect_timeout = tc, c_recv_timeout = tr, c_error_code = 0,
     hreq_header = SetMethod HTTP_REQUEST_METHOD_POST HttpRequest_ctor, hrsp_header = HttpResponse_ctor\<rparr>"

definition set_error_code :: "int \<Rightarrow> controller \<Rightarrow> controller" where
  "set_error_code ec c = c\<lparr>c_error_code := ec\<rparr>"

definition set_connect_timoeut :: "int \<Rightarrow> controller \<Rightarrow> controller" where
  "set_connect_timoeut t c = c\<lparr>c_connect_timeout := t\<rparr>"

definition set_recv_timoeut :: "int \<Rightarrow> controller \<Rightarrow> controller" where
  "set_recv_timoeut t c = c\<lparr>c_recv_timeout := t\<rparr>"

definition Failed :: "controller \<Rightarrow> bool" where
  "Failed c = False"

text \<open>The remaining functions of the protobuf interface are there and do nothing.\<close>

definition Controller_Reset :: "controller \<Rightarrow> controller" where
  "Controller_Reset c = c"

definition ErrorText :: "controller \<Rightarrow> string" where
  "ErrorText c = []"

definition StartCancel :: "controller \<Rightarrow> controller" where
  "StartCancel c = c"

definition SetFailed :: "string \<Rightarrow> controller \<Rightarrow> controller" where
  "SetFailed why c = c"

definition IsCanceled :: "controller \<Rightarrow> bool" where
  "IsCanceled c = False"

definition NotifyOnCancel :: "ptr \<Rightarrow> controller \<Rightarrow> controller" where
  "NotifyOnCancel callback c = c"

text \<open>A failure the server side announces is not seen.\<close>

lemma SetFailed_unseen: "\<not> Failed (SetFailed why c)" "ErrorText (SetFailed why c) = []" "Controller_Reset (set_error_code e c) = set_error_code e c"
  by (simp_all add: Failed_def SetFailed_def ErrorText_def Controller_Reset_def)

text \<open>The channel has one member, the end point of the server; \<open>InitServer\<close> has no \<open>return\<close>.\<close>

record channel =
  server :: end_point

definition Channel_InitServer :: "end_point \<Rightarrow> channel \<Rightarrow> channel" where
  "Channel_InitServer e ch = ch\<lparr>server := e\<rparr>"

text \<open>
  \<open>Channel::CallMethod\<close>: the controller and the content the response message was parsed from, if it was.
  \<open>Some None\<close> is the abort of \<open>ParseHttpResponse\<close>.
\<close>

definition Channel_CallMethod :: "op_env \<Rightarrow> (string \<Rightarrow> bool) \<Rightarrow> channel \<Rightarrow> string \<Rightarrow> controller \<Rightarrow> op_state \<Rightarrow>
    (controller \<times> string option \<times> op_state) option option" where
  "Channel_CallMethod env parse ch req_content c st =
     (let hrq = rq_SetContent req_content (hreq_header c); hrs = HttpResponse_ctor in
      if status hrs \<noteq> 200 then Some (Some (c, None, st))
      else map_option
        (map_option (\<lambda>(ret, hrs1, st1).
           if ret < 0 then (set_error_code (-1) c, None, st1)
           else if \<not> parse (rs_content hrs1) then (c, None, st1)
           else (c, Some (rs_content hrs1), st1)))
        (HttpRequest_op env (ep_ip (server ch)) (ep_port (server ch)) hrq hrs st))"

section \<open>Properties\<close>

text \<open>What \<open>Reply\<close> sends: the response with the \<open>Connection\<close> header of the request.\<close>

definition replied :: "http_request \<Rightarrow> http_response \<Rightarrow> http_response" where
  "replied q p = (if rq_IsHeader ''Connection'' q then rs_SetHeader ''Connection'' (rq_GetHeader ''Connection'' q) p else p)"

lemma rpc_Reply_sends:
  assumes "drains (length (rs_SerializeToString (replied (rw_hreq st) (rw_hrsp st)))) w"
    and "length (rs_SerializeToString (replied (rw_hreq st) (rw_hrsp st))) < 2 ^ 31"
  shows "\<exists>e s. rpc_Reply w st = Some (st\<lparr>rw_hrsp := replied (rw_hreq st) (rw_hrsp st),
    rw_sent := rw_sent st @ rs_SerializeToString (replied (rw_hreq st) (rw_hrsp st)), rw_errno := e, rw_frame := s\<rparr>)"
proof -
  obtain e s where "send (rw_sockfd st) (rs_SerializeToString (replied (rw_hreq st) (rw_hrsp st))) w (rw_errno st) (rw_frame st) =
      Some (int (length (rs_SerializeToString (replied (rw_hreq st) (rw_hrsp st)))), e,
            rs_SerializeToString (replied (rw_hreq st) (rw_hrsp st)), s)"
    using send_drains [OF assms] by blast
  then show ?thesis unfolding rpc_Reply_def HttpSrvWork_Reply_def replied_def [symmetric] by (auto simp: Let_def)
qed

lemma replied_keeps: "status (replied q p) = status p" "rs_content (replied q p) = rs_content p"
  by (simp_all add: replied_def rs_SetHeader_def)

lemma Serve_replies:
  assumes "map_of mm (path (uri_obj (rw_hreq st))) = Some md" and "rp_method_count env (service md) \<noteq> 0"
    and "rp_FindMethodByName env (service md) (md_method md)"
    and "rp_ParseFromString env (service md) (md_method md) (rq_content (rw_hreq st))"
    and "p = replied (rw_hreq st) (rs_SetContent (rp_CallMethod env (service md) (md_method md) (rq_content (rw_hreq st))) (rw_hrsp st))"
    and "drains (length (rs_SerializeToString p)) w" and "length (rs_SerializeToString p) < 2 ^ 31"
  shows "\<exists>st'. TinycoRpc_Serve env mm w st = Some (0, st') \<and> rw_sent st' = rw_sent st @ rs_SerializeToString p \<and>
    rs_content p = rp_CallMethod env (service md) (md_method md) (rq_content (rw_hreq st)) \<and> status p = status (rw_hrsp st) \<and>
    rw_hrsp st' = p"
proof -
  let ?r = "rp_CallMethod env (service md) (md_method md) (rq_content (rw_hreq st))"
  let ?st = "st\<lparr>rw_frame := rp_effect env (rw_frame st), rw_hrsp := rs_SetContent ?r (rw_hrsp st)\<rparr>"
  have p: "replied (rw_hreq ?st) (rw_hrsp ?st) = p" using assms(5) by simp
  obtain e s where "rpc_Reply w ?st = Some (?st\<lparr>rw_hrsp := p, rw_sent := rw_sent ?st @ rs_SerializeToString p, rw_errno := e, rw_frame := s\<rparr>)"
    using rpc_Reply_sends [of ?st w] assms(6,7) unfolding p by blast
  then have "TinycoRpc_Serve env mm w st =
      Some (0, ?st\<lparr>rw_hrsp := p, rw_sent := rw_sent ?st @ rs_SerializeToString p, rw_errno := e, rw_frame := s\<rparr>)"
    using assms(1-4) by (simp add: TinycoRpc_Serve_def Let_def)
  moreover have "rs_content p = ?r" "status p = status (rw_hrsp st)"
    by (simp_all add: assms(5) replied_keeps rs_SetContent_def)
  ultimately show ?thesis by simp
qed

text \<open>
  A call of a routed path with a request the method can read is answered.  What is sent is the
  serialised response with the result of the method as its body, and with the status the response
  object had before: when an earlier request on the connection was answered with 404, so is this one.
\<close>

theorem Serve_answers_with_the_old_status:
  assumes "map_of mm (path (uri_obj (rw_hreq st))) = Some md" and "rp_method_count env (service md) \<noteq> 0"
    and "rp_FindMethodByName env (service md) (md_method md)"
    and "rp_ParseFromString env (service md) (md_method md) (rq_content (rw_hreq st))"
    and "p = replied (rw_hreq st) (rs_SetContent (rp_CallMethod env (service md) (md_method md) (rq_content (rw_hreq st))) (rw_hrsp st))"
    and "drains (length (rs_SerializeToString p)) w" and "length (rs_SerializeToString p) < 2 ^ 31"
  shows "\<exists>st'. TinycoRpc_Serve env mm w st = Some (0, st') \<and> rw_sent st' = rw_sent st @ rs_SerializeToString p \<and>
    rs_content p = rp_CallMethod env (service md) (md_method md) (rq_content (rw_hreq st)) \<and> status p = status (rw_hrsp st) \<and>
    rw_hrsp st' = p"
  using assms by (rule Serve_replies)

text \<open>
  The caller cannot see that a call failed on the server.  The status of the response is tested
  before the request is sent; whatever status the answer has, the response message is read from its
  content, the error code stays as it was and \<open>Failed\<close> is false.
\<close>

theorem CallMethod_ignores_the_status:
  assumes "HttpRequest_op env (ep_ip (server ch)) (ep_port (server ch)) (rq_SetContent content (hreq_header c)) HttpResponse_ctor st = Some (Some (0, hrs, st'))"
    and "parse (rs_content hrs)"
  shows "Channel_CallMethod env parse ch content c st = Some (Some (c, Some (rs_content hrs), st')) \<and> \<not> Failed c"
  using assms by (simp add: Channel_CallMethod_def HttpResponse_ctor_def Failed_def Let_def)

text \<open>Examples.\<close>

definition demo_rpc_env :: rpc_env where
  "demo_rpc_env = \<lparr>rp_method_count = \<lambda>_. 1, rp_FindMethodByName = \<lambda>_ m. m = ''add'', rp_ParseFromString = \<lambda>_ _ _. True,
     rp_CallMethod = \<lambda>_ _ c. c, rp_effect = id\<rparr>"

definition demo_rpc_work :: rpc_work where
  "demo_rpc_work = \<lparr>rw_sockfd = 5, rw_hreq = HttpRequest_ctor\<lparr>uri_obj := URL_ctor\<lparr>path := ''/a''\<rparr>\<rparr>,
     rw_hrsp = SetStatus 404 HttpResponse_ctor, rw_sent = [], rw_errno = EINTR, rw_frame = Frame_static\<rparr>"

lemma serialized_short: "0 < length (rs_SerializeToString (rs_SetContent [] (SetStatus 404 HttpResponse_ctor)))"
  "length (rs_SerializeToString (rs_SetContent [] (SetStatus 404 HttpResponse_ctor))) < 2 ^ 31"
proof -
  have d: "nat_to_string 404 = ''404''" "nat_to_string 0 = ''0''" by code_simp+
  show "0 < length (rs_SerializeToString (rs_SetContent [] (SetStatus 404 HttpResponse_ctor)))"
    "length (rs_SerializeToString (rs_SetContent [] (SetStatus 404 HttpResponse_ctor))) < 2 ^ 31"
    by (simp_all add: rs_SerializeToString_def op_defs HttpResponse_ctor_def int_to_string_def d reason_def crlf_def)
qed

theorem Serve_answers_with_the_old_status_witness:
  "\<exists>st'. TinycoRpc_Serve demo_rpc_env [(''/a'', \<lparr>service = 4, md_method = ''add'', full_name = ''S.add''\<rparr>)]
      [Ok (length (rs_SerializeToString (rs_SetContent [] (SetStatus 404 HttpResponse_ctor))))] demo_rpc_work = Some (0, st') \<and>
     status (rw_hrsp st') = 404"
proof -
  let ?p = "rs_SetContent [] (SetStatus 404 HttpResponse_ctor)"
  let ?md = "\<lparr>service = 4, md_method = ''add'', full_name = ''S.add''\<rparr>"
  have "?p = replied (rw_hreq demo_rpc_work) (rs_SetContent (rp_CallMethod demo_rpc_env (service ?md) (md_method ?md)
      (rq_content (rw_hreq demo_rpc_work))) (rw_hrsp demo_rpc_work))"
    by (simp add: replied_def demo_rpc_work_def demo_rpc_env_def rq_IsHeader_def HttpRequest_ctor_def)
  from Serve_answers_with_the_old_status [of "[(''/a'', ?md)]" demo_rpc_work ?md demo_rpc_env, OF _ _ _ _ this
      drains_at_once [OF serialized_short(1)] serialized_short(2)]
  show ?thesis by (auto simp: demo_rpc_work_def demo_rpc_env_def HttpRequest_ctor_def op_defs)
qed

definition demo_controller :: controller where
  "demo_controller = (Controller_ctor 0 0)\<lparr>hreq_header := SetMethod HTTP_REQUEST_METHOD_POST HttpRequest_ctor\<rparr>"

definition demo_call_env :: op_env where
  "demo_call_env = demo_op_env\<lparr>
     oe_exec := \<lambda>s. \<lparr>events = [], nparsed = length s, hp_method = HTTP_OTHER, status_code = 404\<rparr>,
     oe_send := [[Ok (length (rq_SerializeToString0 (rq_SetContent [] (hreq_header demo_controller))))]],
     oe_recv := [[Ok ''HTTP'']]\<rparr>"

theorem CallMethod_ignores_the_status_witness:
  "\<exists>st'. Channel_CallMethod demo_call_env (\<lambda>_. True) \<lparr>server = \<lparr>ep_ip = 11, ep_port = 80\<rparr>\<rparr> [] demo_controller demo_op_state =
     Some (Some (demo_controller, Some [], st')) \<and> \<not> Failed demo_controller"
proof -
  let ?q = "rq_SetContent [] (hreq_header demo_controller)"
  have d: "nat_to_string 0 = ''0''" by code_simp
  have s: "rq_SerializeToString0 ?q = ''POST  HTTP/1.1'' @ crlf @ ''Content-Length: 0'' @ crlf @ crlf"
    by (simp add: rq_SerializeToString0_def rq_SerializeToString_def demo_controller_def Controller_ctor_def op_defs d
          HttpRequest_ctor_def HTTP_REQUEST_METHOD_POST_def HTTP_REQUEST_METHOD_GET_def Let_def)
  obtain st' where "HttpRequest_op demo_call_env 11 80 ?q HttpResponse_ctor demo_op_state =
      Some (Some (0, SetStatus 404 HttpResponse_ctor, st'))"
    using HttpRequest_op_exchange [of 11 80 demo_call_env ?q "[Ok (length (rq_SerializeToString0 ?q))]" "[]" "''HTTP''"
        HttpResponse_ctor "SetStatus 404 HttpResponse_ctor" demo_op_state]
      drains_at_once [of "length (rq_SerializeToString0 ?q)"] demo_CheckHttp(2)
    by (auto simp: s crlf_def demo_call_env_def demo_op_env_def kMaxRecvSize_def ParseHttpResponse_def)
  then have "HttpRequest_op demo_call_env (ep_ip (server \<lparr>server = \<lparr>ep_ip = 11, ep_port = 80\<rparr>\<rparr>)) (ep_port (server \<lparr>server = \<lparr>ep_ip = 11, ep_port = 80\<rparr>\<rparr>))
      ?q HttpResponse_ctor demo_op_state = Some (Some (0, SetStatus 404 HttpResponse_ctor, st'))" by simp
  from CallMethod_ignores_the_status [OF this, of "\<lambda>_. True"] show ?thesis
    by (simp add: SetStatus_def HttpResponse_ctor_def)
qed

end
