(* ===== verification/Rpc_Exchange.thy ===== *)
theory Rpc_Exchange
  imports Rpc
begin

text \<open>
  A remote call from end to end: \<open>Channel::CallMethod\<close> on the client, the bytes on the connection,
  \<open>HttpSrvWork::Run\<close> with \<open>TinycoRpc::Serve\<close> on the server, and the bytes back.
\<close>

section \<open>The two sides\<close>

text \<open>
  A \<open>Serve\<close> of a derived class as the \<open>Serve\<close> of \<open>Run\<close>; a call that has not returned leaves the objects
  alone.
\<close>

definition rpc_work_of :: "int \<Rightarrow> http_request \<times> http_response \<times> errno \<times> frame \<Rightarrow> rpc_work" where
  "rpc_work_of fd = (\<lambda>(q, p, e, s). \<lparr>rw_sockfd = fd, rw_hreq = q, rw_hrsp = p, rw_sent = [], rw_errno = e, rw_frame = s\<rparr>)"

definition serve_with :: "(rpc_work \<Rightarrow> (int \<times> rpc_work) option) \<Rightarrow> int \<Rightarrow>
    http_request \<times> http_response \<times> errno \<times> frame \<Rightarrow> http_request \<times> http_response \<times> errno \<times> frame" where
  "serve_with h fd x =
     (case h (rpc_work_of fd x) of
        None \<Rightarrow> x
      | Some (_, st) \<Rightarrow> (rw_hreq st, rw_hrsp st, rw_errno st, rw_frame st))"

text \<open>The connection of the client is established, and the kernel takes the whole request.\<close>

definition connects :: "op_env \<Rightarrow> channel \<Rightarrow> bool" where
  "connects env ch \<longleftrightarrow> ep_ip (server ch) \<noteq> 0 \<and> ep_port (server ch) \<noteq> 0 \<and> 0 \<le> cs_socket (oe_conn env) \<and>
     cs_getfl (oe_conn env) \<noteq> -1 \<and> cs_setfl (oe_conn env) (cs_getfl (oe_conn env) OR O_NONBLOCK) \<noteq> -1 \<and> cs_connect (oe_conn env) = [Ok 0]"

definition client_sends :: "op_env \<Rightarrow> string \<Rightarrow> bool" where
  "client_sends env t \<longleftrightarrow> t \<noteq> [] \<and> length t < 2 ^ 31 \<and> (\<exists>w. drains (length t) w \<and> oe_send env = [w])"

text \<open>A text arrives in pieces, complete with the last piece and not before.\<close>

definition client_receives :: "op_env \<Rightarrow> string \<Rightarrow> bool" where
  "client_receives env t \<longleftrightarrow> (\<exists>cs d. oe_recv env = map (\<lambda>c. [Ok c]) (cs @ [d]) \<and> concat (cs @ [d]) = t \<and>
     (\<forall>c \<in> set (cs @ [d]). c \<noteq> [] \<and> length c \<le> kMaxRecvSize) \<and>
     (\<forall>i. 0 < i \<and> i \<le> length cs \<longrightarrow> fst (CheckHttp (oe_check env) (concat (take i cs))) = HPC_NOT_COMPLETE_HTTP) \<and>
     fst (CheckHttp (oe_check env) (concat (cs @ [d]))) = HPC_OK \<and> length (concat (cs @ [d])) < 2 ^ 31)"

definition server_receives :: "http_env \<Rightarrow> string list \<Rightarrow> string \<Rightarrow> bool" where
  "server_receives henv xs t \<longleftrightarrow> (\<exists>cs d. xs = cs @ [d] \<and> concat xs = t \<and> fits 512 0 xs \<and>
     (\<forall>i. 0 < i \<and> i \<le> length cs \<longrightarrow> CheckPkg (env_check henv) (concat (take i cs)) = 0) \<and>
     CheckPkg (env_check henv) t = int (length t))"

section \<open>The messages\<close>

definition call_request :: "string \<Rightarrow> string \<Rightarrow> http_request" where
  "call_request target content = rq_SetContent content (SetUri target (SetMethod HTTP_REQUEST_METHOD_POST HttpRequest_ctor))"

lemma call_request_fields:
  "rq_method (call_request u c) = HTTP_REQUEST_METHOD_POST" "struri (call_request u c) = u" "rq_content (call_request u c) = c"
  "rq_headers (call_request u c) = [(''Content-Length'', nat_to_string (length c))]"
  by (simp_all add: call_request_def op_defs HttpRequest_ctor_def)

lemma call_request_serializes: "rq_SerializeToString (call_request u c) = Some (rq_SerializeToString0 (call_request u c))"
  by (simp add: rq_SerializeToString0_def rq_SerializeToString_def call_request_fields HTTP_REQUEST_METHOD_POST_def
        HTTP_REQUEST_METHOD_GET_def Let_def)

lemma length_header_clean: "clean_header (''Content-Length'', nat_to_string n)"
  using int_to_string_no_cr [of "int n"] by (simp add: clean_header_def int_to_string_def)

lemma call_request_clean: "\<forall>h \<in> set (rq_headers (call_request u c)). snd h \<noteq> [] \<longrightarrow> clean_header h"
  by (simp add: call_request_fields length_header_clean)

definition call_response :: "string \<Rightarrow> http_response" where
  "call_response r = rs_SetContent r HttpResponse_ctor"

lemma call_response_fields:
  "status (call_response r) = 200" "rs_content (call_response r) = r"
  "rs_headers (call_response r) = [(''Content-Length'', nat_to_string (length r))]"
  by (simp_all add: call_response_def op_defs HttpResponse_ctor_def)

text \<open>A \<open>Connection\<close> header without a value does not change the text of the response.\<close>

lemma replied_text:
  assumes "rq_GetHeader ''Connection'' q = []"
  shows "rs_SerializeToString (replied q (call_response r)) = rs_SerializeToString (call_response r)"
  using assms by (simp add: replied_def rs_SerializeToString_def rs_SetHeader_def call_response_fields)

section \<open>The server\<close>

text \<open>
  The contract between \<open>Run\<close> and a \<open>Serve\<close>: on a new connection it answers every request it accepts with
  one text, as long as the connection takes it.
\<close>

locale replying_handler =
  fixes h :: "nat answer list \<Rightarrow> rpc_work \<Rightarrow> (int \<times> rpc_work) option"
    and accepts :: "http_request \<Rightarrow> bool" and reply :: "http_request \<Rightarrow> string"
  assumes replies: "accepts q \<Longrightarrow> drains (length (reply q)) w \<Longrightarrow> length (reply q) < 2 ^ 31 \<Longrightarrow>
    \<exists>st1. h w (rpc_work_of fd (q, HttpResponse_ctor, e, s)) = Some (0, st1) \<and> rw_sent st1 = reply q"
begin

text \<open>A request that arrives is handed to \<open>Serve\<close> as it was made, and \<open>Run\<close> goes on with what \<open>Serve\<close> leaves.\<close>

lemma run_replies:
  assumes ser: "rq_SerializeToString r = Some t" and reads: "parser_reads (env_exec henv) t" and recv: "server_receives henv xs t"
    and uri: "CHR '' '' \<notin> set (struri r)" "CHR 0x0D \<notin> set (struri r)" "ParseUrl (env_url henv) (env_unescape henv) (struri r) URL_ctor = Some (x, u)"
    and head: "\<forall>h \<in> set (rq_headers r). snd h \<noteq> [] \<longrightarrow> clean_header h" "distinct (map fst (rq_headers r))"
      "rq_content r \<noteq> [] \<longrightarrow> rq_GetHeader ''Content-Length'' r = nat_to_string (length (rq_content r))"
    and serve: "env_Serve henv = serve_with (h w) fd" and room: "drains (length t') w" "length t' < 2 ^ 31"
    and good: "\<And>q. rq_content q = rq_content r \<Longrightarrow> uri_obj q = u \<Longrightarrow> \<forall>f. rq_GetHeader f q = rq_GetHeader f r \<Longrightarrow> accepts q \<and> reply q = t'"
  shows "\<exists>q st1 st. h w (rpc_work_of fd (q, HttpResponse_ctor, e, s)) = Some (0, st1) \<and> rw_sent st1 = t' \<and>
    hreq st = rw_hreq st1 \<and> hrsp st = rw_hrsp st1 \<and>
    HttpSrvWork_Run henv fd (map (\<lambda>c. [Ok c]) xs) HttpRequest_ctor HttpResponse_ctor e s = (st, if keepalive (hreq st) then Running else Returned 0)"
proof -
  obtain cs d where c: "xs = cs @ [d]" "concat (cs @ [d]) = t" "fits 512 0 (cs @ [d])"
    "\<forall>i. 0 < i \<and> i \<le> length cs \<longrightarrow> CheckPkg (env_check henv) (concat (take i cs)) = 0"
    "CheckPkg (env_check henv) (concat (cs @ [d])) = int (length (concat (cs @ [d])))"
    using recv by (auto simp: server_receives_def)
  from parse_serialized [OF ser reads uri(1,2) _ head] uri(3) obtain q where
    q: "ParseHttpRequest (env_exec henv) (env_url henv) (env_unescape henv) (concat (cs @ [d])) (Some HttpRequest_ctor) = Some (0, Some q)"
      "rq_content q = rq_content r" "\<forall>f. rq_GetHeader f q = rq_GetHeader f r"
    unfolding c(2) by blast
  have "uri_obj q = u" by (rule parse_serialized_url [OF ser reads uri head(1) q(1) [unfolded c(2)]])
  then have "accepts q" "reply q = t'" using good q(2,3) by blast+
  with replies [of q w fd e s] room obtain st1 where st1: "h w (rpc_work_of fd (q, HttpResponse_ctor, e, s)) = Some (0, st1)" "rw_sent st1 = t'" by auto
  then have "env_Serve henv (q, HttpResponse_ctor, e, s) = (rw_hreq st1, rw_hrsp st1, rw_errno st1, rw_frame st1)"
    by (simp add: serve serve_with_def)
  from run_reassembles [OF c(3-5) q(1) this, of fd "[]"] obtain st where "hreq st = rw_hreq st1" "hrsp st = rw_hrsp st1"
    "HttpSrvWork_Run henv fd (map (\<lambda>c. [Ok c]) (cs @ [d])) HttpRequest_ctor HttpResponse_ctor e s =
      (if keepalive (rw_hreq st1) then run_loop henv fd [] st else (st, Returned 0))" by auto
  then have "hreq st = rw_hreq st1 \<and> hrsp st = rw_hrsp st1 \<and> HttpSrvWork_Run henv fd (map (\<lambda>c. [Ok c]) xs) HttpRequest_ctor HttpResponse_ctor e s =
      (st, if keepalive (hreq st) then Running else Returned 0)" by (simp add: c(1))
  with st1 show ?thesis by blast
qed

end

text \<open>\<open>TinycoRpc::Serve\<close> keeps it for the requests that are routed and can be read.\<close>

definition routed :: "rpc_env \<Rightarrow> (string \<times> method_descriptor) list \<Rightarrow> http_request \<Rightarrow> bool" where
  "routed renv mm q \<longleftrightarrow> rq_GetHeader ''Connection'' q = [] \<and>
     (case map_of mm (path (uri_obj q)) of
        None \<Rightarrow> False
      | Some md \<Rightarrow> rp_method_count renv (service md) \<noteq> 0 \<and> rp_FindMethodByName renv (service md) (md_method md) \<and>
                   rp_ParseFromString renv (service md) (md_method md) (rq_content q))"

definition rpc_answer :: "rpc_env \<Rightarrow> (string \<times> method_descriptor) list \<Rightarrow> http_request \<Rightarrow> string" where
  "rpc_answer renv mm q =
     (case map_of mm (path (uri_obj q)) of
        None \<Rightarrow> []
      | Some md \<Rightarrow> rs_SerializeToString (call_response (rp_CallMethod renv (service md) (md_method md) (rq_content q))))"

lemma rpc_Serve_replies:
  assumes "routed renv mm q" and "drains (length (rpc_answer renv mm q)) w" and "length (rpc_answer renv mm q) < 2 ^ 31"
  shows "\<exists>st1. TinycoRpc_Serve renv mm w (rpc_work_of fd (q, HttpResponse_ctor, e, s)) = Some (0, st1) \<and> rw_sent st1 = rpc_answer renv mm q"
proof -
  obtain md where md: "map_of mm (path (uri_obj q)) = Some md" "rp_method_count renv (service md) \<noteq> 0"
    "rp_FindMethodByName renv (service md) (md_method md)" "rp_ParseFromString renv (service md) (md_method md) (rq_content q)"
    "rq_GetHeader ''Connection'' q = []"
    using assms(1) by (auto simp: routed_def split: option.splits)
  let ?st = "rpc_work_of fd (q, HttpResponse_ctor, e, s)" and ?r = "rp_CallMethod renv (service md) (md_method md) (rq_content q)"
  have st: "rw_hreq ?st = q" "rw_hrsp ?st = HttpResponse_ctor" "rw_sent ?st = []" by (simp_all add: rpc_work_of_def)
  have "rs_SerializeToString (replied q (call_response ?r)) = rpc_answer renv mm q" using replied_text [OF md(5)] md(1) by (simp add: rpc_answer_def)
  then show ?thesis
    using Serve_replies [of mm ?st md renv "replied q (call_response ?r)" w] md assms(2,3) by (auto simp: st call_response_def [symmetric])
qed

interpretation rpc: replying_handler "TinycoRpc_Serve renv mm" "routed renv mm" "rpc_answer renv mm" for renv mm
  by unfold_locales (rule rpc_Serve_replies)

lemma server_answers:
  assumes uri: "CHR '' '' \<notin> set target" "CHR 0x0D \<notin> set target" "ParseUrl (env_url henv) (env_unescape henv) target URL_ctor = Some (x, u)"
    and route: "map_of mm (path u) = Some md" "rp_method_count renv (service md) \<noteq> 0"
      "rp_FindMethodByName renv (service md) (md_method md)" "rp_ParseFromString renv (service md) (md_method md) content"
    and result: "r = rp_CallMethod renv (service md) (md_method md) content"
    and reads: "parser_reads (env_exec henv) (rq_SerializeToString0 (call_request target content))"
    and recv: "server_receives henv xs (rq_SerializeToString0 (call_request target content))"
    and room: "drains (length (rs_SerializeToString (call_response r))) w" "length (rs_SerializeToString (call_response r)) < 2 ^ 31"
    and serve: "env_Serve henv = serve_with (TinycoRpc_Serve renv mm w) fd"
  shows "\<exists>q st1 st. TinycoRpc_Serve renv mm w (rpc_work_of fd (q, HttpResponse_ctor, e, s)) = Some (0, st1) \<and>
    rw_sent st1 = rs_SerializeToString (call_response r) \<and> hreq st = rw_hreq st1 \<and> hrsp st = rw_hrsp st1 \<and>
    HttpSrvWork_Run henv fd (map (\<lambda>c. [Ok c]) xs) HttpRequest_ctor HttpResponse_ctor e s =
      (st, if keepalive (hreq st) then Running else Returned 0)"
  by (rule rpc.run_replies [OF call_request_serializes reads recv _ _ _ call_request_clean _ _ serve room])
    (use uri route in \<open>auto simp: call_request_fields rq_GetHeader_def routed_def rpc_answer_def result\<close>)

section \<open>The client\<close>

lemma client_exchanges_call:
  assumes "connects env ch" and "client_sends env (rq_SerializeToString0 q)" and "client_receives env (rs_SerializeToString (call_response r))"
    and "response_reads (oe_exec env) (rs_SerializeToString (call_response r))"
  shows "\<exists>r' st'. HttpRequest_op env (ep_ip (server ch)) (ep_port (server ch)) q HttpResponse_ctor st = Some (Some (0, r', st')) \<and>
    status r' = 200 \<and> rs_content r' = r \<and> os_sent st' = os_sent st @ rq_SerializeToString0 q"
proof -
  obtain r' where r': "ParseHttpResponse (oe_exec env) (rs_SerializeToString (call_response r)) (Some HttpResponse_ctor) = Some (0, Some r')"
    "rs_content r' = r" "status r' = 200"
    using parse_response [OF assms(4)] length_header_clean by (auto simp: call_response_fields rs_GetHeader_def)
  obtain cs d where d: "oe_recv env = map (\<lambda>c. [Ok c]) (cs @ [d])" "\<forall>c \<in> set (cs @ [d]). c \<noteq> [] \<and> length c \<le> kMaxRecvSize"
      "\<forall>i. 0 < i \<and> i \<le> length cs \<longrightarrow> fst (CheckHttp (oe_check env) (concat (take i cs))) = HPC_NOT_COMPLETE_HTTP"
      "fst (CheckHttp (oe_check env) (concat (cs @ [d]))) = HPC_OK" "length (concat (cs @ [d])) < 2 ^ 31"
      "concat (cs @ [d]) = rs_SerializeToString (call_response r)"
    using assms(3) unfolding client_receives_def by blast
  obtain w where w: "drains (length (rq_SerializeToString0 q)) w" "oe_send env = [w]" "rq_SerializeToString0 q \<noteq> []" "length (rq_SerializeToString0 q) < 2 ^ 31"
    using assms(2) unfolding client_sends_def by blast
  show ?thesis
    using HttpRequest_op_exchange [OF _ _ _ _ _ _ w(3,4,1,2) d(1-5), of "ep_ip (server ch)" "ep_port (server ch)" HttpResponse_ctor r' st]
      assms(1) r' d(6) unfolding connects_def by auto
qed

lemma client_returns:
  assumes ctl: "hreq_header c = SetUri target (SetMethod HTTP_REQUEST_METHOD_POST HttpRequest_ctor)"
    and "connects env ch" and "client_sends env (rq_SerializeToString0 (call_request target content))"
    and "client_receives env (rs_SerializeToString (call_response r))"
    and "response_reads (oe_exec env) (rs_SerializeToString (call_response r))" and "parse r"
  shows "\<exists>st'. Channel_CallMethod env parse ch content c st = Some (Some (c, Some r, st')) \<and>
    os_sent st' = os_sent st @ rq_SerializeToString0 (call_request target content)"
proof -
  obtain r' st' where "HttpRequest_op env (ep_ip (server ch)) (ep_port (server ch)) (call_request target content) HttpResponse_ctor st =
      Some (Some (0, r', st'))" "rs_content r' = r" "os_sent st' = os_sent st @ rq_SerializeToString0 (call_request target content)"
    using client_exchanges_call [OF assms(2-5)] by blast
  then show ?thesis using assms(6)
    by (simp add: Channel_CallMethod_def ctl call_request_def [symmetric] HttpResponse_ctor_def [THEN arg_cong [where f = status]] Let_def)
qed

section \<open>The call\<close>

text \<open>
  C7: a remote call returns what the method computes.  The controller is a new one with a URI set, the
  URI is routed to a method that can read the request, and every connection delivers its bytes in
  any pieces.  Then the server, given the bytes the client sends, calls the method and sends a
  response, and \<open>CallMethod\<close>, given those bytes, has sent exactly that request and parses the response
  message from the result of the method.
\<close>

theorem rpc_call_returns:
  assumes ctl: "hreq_header c = SetUri target (SetMethod HTTP_REQUEST_METHOD_POST HttpRequest_ctor)"
    and target: "CHR '' '' \<notin> set target" "CHR 0x0D \<notin> set target" "ParseUrl (env_url henv) (env_unescape henv) target URL_ctor = Some (x, u)"
    and route: "map_of mm (path u) = Some md" "rp_method_count renv (service md) \<noteq> 0"
      "rp_FindMethodByName renv (service md) (md_method md)" "rp_ParseFromString renv (service md) (md_method md) content"
    and req: "t = rq_SerializeToString0 (call_request target content)" "client_sends env t" "server_receives henv xs t"
      "parser_reads (env_exec henv) t"
    and rsp: "r = rp_CallMethod renv (service md) (md_method md) content" "t' = rs_SerializeToString (call_response r)"
      "drains (length t') w" "length t' < 2 ^ 31" "client_receives env t'" "response_reads (oe_exec env) t'" "parse r"
    and conn: "connects env ch" and serve: "env_Serve henv = serve_with (TinycoRpc_Serve renv mm w) fd"
  shows "(\<exists>q st1 st. TinycoRpc_Serve renv mm w (rpc_work_of fd (q, HttpResponse_ctor, e, s)) = Some (0, st1) \<and> rw_sent st1 = t' \<and>
      hreq st = rw_hreq st1 \<and> hrsp st = rw_hrsp st1 \<and>
      HttpSrvWork_Run henv fd (map (\<lambda>c. [Ok c]) xs) HttpRequest_ctor HttpResponse_ctor e s =
        (st, if keepalive (hreq st) then Running else Returned 0)) \<and>
    (\<exists>st'. Channel_CallMethod env parse ch content c st0 = Some (Some (c, Some r, st')) \<and> os_sent st' = os_sent st0 @ t)"
  using server_answers [OF target route rsp(1) req(4) [unfolded req(1)] req(3) [unfolded req(1)] rsp(3,4) [unfolded rsp(2)] serve, of e s]
    client_returns [where parse = parse, OF ctl conn req(2) [unfolded req(1)] rsp(5,6) [unfolded rsp(2)] rsp(7), of st0]
  unfolding req(1) rsp(2) by blast

text \<open>An example: \<open>/a\<close> is routed to \<open>add\<close>, which returns its argument.\<close>

definition demo_path_url :: "string \<Rightarrow> parsed_url option" where
  "demo_path_url s = Some [UF_PATH \<mapsto> (0, length s)]"

definition demo_cenv :: "string \<Rightarrow> string \<Rightarrow> op_env" where
  "demo_cenv t t' = demo_op_env\<lparr>oe_exec := response_parser, oe_check := env_check (demo_env (length t')),
     oe_send := [[Ok (length t)]], oe_recv := [[Ok t']]\<rparr>"

text \<open>A server and a client that see the texts \<open>t\<close> and \<open>t'\<close> in one piece.\<close>

definition one_piece :: "(rpc_work \<Rightarrow> (int \<times> rpc_work) option) \<Rightarrow> string \<Rightarrow> http_env" where
  "one_piece h t = (demo_env (length t))\<lparr>env_exec := plain_parser, env_url := demo_path_url, env_Serve := serve_with h 5\<rparr>"

lemma one_piece_server:
  assumes "t \<noteq> []" and "length t \<le> 512"
  shows "server_receives (one_piece h t) [t] t" "parser_reads (env_exec (one_piece h t)) t" "env_Serve (one_piece h t) = serve_with h 5"
proof -
  show "server_receives (one_piece h t) [t] t"
    unfolding server_receives_def using assms demo_CheckPkg [of "length t" t]
    by (intro exI [of _ "[]"] exI [of _ t]) (auto simp: one_piece_def Let_def)
qed (simp_all add: one_piece_def plain_parser_reads)

lemma one_piece_client:
  assumes "t \<noteq> []" and "length t \<le> 512" and "t' \<noteq> []" and "length t' \<le> 512"
  shows "client_sends (demo_cenv t t') t" "client_receives (demo_cenv t t') t'" "response_reads (oe_exec (demo_cenv t t')) t'"
    "drains (length t') [Ok (length t')]" "length t' < 2 ^ 31"
proof -
  have small: "unat (word_of_nat (length t') :: u32) = length t'" by (rule unat_of_nat_small) (use assms in simp)
  show "client_receives (demo_cenv t t') t'"
    unfolding client_receives_def using assms
    by (intro exI [of _ "[]"] exI [of _ t']) (auto simp: demo_cenv_def demo_env_def CheckHttp_def kMaxRecvSize_def small)
  show "client_sends (demo_cenv t t') t"
    unfolding client_sends_def using assms drains_at_once by (auto simp: demo_cenv_def)
  show "drains (length t') [Ok (length t')]" by (rule drains_at_once) (use assms in simp)
qed (use assms in \<open>simp_all add: demo_cenv_def response_parser_reads\<close>)

lemma demo_texts:
  "rq_SerializeToString0 (call_request ''/a'' ''hi'') = ''POST /a HTTP/1.1'' @ crlf @ ''Content-Length: 2'' @ crlf @ crlf @ ''hi''"
  "rs_SerializeToString (call_response ''hi'') = ''HTTP/1.1 200 OK'' @ crlf @ ''Content-Length: 2'' @ crlf @ crlf @ ''hi''"
proof -
  have d: "nat_to_string (Suc (Suc 0)) = ''2''" "nat_to_string 200 = ''200''" by code_simp+
  show "rq_SerializeToString0 (call_request ''/a'' ''hi'') = ''POST /a HTTP/1.1'' @ crlf @ ''Content-Length: 2'' @ crlf @ crlf @ ''hi''"
    by (simp add: rq_SerializeToString0_def rq_SerializeToString_def call_request_fields d HTTP_REQUEST_METHOD_POST_def
          HTTP_REQUEST_METHOD_GET_def Let_def)
  show "rs_SerializeToString (call_response ''hi'') = ''HTTP/1.1 200 OK'' @ crlf @ ''Content-Length: 2'' @ crlf @ crlf @ ''hi''"
    by (simp add: rs_SerializeToString_def call_response_fields d int_to_string_def reason_def)
qed

theorem rpc_call_returns_witness:
  "\<exists>c env st'. Channel_CallMethod env (\<lambda>_. True) \<lparr>server = \<lparr>ep_ip = 11, ep_port = 80\<rparr>\<rparr> ''hi'' c demo_op_state = Some (Some (c, Some ''hi'', st'))"
proof -
  define t where "t = rq_SerializeToString0 (call_request ''/a'' ''hi'')"
  define t' where "t' = rs_SerializeToString (call_response ''hi'')"
  let ?c = "(Controller_ctor 0 0)\<lparr>hreq_header := SetUri ''/a'' (SetMethod HTTP_REQUEST_METHOD_POST HttpRequest_ctor)\<rparr>"
  let ?md = "\<lparr>service = 4, md_method = ''add'', full_name = ''S.add''\<rparr>"
  let ?mm = "[(''/a'', ?md)]" and ?w = "[Ok (length t') :: nat answer]"
  let ?henv = "one_piece (TinycoRpc_Serve demo_rpc_env ?mm ?w) t"
  have n: "t \<noteq> []" "length t \<le> 512" "t' \<noteq> []" "length t' \<le> 512" by (simp_all add: t_def t'_def demo_texts crlf_def)
  note srv = one_piece_server [OF n(1,2), of "TinycoRpc_Serve demo_rpc_env ?mm ?w"] and cl = one_piece_client [OF n]
  obtain x u where u: "ParseUrl (env_url ?henv) (env_unescape ?henv) ''/a'' URL_ctor = Some (x, u)" "path u = ''/a''"
    by (simp add: ParseUrl_def one_piece_def demo_path_url_def has_and_set_def url_port_def substr_def URL_ctor_def Let_def)
  have conn: "connects (demo_cenv t t') \<lparr>server = \<lparr>ep_ip = 11, ep_port = 80\<rparr>\<rparr>"
    by (simp add: connects_def demo_cenv_def demo_op_env_def)
  have route: "map_of ?mm (path u) = Some ?md" "rp_method_count demo_rpc_env (service ?md) \<noteq> 0"
    "rp_FindMethodByName demo_rpc_env (service ?md) (md_method ?md)" "rp_ParseFromString demo_rpc_env (service ?md) (md_method ?md) ''hi''"
    "''hi'' = rp_CallMethod demo_rpc_env (service ?md) (md_method ?md) ''hi''"
    by (simp_all add: u demo_rpc_env_def)
  have ctl: "hreq_header ?c = SetUri ''/a'' (SetMethod HTTP_REQUEST_METHOD_POST HttpRequest_ctor)" by simp
  have plain: "CHR '' '' \<notin> set ''/a''" "CHR 0x0D \<notin> set ''/a''" by simp_all
  show ?thesis
    using rpc_call_returns [where parse = "\<lambda>_. True" and ?st0.0 = demo_op_state, OF ctl plain u(1) route(1-4) t_def cl(1) srv(1,2) route(5) t'_def
        cl(4,5,2,3) TrueI conn srv(3)] by blast
qed

end
