(* ===== verification/Example_Dns.thy ===== *)
theory Example_Dns
  imports Dns Util_Net Server_Work
begin

text \<open>
  example/dns/main.cc, and the \<open>main\<close> it shares with the other clients: resolving four domains twice, the
  second time from the cache.  What goes to the log is a list of texts.
\<close>

section \<open>The program\<close>

definition domains :: "string list" where
  "domains = [''www.baidu.com'', ''www.qq.com'', ''www.taobao.com'', ''daoluan.net'']"

definition resolve_text :: "string \<Rightarrow> u32 option \<Rightarrow> string" where
  "resolve_text d bret = (case bret of Some ip \<Rightarrow> d @ ''->'' @ inet_ntoa ip | None \<Rightarrow> d @ '' reslove error'')"

text \<open>The loop over the domains, with the answers for every call; \<open>None\<close> while a call has not returned.\<close>

fun resolve_round :: "dns_sys list \<Rightarrow> string list \<Rightarrow> dns_state \<Rightarrow> (string list \<times> dns_state) option" where
  "resolve_round ss [] st = Some ([], st)"
| "resolve_round [] (d # ds) st = None"
| "resolve_round (sys # ss) (d # ds) st =
     (case Resolve sys d st of
        None \<Rightarrow> None
      | Some (bret, st1) \<Rightarrow> map_option (\<lambda>(out, st2). (resolve_text d bret # out, st2)) (resolve_round ss ds st1))"

definition dns_Run :: "dns_sys list \<Rightarrow> dns_sys list \<Rightarrow> dns_state \<Rightarrow> (int \<times> string list \<times> dns_state) option" where
  "dns_Run ss1 ss2 st =
     (case resolve_round ss1 domains st of
        None \<Rightarrow> None
      | Some (out1, st1) \<Rightarrow>
          map_option (\<lambda>(out2, st2). (0, out1 @ ''## use dns cache ##'' # out2, st2)) (resolve_round ss2 domains st1))"

text \<open>
  \<open>main\<close>: the framework is started, a coroutine made for the work object \<open>w\<close>, and the main coroutine
  sleeps until it is dead.  \<open>Some None\<close> is the failed assertion.
\<close>

definition dns_main :: "ptr \<Rightarrow> (u64 \<times> (frame \<Rightarrow> frame)) list \<Rightarrow> frame \<Rightarrow> (int \<times> frame) option option" where
  "dns_main w ks s =
     (let (ok, s1) = Frame_Init s in
      if \<not> ok then Some None
      else let (t, s2) = CreateThread w s1 in
        map_option (\<lambda>s3. Some (0, snd (Frame_Fini s3))) (wait_dead t ks s2))"

section \<open>The second round is served from the cache\<close>

text \<open>A name server that answers a query for \<open>d\<close> with the addresses \<open>ips\<close>.\<close>

definition answers :: "dns_sys \<Rightarrow> string \<Rightarrow> u32 list \<Rightarrow> bool" where
  "answers sys d ips \<longleftrightarrow> ds_library_init sys = 0 \<and> ds_init_options sys = 0 \<and> 0 < ds_nservers sys \<and> ips \<noteq> [] \<and>
     (\<exists>q. ds_mkquery sys d = (0, q) \<and> (\<forall>e s. \<exists>e' rsp s'. ds_parse sys rsp = Some ips \<and>
        UdpSendAndRecv (ds_fd sys) (ds_getfl sys) (ds_setfl sys) (ds_sendto sys q) (ds_recvfrom sys) [] e s = Some (0, e', rsp, s')))"

definition entry_at :: "u64 \<Rightarrow> u32 list \<Rightarrow> u32 \<Rightarrow> res_cache" where
  "entry_at now ips i = \<lparr>rc_ip = ips, rc_timeout = ucast (now div 1000 + 5 * 60), rc_idx = i\<rparr>"

lemma Resolve_asks:
  assumes "answers sys d ips" and "map_of (cache st) d = None"
  shows "\<exists>st'. Resolve sys d st = Some (Some (ips ! 0), st') \<and> ares_channel_init st' \<and>
    cache st' = AList.update d (entry_at (ds_now_after sys) ips 1) (cache st)"
proof -
  let ?st = "st\<lparr>ares_channel_init := True\<rparr>"
  obtain q e' rsp s' where q: "ds_mkquery sys d = (0, q)" "ds_parse sys rsp = Some ips"
    "UdpSendAndRecv (ds_fd sys) (ds_getfl sys) (ds_setfl sys) (ds_sendto sys q) (ds_recvfrom sys) [] (dns_errno st) (dns_frame st) =
      Some (0, e', rsp, s')"
    using assms(1) unfolding answers_def by blast
  have "ares_setup sys st = (True, ?st)" using assms(1) by (simp add: ares_setup_def answers_def)
  moreover have "cache_hit (ds_now sys) d ?st = None" using assms(2) by (simp add: cache_hit_def)
  ultimately show ?thesis
    using assms q by (simp add: Resolve_def answers_def store_reply_def ResCache_init_def PickOne_def entry_at_def Let_def)
qed

text \<open>After a round over distinct new domains the cache has an entry for each, with the counter at 1.\<close>

definition entries :: "(dns_sys \<times> u32 list) list \<Rightarrow> res_cache list" where
  "entries as = map (\<lambda>(sys, ips). entry_at (ds_now_after sys) ips 1) as"

lemma first_round:
  assumes "list_all2 (\<lambda>d (sys, ips). answers sys d ips) ds as" and "distinct ds" and "\<forall>d \<in> set ds. map_of (cache st) d = None"
  shows "\<exists>st'. resolve_round (map fst as) ds st = Some (map2 (\<lambda>d a. resolve_text d (Some (snd a ! 0))) ds as, st') \<and>
    (ares_channel_init st \<or> ds \<noteq> [] \<longrightarrow> ares_channel_init st') \<and> map_of (cache st') = map_of (cache st) ++ map_of (zip ds (entries as))"
  using assms
proof (induction ds as arbitrary: st rule: list_all2_induct)
  case (Cons d ds a as)
  obtain sys ips where a: "a = (sys, ips)" by (cases a)
  obtain st1 where st1: "Resolve sys d st = Some (Some (ips ! 0), st1)" "ares_channel_init st1"
    "cache st1 = AList.update d (entry_at (ds_now_after sys) ips 1) (cache st)"
    using Resolve_asks [of sys d ips st] Cons.hyps(1) Cons.prems by (auto simp: a)
  have "\<forall>x \<in> set ds. map_of (cache st1) x = None" using Cons.prems by (auto simp: st1(3) update_conv')
  from Cons.IH [OF _ this] Cons.prems obtain st2 where st2:
    "resolve_round (map fst as) ds st1 = Some (map2 (\<lambda>d a. resolve_text d (Some (snd a ! 0))) ds as, st2)" "ares_channel_init st2"
    "map_of (cache st2) = map_of (cache st1) ++ map_of (zip ds (entries as))"
    using st1(2) by auto
  have "map_of (zip ds (entries as)) d = None"
    using Cons.prems(1) by (auto simp: map_of_eq_None_iff dest: set_zip_leftD)
  then have "map_of (cache st2) = map_of (cache st) ++ map_of (zip (d # ds) (entries (a # as)))"
    unfolding st2(3) st1(3) by (auto simp: update_conv' a entries_def map_add_def fun_eq_iff split: option.splits)
  with st1(1) st2(1,2) show ?case by (intro exI [of _ st2]) (simp add: a)
qed (simp add: entries_def)

text \<open>A round over domains with fresh entries asks nobody and gives the addresses behind the counters.\<close>

lemma cached_round:
  assumes "list_all2 (\<lambda>d (sys, r). map_of (cache st) d = Some r \<and> rc_ip r \<noteq> [] \<and> fresh_at r (ds_now sys)) ds as"
    and "distinct ds" and "ares_channel_init st"
  shows "\<exists>st'. resolve_round (map fst as) ds st =
      Some (map2 (\<lambda>d a. resolve_text d (Some (rc_ip (snd a) ! (unat (rc_idx (snd a)) mod length (rc_ip (snd a)))))) ds as, st') \<and>
    dns_frame st' = dns_frame st \<and> dns_errno st' = dns_errno st"
  using assms
proof (induction ds arbitrary: as st)
  case (Cons d ds)
  then obtain sys r as' where a: "as = (sys, r) # as'" by (cases as) auto
  let ?st = "st\<lparr>cache := AList.update d (r\<lparr>rc_idx := rc_idx r + 1\<rparr>) (cache st)\<rparr>"
  have h: "Resolve sys d st = Some (Some (rc_ip r ! (unat (rc_idx r) mod length (rc_ip r))), ?st)"
    using Cons.prems by (intro Resolve_hit) (auto simp: a)
  have "list_all2 (\<lambda>d (sys, r). map_of (cache st) d = Some r \<and> rc_ip r \<noteq> [] \<and> fresh_at r (ds_now sys)) ds as'"
    using Cons.prems(1) by (simp add: a)
  then have "list_all2 (\<lambda>d (sys, r). map_of (cache ?st) d = Some r \<and> rc_ip r \<noteq> [] \<and> fresh_at r (ds_now sys)) ds as'"
    by (rule list.rel_mono_strong) (use Cons.prems(2) in \<open>auto simp: update_conv'\<close>)
  from Cons.IH [OF this] Cons.prems(2,3) h show ?case by (auto simp: a)
qed simp

lemma entry_fresh:
  assumes "unat now div 1000 + 300 < 2 ^ 32" and "unat t div 1000 < unat now div 1000 + 300"
  shows "fresh_at (entry_at now ips i) t"
proof -
  have n: "unat (now div 1000) + 300 < 2 ^ 32" using assms(1) by (simp add: unat_div)
  have "unat (now div 1000 + 300) = unat (now div 1000) + 300"
    using n by (subst unat_add_lem [THEN iffD1]) simp_all
  then have u: "unat (now div 1000 + 300 :: u64) < 2 ^ 32" "unat (now div 1000 + 300) = unat now div 1000 + 300"
    using n by (simp_all add: unat_div)
  have "unat (ucast (ucast (now div 1000 + 300 :: u64) :: u32) :: u64) = unat (now div 1000 + 300)"
    using u(1) by (simp add: unsigned_ucast_eq take_bit_eq_mod unat_mod)
  with u(2) assms(2) show ?thesis
    by (simp add: fresh_at_def entry_at_def word_less_nat_alt unat_div)
qed

text \<open>
  C27: the program shows what it announces.  When every domain is resolved in the first round and the
  second round comes within five minutes, it is served from the cache: no call waits, nothing is sent,
  and each domain is shown with the next of the addresses its server gave.
\<close>

theorem dns_Run_uses_the_cache:
  assumes ans: "list_all2 (\<lambda>d (sys, ips). answers sys d ips) domains as" and "cache st = []" and len: "length ss = length domains"
    and soon: "\<forall>i < length domains. unat (ds_now_after (fst (as ! i))) div 1000 + 300 < 2 ^ 32 \<and>
      unat (ds_now (ss ! i)) div 1000 < unat (ds_now_after (fst (as ! i))) div 1000 + 300"
  shows "\<exists>out1 out2 st1 st2. dns_Run (map fst as) ss st = Some (0, out1 @ ''## use dns cache ##'' # out2, st2) \<and>
    out1 = map2 (\<lambda>d a. resolve_text d (Some (snd a ! 0))) domains as \<and>
    out2 = map2 (\<lambda>d a. resolve_text d (Some (snd a ! (1 mod length (snd a))))) domains as \<and>
    resolve_round (map fst as) domains st = Some (out1, st1) \<and> dns_frame st2 = dns_frame st1 \<and> dns_errno st2 = dns_errno st1"
proof -
  let ?out1 = "map2 (\<lambda>d a. resolve_text d (Some (snd a ! 0))) domains as"
  have d: "distinct domains" "domains \<noteq> []" by (simp_all add: domains_def)
  have l: "length as = length domains" using list_all2_lengthD [OF ans] by simp
  obtain st1 where st1: "resolve_round (map fst as) domains st = Some (?out1, st1)" "ares_channel_init st1"
    "map_of (cache st1) = map_of (zip domains (entries as))"
    using first_round [OF ans d(1), of st] d(2) assms(2) by auto
  let ?as = "zip ss (entries as)"
  have le: "length (entries as) = length domains" by (simp add: entries_def l)
  have "list_all2 (\<lambda>d (sys, r). map_of (cache st1) d = Some r \<and> rc_ip r \<noteq> [] \<and> fresh_at r (ds_now sys)) domains ?as"
  proof (rule list_all2_all_nthI)
    fix i assume i: "i < length domains"
    obtain sys ips where a: "as ! i = (sys, ips)" by (cases "as ! i")
    have "answers sys (domains ! i) ips" using list_all2_nthD [OF ans i] by (simp add: a)
    moreover have "fresh_at (entry_at (ds_now_after sys) ips 1) (ds_now (ss ! i))"
      by (rule entry_fresh) (use soon [rule_format, OF i] in \<open>simp_all add: a\<close>)
    ultimately have "rc_ip (entries as ! i) \<noteq> []" "fresh_at (entries as ! i) (ds_now (ss ! i))"
      using i l a by (simp_all add: entries_def answers_def entry_at_def)
    moreover have "map_of (cache st1) (domains ! i) = Some (entries as ! i)"
      unfolding st1(3) by (rule map_of_zip_nth) (use i d le in simp_all)
    ultimately show "case ?as ! i of (sys, r) \<Rightarrow> map_of (cache st1) (domains ! i) = Some r \<and> rc_ip r \<noteq> [] \<and> fresh_at r (ds_now sys)"
      using i len le by simp
  qed (simp add: len le)
  from cached_round [OF this d(1) st1(2)] obtain st2 where st2: "resolve_round (map fst ?as) domains st1 =
      Some (map2 (\<lambda>d a. resolve_text d (Some (rc_ip (snd a) ! (unat (rc_idx (snd a)) mod length (rc_ip (snd a)))))) domains ?as, st2)"
    "dns_frame st2 = dns_frame st1" "dns_errno st2 = dns_errno st1" by blast
  have "map2 (\<lambda>d a. resolve_text d (Some (rc_ip (snd a) ! (unat (rc_idx (snd a)) mod length (rc_ip (snd a)))))) domains ?as =
      map2 (\<lambda>d a. resolve_text d (Some (snd a ! (1 mod length (snd a))))) domains as"
    by (rule nth_equalityI) (auto simp: l len le entries_def entry_at_def split: prod.splits)
  moreover have "map fst ?as = ss" using len le by simp
  ultimately show ?thesis using st1(1) st2 by (simp add: dns_Run_def)
qed

text \<open>An example: every domain has the same two addresses.\<close>

definition two_addresses :: dns_sys where
  "two_addresses = demo_dns\<lparr>ds_parse := \<lambda>_. Some [11, 12]\<rparr>"

lemma two_addresses_answers: "answers two_addresses d [11, 12]"
  unfolding answers_def
  by (intro conjI exI [of _ d] allI) (auto simp: two_addresses_def demo_dns_def UdpSendAndRecv_def SetNonBlock_def sendto_def)

theorem dns_Run_uses_the_cache_witness:
  "\<exists>out1 out2 st2. dns_Run (replicate 4 two_addresses) (replicate 4 two_addresses) ((demo_cache 0)\<lparr>cache := []\<rparr>) =
     Some (0, out1 @ ''## use dns cache ##'' # out2, st2) \<and> out2 ! 0 = ''www.baidu.com->'' @ inet_ntoa 12"
proof -
  have a: "list_all2 (\<lambda>d (sys, ips). answers sys d ips) domains (replicate 4 (two_addresses, [11, 12]))"
    by (simp add: domains_def numeral_eq_Suc two_addresses_answers)
  have d: "length domains = 4" by (simp add: domains_def)
  have t: "\<forall>i < length domains. unat (ds_now_after (fst (replicate 4 (two_addresses, [11, 12 :: u32]) ! i))) div 1000 + 300 < 2 ^ 32 \<and>
      unat (ds_now (replicate 4 two_addresses ! i)) div 1000 <
        unat (ds_now_after (fst (replicate 4 (two_addresses, [11, 12 :: u32]) ! i))) div 1000 + 300"
    by (simp add: d two_addresses_def demo_dns_def)
  have o: "map2 (\<lambda>d a. resolve_text d (Some (snd a ! (1 mod length (snd a))))) domains (replicate 4 (two_addresses, [11, 12])) ! 0 =
      ''www.baidu.com->'' @ inet_ntoa 12"
    by (simp add: domains_def resolve_text_def numeral_eq_Suc)
  have "cache ((demo_cache 0)\<lparr>cache := []\<rparr>) = []" "length (replicate 4 two_addresses) = length domains" by (simp_all add: d)
  from dns_Run_uses_the_cache [OF a this t] obtain out1 out2 st2 where
    "dns_Run (map fst (replicate 4 (two_addresses, [11, 12 :: u32]))) (replicate 4 two_addresses) ((demo_cache 0)\<lparr>cache := []\<rparr>) =
      Some (0, out1 @ ''## use dns cache ##'' # out2, st2)"
    "out2 = map2 (\<lambda>d a. resolve_text d (Some (snd a ! (1 mod length (snd a))))) domains (replicate 4 (two_addresses, [11, 12]))" by blast
  with o show ?thesis unfolding map_replicate fst_conv by blast
qed

end
