(* ===== verification/Local_Log.thy ===== *)
theory Local_Log
  imports Util_String "HOL-Library.Sublist"
begin

text \<open>
  util/time.h, util/log.h and util/log.cc: \<open>mstime\<close>, the levels, the text of a log line, and
  \<open>LocalLog::WriteLog\<close> with the reopening by the workers and the rotation by the master.  The file
  system is a directory of inodes, since a process that holds a file open goes on writing to it
  after the master has renamed it.  What \<open>vsnprintf\<close> and \<open>strftime\<close> print are parameters.
\<close>

section \<open>Time\<close>

text \<open>\<open>tv_sec\<close> and \<open>tv_usec\<close> are what \<open>gettimeofday\<close> stores.\<close>

definition mstime :: "int \<Rightarrow> int \<Rightarrow> u64" where
  "mstime tv_sec tv_usec = word_of_int tv_sec * 1000 + word_of_int tv_usec div 1000"

section \<open>Files\<close>

record file_system =
  dir :: "string \<Rightarrow> nat option"
  inode_data :: "nat \<Rightarrow> string"
  next_inode :: nat

text \<open>What the system answers to one call of \<open>WriteLog\<close>: identity, clock and permissions.\<close>

record log_env =
  le_getppid :: int
  le_time_first :: u32
  le_time_now :: u32
  le_open_ok :: "string \<Rightarrow> bool"
  le_read_ok :: "string \<Rightarrow> bool"
  le_rename_ok :: "string \<Rightarrow> string \<Rightarrow> bool"
  le_remove_ok :: "string \<Rightarrow> bool"

definition fs_access :: "string \<Rightarrow> file_system \<Rightarrow> bool" where
  "fs_access n fs \<longleftrightarrow> dir fs n \<noteq> None"

definition fs_remove :: "log_env \<Rightarrow> string \<Rightarrow> file_system \<Rightarrow> file_system" where
  "fs_remove env n fs = (if le_remove_ok env n then fs\<lparr>dir := (dir fs)(n := None)\<rparr> else fs)"

text \<open>\<open>rename\<close> does nothing when both names are links to the same file.\<close>

definition fs_rename :: "log_env \<Rightarrow> string \<Rightarrow> string \<Rightarrow> file_system \<Rightarrow> file_system" where
  "fs_rename env old new fs =
     (if dir fs old = None \<or> dir fs old = dir fs new \<or> \<not> le_rename_ok env old new then fs
      else fs\<lparr>dir := (dir fs)(new := dir fs old, old := None)\<rparr>)"

text \<open>
  \<open>std::ofstream\<close> with \<open>out | app\<close>: the open file, if any, and whether the stream is in an error state.
  \<open>open\<close> of an open stream and \<open>close\<close> of a closed one fail; a stream in an error state writes nothing.
\<close>

record ofstream =
  ofs_file :: "nat option"
  ofs_fail :: bool

definition ofs_open :: "log_env \<Rightarrow> string \<Rightarrow> ofstream \<Rightarrow> file_system \<Rightarrow> ofstream \<times> file_system" where
  "ofs_open env n f fs =
     (if ofs_file f \<noteq> None \<or> \<not> le_open_ok env n then (f\<lparr>ofs_fail := True\<rparr>, fs)
      else case dir fs n of
        Some i \<Rightarrow> (\<lparr>ofs_file = Some i, ofs_fail = False\<rparr>, fs)
      | None \<Rightarrow> (\<lparr>ofs_file = Some (next_inode fs), ofs_fail = False\<rparr>,
                 fs\<lparr>dir := (dir fs)(n := Some (next_inode fs)),
                    inode_data := (inode_data fs)(next_inode fs := []), next_inode := Suc (next_inode fs)\<rparr>))"

definition ofs_close :: "ofstream \<Rightarrow> ofstream" where
  "ofs_close f = (if ofs_file f = None then f\<lparr>ofs_fail := True\<rparr> else f\<lparr>ofs_file := None\<rparr>)"

definition ofs_put :: "string \<Rightarrow> ofstream \<Rightarrow> file_system \<Rightarrow> ofstream \<times> file_system" where
  "ofs_put t f fs =
     (if ofs_fail f then (f, fs)
      else case ofs_file f of
        None \<Rightarrow> (f\<lparr>ofs_fail := True\<rparr>, fs)
      | Some i \<Rightarrow> (f, fs\<lparr>inode_data := (inode_data fs)(i := inode_data fs i @ t)\<rparr>))"

text \<open>\<open>filesize\<close>: \<open>tellg\<close> of a file that cannot be opened is -1.\<close>

definition filesize :: "log_env \<Rightarrow> string \<Rightarrow> file_system \<Rightarrow> int" where
  "filesize env n fs =
     (case dir fs n of
        Some i \<Rightarrow> if le_read_ok env n then int (length (inode_data fs i)) else -1
      | None \<Rightarrow> -1)"

section \<open>The log object\<close>

definition LL_DEBUG :: int where "LL_DEBUG = 0"
definition LL_INFO :: int where "LL_INFO = 1"
definition LL_WARNING :: int where "LL_WARNING = 2"
definition LL_ERROR :: int where "LL_ERROR = 3"
definition kLogItemSize :: nat where "kLogItemSize = 2048"
definition kMaxFilesize :: u32 where "kMaxFilesize = 1024 * 1024"
definition kMaxFilsNum :: nat where "kMaxFilsNum = 100"

text \<open>The members, the static \<open>lasts\<close> of \<open>WriteLog\<close>, and what has been printed to \<open>stderr\<close>.\<close>

record local_log =
  loglevel :: int
  log_content :: string
  filepath :: string
  current_file :: string
  log_file :: ofstream
  lasts :: "u32 option"
  log_stderr :: string

text \<open>The object behind \<open>Instance\<close> has static storage, so it starts with zeros.\<close>

definition LocalLog_Instance :: local_log where
  "LocalLog_Instance = \<lparr>loglevel = 0, log_content = [], filepath = [], current_file = [],
     log_file = \<lparr>ofs_file = None, ofs_fail = False\<rparr>, lasts = None, log_stderr = []\<rparr>"

definition SetLogLevel :: "int \<Rightarrow> local_log \<Rightarrow> local_log" where
  "SetLogLevel level l = l\<lparr>loglevel := level\<rparr>"

definition LocalLog_Initialize :: "log_env \<Rightarrow> string option \<Rightarrow> local_log \<Rightarrow> file_system \<Rightarrow> int \<times> local_log \<times> file_system" where
  "LocalLog_Initialize env arg l fs =
     (case arg of
        None \<Rightarrow> (-1, l, fs)
      | Some path \<Rightarrow>
          (let l1 = l\<lparr>current_file := path @ ''.log'', filepath := path\<rparr>;
               (f, fs1) = ofs_open env (current_file l1) (log_file l1) fs
           in (0, l1\<lparr>log_file := f\<rparr>, fs1)))"

text \<open>A C string ends at its first null character.\<close>

definition c_str :: "string \<Rightarrow> string" where
  "c_str t = takeWhile (\<lambda>c. c \<noteq> CHR 0x00) t"

definition log_name :: "string \<Rightarrow> nat \<Rightarrow> string" where
  "log_name path i = (if i > 0 then path @ ''_'' @ nat_to_string i @ ''.log'' else path @ ''.log'')"

text \<open>One round of the rotation, and the loop from \<open>n - 1\<close> down to 0.\<close>

definition rotate_one :: "log_env \<Rightarrow> string \<Rightarrow> nat \<Rightarrow> file_system \<Rightarrow> file_system" where
  "rotate_one env path i fs =
     (let fp = log_name path i in
      if fs_access fp fs then
        (if i = kMaxFilsNum - 1 then fs_remove env fp fs
         else fs_rename env fp (path @ ''_'' @ nat_to_string (i + 1) @ ''.log'') fs)
      else fs)"

fun rotate_loop :: "log_env \<Rightarrow> string \<Rightarrow> nat \<Rightarrow> file_system \<Rightarrow> file_system" where
  "rotate_loop env path 0 fs = fs"
| "rotate_loop env path (Suc i) fs = rotate_loop env path i (rotate_one env path i fs)"

definition reopen :: "log_env \<Rightarrow> local_log \<Rightarrow> file_system \<Rightarrow> local_log \<times> file_system" where
  "reopen env l fs =
     (let (f, fs1) = ofs_open env (current_file l) (ofs_close (log_file l)) fs in (l\<lparr>log_file := f\<rparr>, fs1))"

text \<open>\<open>nows = nows\<close> leaves \<open>lasts\<close> at the time of the first call.\<close>

definition worker_reopen :: "log_env \<Rightarrow> local_log \<Rightarrow> file_system \<Rightarrow> local_log \<times> file_system" where
  "worker_reopen env l fs =
     (let first = (case lasts l of None \<Rightarrow> le_time_first env | Some t \<Rightarrow> t);
          l1 = l\<lparr>lasts := Some first\<rparr>
      in if first + 10 < le_time_now env
         then (if ofs_file (log_file l1) \<noteq> None then reopen env l1 fs
               else let (f, fs1) = ofs_open env (current_file l1) (log_file l1) fs in (l1\<lparr>log_file := f\<rparr>, fs1))
         else (l1, fs))"

definition master_rotate :: "log_env \<Rightarrow> local_log \<Rightarrow> file_system \<Rightarrow> local_log \<times> file_system" where
  "master_rotate env l fs =
     (if (word_of_int (filesize env (current_file l) fs) :: u32) < kMaxFilesize then (l, fs)
      else reopen env l (rotate_loop env (filepath l) kMaxFilsNum fs))"

definition uninitialized_note :: string where
  "uninitialized_note = CHR 0x1B # ''[31m(uninitialized LocalLog obj)'' @ CHR 0x1B # ''[0m'' @ [CHR 0x0A]"

definition WriteLog :: "log_env \<Rightarrow> local_log \<Rightarrow> file_system \<Rightarrow> local_log \<times> file_system" where
  "WriteLog env l fs =
     (if ofs_file (log_file l) = None
      then (l\<lparr>log_stderr := log_stderr l @ c_str (log_content l) @ uninitialized_note\<rparr>, fs)
      else
        let (f, fs1) = ofs_put (c_str (log_content l) @ [CHR 0x0A]) (log_file l) fs;
            (l2, fs2) = (if le_getppid env > 1 then worker_reopen env (l\<lparr>log_file := f\<rparr>) fs1 else (l\<lparr>log_file := f\<rparr>, fs1))
        in if le_getppid env = 1 then master_rotate env l2 fs2 else (l2, fs2))"

text \<open>
  The text of a line.  \<open>stamp\<close> is \<open>strftime\<close> with \<open>[%Y:%m:%d %H:%M:%S\<close> on the local time of a second; the
  milliseconds are printed without leading zeros.
\<close>

definition log_header :: "(u64 \<Rightarrow> string) \<Rightarrow> u64 \<Rightarrow> u64 \<Rightarrow> u32 \<Rightarrow> string \<Rightarrow> string" where
  "log_header stamp now uin line func =
     stamp (now div 1000) @ ''.'' @ nat_to_string (unat (now mod 1000)) @ '']'' @
     ''['' @ func @ '']'' @ ''['' @ nat_to_string (unat line) @ '']'' @ ''['' @ nat_to_string (unat uin) @ ''] ''"

definition AppendLogItemHeader :: "(u64 \<Rightarrow> string) \<Rightarrow> u64 \<Rightarrow> u64 \<Rightarrow> u32 \<Rightarrow> string \<Rightarrow> local_log \<Rightarrow> u32 \<times> local_log" where
  "AppendLogItemHeader stamp now uin line func l =
     (let l1 = l\<lparr>log_content := log_header stamp now uin line func\<rparr> in (word_of_nat (length (log_content l1)), l1))"

text \<open>
  \<open>CommonLog\<close>; \<open>msg\<close> is the whole text the format and its arguments give, of which \<open>vsnprintf\<close> stores
  what fits into \<open>tmp\<close> with the terminating null character.
\<close>

record log_call =
  lc_stamp :: "u64 \<Rightarrow> string"
  lc_now :: u64
  lc_uin :: u64
  lc_line :: u32
  lc_func :: string
  lc_msg :: string

definition CommonLog :: "log_env \<Rightarrow> log_call \<Rightarrow> local_log \<Rightarrow> file_system \<Rightarrow> local_log \<times> file_system" where
  "CommonLog env c l fs =
     (let l1 = l\<lparr>log_content := []\<rparr>;
          l2 = snd (AppendLogItemHeader (lc_stamp c) (lc_now c) (lc_uin c) (lc_line c) (lc_func c) l1);
          tmp = take (kLogItemSize - 1) (lc_msg c)
      in WriteLog env (l2\<lparr>log_content := log_content l2 @ c_str tmp\<rparr>) fs)"

definition Log_Debug :: "log_env \<Rightarrow> log_call \<Rightarrow> local_log \<Rightarrow> file_system \<Rightarrow> local_log \<times> file_system" where
  "Log_Debug env c l fs = (if loglevel l > LL_DEBUG then (l, fs) else CommonLog env c l fs)"

definition Log_Info :: "log_env \<Rightarrow> log_call \<Rightarrow> local_log \<Rightarrow> file_system \<Rightarrow> local_log \<times> file_system" where
  "Log_Info env c l fs = (if loglevel l > LL_INFO then (l, fs) else CommonLog env c l fs)"

definition Log_Warning :: "log_env \<Rightarrow> log_call \<Rightarrow> local_log \<Rightarrow> file_system \<Rightarrow> local_log \<times> file_system" where
  "Log_Warning env c l fs = (if loglevel l > LL_WARNING then (l, fs) else CommonLog env c l fs)"

definition Log_Error :: "log_env \<Rightarrow> log_call \<Rightarrow> local_log \<Rightarrow> file_system \<Rightarrow> local_log \<times> file_system" where
  "Log_Error env c l fs = (if loglevel l > LL_ERROR then (l, fs) else CommonLog env c l fs)"

text \<open>The macros pass the level where the functions expect \<open>uin\<close>.\<close>

definition LOG_DEBUG :: "log_env \<Rightarrow> log_call \<Rightarrow> local_log \<Rightarrow> file_system \<Rightarrow> local_log \<times> file_system" where
  "LOG_DEBUG env c = Log_Debug env (c\<lparr>lc_uin := word_of_int LL_DEBUG\<rparr>)"

definition LOG_INFO :: "log_env \<Rightarrow> log_call \<Rightarrow> local_log \<Rightarrow> file_system \<Rightarrow> local_log \<times> file_system" where
  "LOG_INFO env c = Log_Info env (c\<lparr>lc_uin := word_of_int LL_INFO\<rparr>)"

definition LOG_WARNING :: "log_env \<Rightarrow> log_call \<Rightarrow> local_log \<Rightarrow> file_system \<Rightarrow> local_log \<times> file_system" where
  "LOG_WARNING env c = Log_Warning env (c\<lparr>lc_uin := word_of_int LL_WARNING\<rparr>)"

definition LOG_ERROR :: "log_env \<Rightarrow> log_call \<Rightarrow> local_log \<Rightarrow> file_system \<Rightarrow> local_log \<times> file_system" where
  "LOG_ERROR env c = Log_Error env (c\<lparr>lc_uin := word_of_int LL_ERROR\<rparr>)"

section \<open>The names of the generations\<close>

lemma nat_to_string_inject: "nat_to_string m = nat_to_string n \<longleftrightarrow> m = n"
  using digits_value_nat_to_string by metis

lemma log_name_inject [simp]: "log_name path i = log_name path j \<longleftrightarrow> i = j"
  by (auto simp: log_name_def nat_to_string_inject)

lemma log_name_Suc: "path @ ''_'' @ nat_to_string (i + 1) @ ''.log'' = log_name path (Suc i)"
  by (simp add: log_name_def)

section \<open>The rotation is a shift\<close>

text \<open>
  The reference: from generation \<open>n\<close> on every name has the file of the generation before it, and the
  name of generation \<open>n\<close> itself is free.  All other names are as they were.
\<close>

definition shifted :: "string \<Rightarrow> nat \<Rightarrow> (string \<Rightarrow> nat option) \<Rightarrow> string \<Rightarrow> nat option" where
  "shifted path n d m =
     (case List.find (\<lambda>k. m = log_name path k) [n..<kMaxFilsNum] of
        None \<Rightarrow> d m
      | Some k \<Rightarrow> if k = n then None else d (log_name path (k - 1)))"

lemma find_equal: "List.find ((=) j) xs = (if j \<in> set xs then Some j else None)"
  by (induction xs) auto

lemma find_none: "List.find (\<lambda>k. False) xs = None"
  by (induction xs) auto

lemma shifted_log_name: "shifted path n d (log_name path j) =
    (if j < n \<or> kMaxFilsNum \<le> j then d (log_name path j) else if j = n then None else d (log_name path (j - 1)))"
  by (simp add: shifted_def find_equal)

lemma shifted_other: "\<forall>k. m \<noteq> log_name path k \<Longrightarrow> shifted path n d m = d m"
  by (simp add: shifted_def find_none)

lemma shifted_all: "shifted path kMaxFilsNum d = d"
  by (simp add: shifted_def fun_eq_iff)

definition all_permitted :: "log_env \<Rightarrow> bool" where
  "all_permitted env \<longleftrightarrow> (\<forall>n. le_open_ok env n \<and> le_read_ok env n \<and> le_remove_ok env n) \<and> (\<forall>m n. le_rename_ok env m n)"

lemma rotate_one_shifts:
  assumes "all_permitted env" and "i < kMaxFilsNum" and fs: "dir fs = shifted path (Suc i) d"
  shows "rotate_one env path i fs = fs\<lparr>dir := shifted path i d\<rparr>"
proof -
  let ?a = "log_name path i" and ?b = "log_name path (Suc i)"
  have a: "dir fs ?a = d ?a" by (simp add: fs shifted_log_name)
  have b: "i \<noteq> kMaxFilsNum - 1 \<Longrightarrow> dir fs ?b = None" using assms(2) by (auto simp: fs shifted_log_name)
  have move: "shifted path i d = (dir fs)(?b := (if i = kMaxFilsNum - 1 then dir fs ?b else d ?a), ?a := None)"
  proof
    fix m
    show "shifted path i d m = ((dir fs)(?b := (if i = kMaxFilsNum - 1 then dir fs ?b else d ?a), ?a := None)) m"
      using assms(2) by (cases "\<exists>k. m = log_name path k") (auto simp: fs shifted_log_name shifted_other)
  qed
  have keep: "d ?a = None \<Longrightarrow> shifted path i d = dir fs" by (rule ext) (auto simp: move a b)
  from assms(1) show ?thesis
    by (cases "d ?a")
      (auto simp: rotate_one_def Let_def fs_access_def fs_remove_def fs_rename_def a b log_name_Suc [simplified] move
        all_permitted_def keep fun_upd_idem split: if_splits)
qed

lemma rotate_loop_shifts:
  "all_permitted env \<Longrightarrow> n \<le> kMaxFilsNum \<Longrightarrow> dir fs = shifted path n d \<Longrightarrow>
    rotate_loop env path n fs = fs\<lparr>dir := shifted path 0 d\<rparr>"
proof (induction n arbitrary: fs)
  case 0
  then show ?case by simp
next
  case (Suc i)
  then show ?case by (simp add: rotate_one_shifts)
qed

lemma rotation_is_shift: "all_permitted env \<Longrightarrow> rotate_loop env path kMaxFilsNum fs = fs\<lparr>dir := shifted path 0 (dir fs)\<rparr>"
  by (rule rotate_loop_shifts) (simp_all add: shifted_all)

text \<open>
  C19: the hundred renames of the rotation are together one shift.  Afterwards the name of every
  generation but the first has the file the name before it had, so the oldest file is gone, the name
  of the current log is free, and no other name and no contents have changed.
\<close>

theorem rotate_loop_equiv:
  assumes "all_permitted env"
  shows "rotate_loop env path kMaxFilsNum fs = fs\<lparr>dir := shifted path 0 (dir fs)\<rparr> \<and>
    shifted path 0 (dir fs) (log_name path 0) = None \<and>
    (\<forall>j < kMaxFilsNum - 1. shifted path 0 (dir fs) (log_name path (Suc j)) = dir fs (log_name path j)) \<and>
    ((\<forall>k. m \<noteq> log_name path k) \<longrightarrow> shifted path 0 (dir fs) m = dir fs m)"
  using rotation_is_shift [OF assms] by (auto simp: shifted_log_name shifted_other kMaxFilsNum_def)

section \<open>What the master keeps\<close>

text \<open>
  The abstract log: the texts of the generations, the current one first.  Writing appends to the
  current one; when that has reached a mebibyte a new one is begun and the last one is dropped.
\<close>

definition generations :: "string \<Rightarrow> file_system \<Rightarrow> string option list" where
  "generations path fs = map (\<lambda>i. map_option (inode_data fs) (dir fs (log_name path i))) [0..<kMaxFilsNum]"

fun spec_write :: "string \<Rightarrow> string option list \<Rightarrow> string option list" where
  "spec_write t [] = []"
| "spec_write t (g # gs) =
     (let g1 = (case g of Some u \<Rightarrow> u | None \<Rightarrow> []) @ t in
      if length g1 < 1024 * 1024 then Some g1 # gs else Some [] # butlast (Some g1 # gs))"

definition links_ok :: "file_system \<Rightarrow> bool" where
  "links_ok fs \<longleftrightarrow> (\<forall>m n i. dir fs m = Some i \<longrightarrow> dir fs n = Some i \<longrightarrow> m = n) \<and> (\<forall>m i. dir fs m = Some i \<longrightarrow> i < next_inode fs)"

definition master_ok :: "local_log \<Rightarrow> file_system \<Rightarrow> bool" where
  "master_ok l fs \<longleftrightarrow> links_ok fs \<and> current_file l = log_name (filepath l) 0 \<and> \<not> ofs_fail (log_file l) \<and>
     ofs_file (log_file l) \<noteq> None \<and> ofs_file (log_file l) = dir fs (current_file l)"

lemma links_ok_shifted: "links_ok fs \<Longrightarrow> links_ok (fs\<lparr>dir := shifted path 0 (dir fs)\<rparr>)"
proof -
  assume ok: "links_ok fs"
  let ?d = "shifted path 0 (dir fs)"
  have src: "?d m = Some i \<Longrightarrow> (\<exists>j. m = log_name path (Suc j) \<and> Suc j < kMaxFilsNum \<and> dir fs (log_name path j) = Some i) \<or>
      ((\<forall>j < kMaxFilsNum. m \<noteq> log_name path j) \<and> dir fs m = Some i)" for m i
    by (cases "\<exists>k. m = log_name path k")
      (auto simp: shifted_log_name shifted_other gr0_conv_Suc split: if_splits)
  have "m = n" if "?d m = Some i" "?d n = Some i" for m n i
    using src [OF that(1)] src [OF that(2)] ok unfolding links_ok_def
    by (elim disjE exE conjE) (metis log_name_inject Suc_lessD)+
  moreover have "i < next_inode fs" if "?d m = Some i" for m i
    using src [OF that] ok unfolding links_ok_def by blast
  ultimately show ?thesis unfolding links_ok_def by simp
qed

lemma ofs_open_new:
  assumes "links_ok fs" and "le_open_ok env n" and "ofs_file f = None" and "dir fs n = None"
  shows "\<exists>f1 fs1. ofs_open env n f fs = (f1, fs1) \<and> links_ok fs1 \<and> \<not> ofs_fail f1 \<and> ofs_file f1 = Some (next_inode fs) \<and>
    dir fs1 = (dir fs)(n \<mapsto> next_inode fs) \<and> inode_data fs1 = (inode_data fs)(next_inode fs := [])"
proof -
  have "links_ok (fs\<lparr>dir := (dir fs)(n \<mapsto> next_inode fs), inode_data := x, next_inode := Suc (next_inode fs)\<rparr>)" for x
    using assms(1) unfolding links_ok_def by (auto simp: less_Suc_eq)
  with assms show ?thesis by (simp add: ofs_open_def)
qed

lemma ofs_put_appends:
  "\<not> ofs_fail f \<Longrightarrow> ofs_file f = Some i \<Longrightarrow> ofs_put t f fs = (f, fs\<lparr>inode_data := (inode_data fs)(i := inode_data fs i @ t)\<rparr>)"
  by (simp add: ofs_put_def)

lemma generations_put:
  assumes "links_ok fs" and "dir fs (log_name path 0) = Some i"
  shows "generations path (fs\<lparr>inode_data := (inode_data fs)(i := inode_data fs i @ t)\<rparr>) =
    Some (inode_data fs i @ t) # tl (generations path fs)"
proof -
  have u: "[0..<kMaxFilsNum] = 0 # [1..<kMaxFilsNum]" by (simp add: kMaxFilsNum_def upt_conv_Cons)
  have "dir fs (log_name path k) \<noteq> Some i" if "k \<in> set [1..<kMaxFilsNum]" for k
    using assms that unfolding links_ok_def by (metis atLeastLessThan_iff log_name_inject not_one_le_zero set_upt)
  then have "map_option ((inode_data fs)(i := inode_data fs i @ t)) (dir fs (log_name path k)) =
      map_option (inode_data fs) (dir fs (log_name path k))" if "k \<in> set [1..<kMaxFilsNum]" for k
    using that by (cases "dir fs (log_name path k)") auto
  with assms(2) show ?thesis unfolding generations_def u by simp
qed

lemma generations_shifted:
  assumes "links_ok fs"
  shows "generations path (fs\<lparr>dir := (shifted path 0 (dir fs))(log_name path 0 \<mapsto> next_inode fs),
      inode_data := (inode_data fs)(next_inode fs := []), next_inode := x\<rparr>) = Some [] # butlast (generations path fs)"
proof -
  have u: "[0..<kMaxFilsNum] = 0 # map Suc [0..<kMaxFilsNum - 1]" "butlast [0..<kMaxFilsNum] = [0..<kMaxFilsNum - 1]"
    by (simp_all add: kMaxFilsNum_def map_Suc_upt upt_conv_Cons)
  have "map_option ((inode_data fs)(next_inode fs := [])) (dir fs m) = map_option (inode_data fs) (dir fs m)" for m
    using assms unfolding links_ok_def by (cases "dir fs m") auto
  then show ?thesis unfolding generations_def u(1) map_butlast [symmetric] u(2) [unfolded u(1)]
    by (auto simp: shifted_log_name)
qed

lemma filesize_small:
  assumes "le_read_ok env n" and "dir fs n = Some i" and "length (inode_data fs i) < 2 ^ 32"
  shows "(word_of_int (filesize env n fs) :: u32) < kMaxFilesize \<longleftrightarrow> length (inode_data fs i) < 1024 * 1024"
proof -
  have "(word_of_int (filesize env n fs) :: u32) = word_of_nat (length (inode_data fs i))"
    using assms(1,2) by (simp add: filesize_def)
  then show ?thesis using assms(3) by (simp add: word_less_nat_alt unat_of_nat_small kMaxFilesize_def)
qed

lemma reopen_after_rotation:
  assumes env: "all_permitted env" and ok: "links_ok fs" and l: "current_file l = log_name (filepath l) 0" "ofs_file (log_file l) \<noteq> None"
  shows "\<exists>f fs1. reopen env l (rotate_loop env (filepath l) kMaxFilsNum fs) = (l\<lparr>log_file := f\<rparr>, fs1) \<and>
    master_ok (l\<lparr>log_file := f\<rparr>) fs1 \<and> generations (filepath l) fs1 = Some [] # butlast (generations (filepath l) fs)"
proof -
  let ?p = "filepath l"
  let ?fs = "fs\<lparr>dir := shifted ?p 0 (dir fs)\<rparr>"
  have op: "le_open_ok env n" for n using env by (simp add: all_permitted_def)
  have free: "dir ?fs (log_name ?p 0) = None" by (simp add: shifted_log_name kMaxFilsNum_def)
  have cl: "ofs_file (ofs_close (log_file l)) = None" using l(2) by (simp add: ofs_close_def)
  from ofs_open_new [OF links_ok_shifted [OF ok] op cl free] obtain f fs1 where
    o: "ofs_open env (log_name ?p 0) (ofs_close (log_file l)) ?fs = (f, fs1)" "links_ok fs1" "\<not> ofs_fail f"
       "ofs_file f = Some (next_inode fs)" "dir fs1 = (shifted ?p 0 (dir fs))(log_name ?p 0 \<mapsto> next_inode fs)"
       "inode_data fs1 = (inode_data fs)(next_inode fs := [])" by auto
  have "generations ?p fs1 = Some [] # butlast (generations ?p fs)"
    using generations_shifted [OF ok, of ?p] o(5,6) by (simp add: generations_def)
  with o l(1) show ?thesis by (auto simp: reopen_def rotation_is_shift [OF env] master_ok_def)
qed

lemma WriteLog_master:
  assumes ok: "master_ok l fs" and env: "all_permitted env" "le_getppid env = 1"
    and fits: "\<forall>i. dir fs (current_file l) = Some i \<longrightarrow> length (inode_data fs i) + length (c_str (log_content l)) + 1 < 2 ^ 32"
  shows "\<exists>f fs1. WriteLog env l fs = (l\<lparr>log_file := f\<rparr>, fs1) \<and> master_ok (l\<lparr>log_file := f\<rparr>) fs1 \<and>
    generations (filepath l) fs1 = spec_write (c_str (log_content l) @ [CHR 0x0A]) (generations (filepath l) fs)"
proof -
  let ?t = "c_str (log_content l) @ [CHR 0x0A]" and ?p = "filepath l"
  from ok obtain i where i: "links_ok fs" "current_file l = log_name ?p 0" "\<not> ofs_fail (log_file l)" "ofs_file (log_file l) = Some i"
    "dir fs (log_name ?p 0) = Some i" by (cases "ofs_file (log_file l)") (auto simp: master_ok_def)
  define fs1 where "fs1 = fs\<lparr>inode_data := (inode_data fs)(i := inode_data fs i @ ?t)\<rparr>"
  have cat: "inode_data fs i @ ?t = inode_data fs1 i" by (simp add: fs1_def)
  have links: "links_ok fs1" using i(1) by (simp add: links_ok_def fs1_def)
  have len: "length (inode_data fs1 i) < 2 ^ 32" using fits i by (simp add: fs1_def)
  have gens: "generations ?p fs = Some (inode_data fs i) # tl (generations ?p fs)"
    by (simp add: generations_def kMaxFilsNum_def upt_conv_Cons i(5))
  have put: "generations ?p fs1 = Some (inode_data fs1 i) # tl (generations ?p fs)"
    using generations_put [OF i(1,5)] by (simp add: fs1_def)
  have read: "le_read_ok env n" for n using env(1) by (simp add: all_permitted_def)
  have d1: "dir fs1 (log_name ?p 0) = Some i" using i(5) by (simp add: fs1_def)
  have w: "WriteLog env l fs = master_rotate env l fs1"
    using i env(2) by (simp add: WriteLog_def ofs_put_appends fs1_def)
  have spec: "spec_write ?t (generations ?p fs) = (if length (inode_data fs1 i) < 1024 * 1024 then generations ?p fs1
      else Some [] # butlast (generations ?p fs1))"
    by (subst gens, subst spec_write.simps) (simp only: option.case Let_def put cat)
  show ?thesis
  proof (cases "length (inode_data fs1 i) < 1024 * 1024")
    case True
    then have "master_rotate env l fs1 = (l, fs1)"
      using filesize_small [OF read d1 len] i(2) by (simp add: master_rotate_def)
    moreover have "master_ok l fs1" using i links d1 by (simp add: master_ok_def)
    ultimately show ?thesis using True w spec by (intro exI [of _ "log_file l"] exI [of _ fs1]) simp
  next
    case False
    then have "master_rotate env l fs1 = reopen env l (rotate_loop env ?p kMaxFilsNum fs1)"
      using filesize_small [OF read d1 len] i(2) by (simp add: master_rotate_def)
    with reopen_after_rotation [OF env(1) links i(2)] i(4) False w spec show ?thesis by simp
  qed
qed

text \<open>
  C18: for the master \<open>WriteLog\<close> implements the abstract log.  Whatever the names, inodes and streams do,
  the texts of the generations afterwards are those of \<open>spec_write\<close>, and the state is again one in
  which the stream is open on the file of the current name.
\<close>

theorem WriteLog_refines:
  assumes "master_ok l fs" and "all_permitted env" and "le_getppid env = 1"
    and "\<forall>i. dir fs (current_file l) = Some i \<longrightarrow> length (inode_data fs i) + length (c_str (log_content l)) + 1 < 2 ^ 32"
    and "WriteLog env l fs = (l1, fs1)"
  shows "generations (filepath l1) fs1 = spec_write (c_str (log_content l) @ [CHR 0x0A]) (generations (filepath l) fs) \<and>
    master_ok l1 fs1 \<and> log_stderr l1 = log_stderr l"
  using WriteLog_master [OF assms(1-4)] assms(5) by auto

text \<open>
  Generations in use without gaps, each but the current one of a mebibyte or more, as the master
  leaves them when it starts with none.
\<close>

definition dense :: "string list \<Rightarrow> string option list \<Rightarrow> bool" where
  "dense full gs \<longleftrightarrow> full \<noteq> [] \<and> length full \<le> 100 \<and> gs = map Some full @ replicate (100 - length full) None \<and>
     (\<forall>g \<in> set (tl full). 1024 * 1024 \<le> length g)"

lemma length_concat_ge: "\<forall>x \<in> set xs. n \<le> length x \<Longrightarrow> n * length xs \<le> length (concat xs)"
  by (induction xs) auto

lemma spec_write_dense:
  assumes "dense full gs" and small: "length (concat full) + length t < 100 * (1024 * 1024)"
  shows "\<exists>full1. dense full1 (spec_write t gs) \<and> concat (rev full1) = concat (rev full) @ t"
proof -
  obtain g rest where full: "full = g # rest" using assms(1) by (cases full) (auto simp: dense_def)
  note d = assms(1) [unfolded dense_def full, simplified]
  show ?thesis
  proof (cases "length (g @ t) < 1024 * 1024")
    case True
    then show ?thesis using d full by (intro exI [of _ "(g @ t) # rest"]) (auto simp: dense_def Let_def)
  next
    case False
    have "length rest < 99"
    proof (rule ccontr)
      assume "\<not> length rest < 99"
      then have "1024 * 1024 * 99 \<le> length (concat rest)"
        using length_concat_ge [of rest "1024 * 1024"] d by auto
      with False small full show False by simp
    qed
    then have "99 - length rest = Suc (98 - length rest)" by simp
    then have "replicate (99 - length rest) (None :: string option) = replicate (98 - length rest) None @ [None]"
      by (simp add: replicate_append_same)
    then have "butlast (Some (g @ t) # map Some rest @ replicate (99 - length rest) None) =
        Some (g @ t) # map Some rest @ replicate (98 - length rest) None"
      by (simp add: butlast_append)
    moreover have "100 - length ([] # (g @ t) # rest) = 98 - length rest" by simp
    moreover have "gs = Some g # map Some rest @ replicate (99 - length rest) None" using d by simp
    ultimately have "spec_write t gs = map Some ([] # (g @ t) # rest) @ replicate (100 - length ([] # (g @ t) # rest)) None"
      using False by (simp only: spec_write.simps Let_def option.case if_False list.map append_Cons)
    moreover have "length ([] # (g @ t) # rest) \<le> 100" using \<open>length rest < 99\<close> by simp
    moreover have "\<forall>x \<in> set (tl ([] # (g @ t) # rest)). 1024 * 1024 \<le> length x" using d False by auto
    ultimately have "dense ([] # (g @ t) # rest) (spec_write t gs)" unfolding dense_def by blast
    then show ?thesis using full by (intro exI [of _ "[] # (g @ t) # rest"]) simp
  qed
qed

definition log_line :: "log_call \<Rightarrow> string" where
  "log_line c = c_str (log_header (lc_stamp c) (lc_now c) (lc_uin c) (lc_line c) (lc_func c) @ c_str (take (kLogItemSize - 1) (lc_msg c))) @ [CHR 0x0A]"

fun log_all :: "(log_env \<times> log_call) list \<Rightarrow> local_log \<Rightarrow> file_system \<Rightarrow> local_log \<times> file_system" where
  "log_all [] l fs = (l, fs)"
| "log_all ((env, c) # cs) l fs = (case Log_Info env c l fs of (l1, fs1) \<Rightarrow> log_all cs l1 fs1)"

lemma master_ok_content: "master_ok (l\<lparr>log_content := k\<rparr>) fs \<longleftrightarrow> master_ok l fs"
  by (simp add: master_ok_def)

lemma Log_Info_master:
  assumes ok: "master_ok l fs" and env: "all_permitted env" "le_getppid env = 1" and lev: "loglevel l \<le> LL_INFO"
    and d: "dense full (generations (filepath l) fs)" and small: "length (concat full) + length (log_line c) < 100 * (1024 * 1024)"
  shows "\<exists>l1 fs1 full1. Log_Info env c l fs = (l1, fs1) \<and> master_ok l1 fs1 \<and> loglevel l1 = loglevel l \<and> filepath l1 = filepath l \<and>
    dense full1 (generations (filepath l) fs1) \<and> concat (rev full1) = concat (rev full) @ log_line c"
proof -
  define k where "k = log_header (lc_stamp c) (lc_now c) (lc_uin c) (lc_line c) (lc_func c) @ c_str (take (kLogItemSize - 1) (lc_msg c))"
  have line: "log_line c = c_str k @ [CHR 0x0A]" by (simp add: log_line_def k_def)
  let ?l = "l\<lparr>log_content := k\<rparr>"
  have ok1: "master_ok ?l fs" using ok by (simp add: master_ok_content)
  have call: "Log_Info env c l fs = WriteLog env ?l fs"
    using lev by (simp add: Log_Info_def CommonLog_def AppendLogItemHeader_def Let_def k_def)
  obtain g rest where full: "full = g # rest" using d by (cases full) (auto simp: dense_def)
  have "length (inode_data fs i) = length g" if "dir fs (current_file l) = Some i" for i
    using that d ok full by (simp add: dense_def generations_def master_ok_def kMaxFilsNum_def upt_conv_Cons)
  then have fits: "\<forall>i. dir fs (current_file ?l) = Some i \<longrightarrow>
      length (inode_data fs i) + length (c_str (log_content ?l)) + 1 < 2 ^ 32"
    using small full line by auto
  from WriteLog_master [OF ok1 env fits] spec_write_dense [OF d small] call show ?thesis
    by (auto simp: line)
qed

lemma log_all_master:
  assumes "master_ok l fs" and "\<forall>(env, c) \<in> set cs. all_permitted env \<and> le_getppid env = 1" and "loglevel l \<le> LL_INFO"
    and "dense full (generations (filepath l) fs)" and "length (concat full) + length (concat (map (log_line \<circ> snd) cs)) < 100 * (1024 * 1024)"
    and "log_all cs l fs = (l1, fs1)"
  shows "\<exists>full1. dense full1 (generations (filepath l) fs1) \<and> concat (rev full1) = concat (rev full) @ concat (map (log_line \<circ> snd) cs)"
  using assms
proof (induction cs arbitrary: l fs full)
  case Nil
  then show ?case by auto
next
  case (Cons x cs)
  obtain env c where x: "x = (env, c)" by (cases x)
  have "length (concat full) + length (log_line c) < 100 * (1024 * 1024)" using Cons.prems(5) x by simp
  with Log_Info_master [OF Cons.prems(1) _ _ Cons.prems(3,4), of env c] Cons.prems(2) x obtain l2 fs2 full2 where
    s: "Log_Info env c l fs = (l2, fs2)" "master_ok l2 fs2" "loglevel l2 = loglevel l" "filepath l2 = filepath l"
      "dense full2 (generations (filepath l) fs2)" "concat (rev full2) = concat (rev full) @ log_line c" by auto
  have "length (concat full2) = length (concat full) + length (log_line c)"
    using arg_cong [OF s(6), of length] by (simp add: length_concat rev_map [symmetric])
  with Cons.IH [OF s(2), of full2] Cons.prems s x show ?case by auto
qed

lemma dense_history: "dense full gs \<Longrightarrow> concat (rev (map (case_option [] id) gs)) = concat (rev full)"
proof -
  assume "dense full gs"
  then have "rev (map (case_option [] id) gs) = replicate (100 - length full) [] @ rev full"
    by (simp add: dense_def comp_def)
  then show ?thesis by simp
qed


section \<open>The workers\<close>

lemma ofs_open_follows:
  assumes "le_open_ok env n" and "ofs_file f = None"
  shows "\<exists>f1 fs1. ofs_open env n f fs = (f1, fs1) \<and> \<not> ofs_fail f1 \<and> ofs_file f1 \<noteq> None \<and> ofs_file f1 = dir fs1 n \<and>
    (\<forall>i < next_inode fs. inode_data fs1 i = inode_data fs i)"
  using assms by (cases "dir fs n") (auto simp: ofs_open_def)

text \<open>
  C39: a worker writes its line to the file it has open, also when the master has renamed that file
  meanwhile, and then opens the file the current name stands for.  From ten seconds after its first
  line on it does so with every line and not every ten seconds, since \<open>lasts\<close> is never set again.
\<close>

theorem worker_follows_rotation:
  assumes "ofs_file (log_file l) = Some i" and "\<not> ofs_fail (log_file l)" and "i < next_inode fs"
    and "all_permitted env" and "1 < le_getppid env" and "lasts l = Some t" and "t + 10 < le_time_now env"
  shows "\<exists>l1 fs1. WriteLog env l fs = (l1, fs1) \<and> inode_data fs1 i = inode_data fs i @ c_str (log_content l) @ [CHR 0x0A] \<and>
    ofs_file (log_file l1) \<noteq> None \<and> ofs_file (log_file l1) = dir fs1 (current_file l) \<and> \<not> ofs_fail (log_file l1) \<and>
    current_file l1 = current_file l \<and> lasts l1 = Some t"
proof -
  let ?t = "c_str (log_content l) @ [CHR 0x0A]"
  define fs2 where "fs2 = fs\<lparr>inode_data := (inode_data fs)(i := inode_data fs i @ ?t)\<rparr>"
  have op: "le_open_ok env (current_file l)" using assms(4) by (simp add: all_permitted_def)
  have cl: "ofs_file (ofs_close (log_file l)) = None" using assms(1) by (simp add: ofs_close_def)
  obtain f1 fs1 where o: "ofs_open env (current_file l) (ofs_close (log_file l)) fs2 = (f1, fs1)" "\<not> ofs_fail f1"
      "ofs_file f1 \<noteq> None" "ofs_file f1 = dir fs1 (current_file l)" "\<forall>j < next_inode fs2. inode_data fs1 j = inode_data fs2 j"
    using ofs_open_follows [OF op cl, of fs2] by blast
  have i: "inode_data fs1 i = inode_data fs i @ ?t" using o(5) assms(3) by (simp add: fs2_def)
  have "WriteLog env l fs = worker_reopen env l fs2"
    using assms(1,2,5) by (simp add: WriteLog_def ofs_put_appends fs2_def)
  also have "\<dots> = reopen env (l\<lparr>lasts := Some t\<rparr>) fs2"
    using assms(1,7) by (simp add: worker_reopen_def assms(6) Let_def)
  also have "\<dots> = (l\<lparr>lasts := Some t, log_file := f1\<rparr>, fs1)"
    by (simp add: reopen_def o(1))
  finally show ?thesis using o(2-4) i by (intro exI [of _ "l\<lparr>lasts := Some t, log_file := f1\<rparr>"] exI [of _ fs1]) simp
qed

section \<open>Branches\<close>

lemma WriteLog_uninitialized:
  "ofs_file (log_file l) = None \<Longrightarrow>
    WriteLog env l fs = (l\<lparr>log_stderr := log_stderr l @ c_str (log_content l) @ uninitialized_note\<rparr>, fs)"
  by (simp add: WriteLog_def)

text \<open>A log file that cannot be read has the size \<open>2\<^sup>3\<^sup>2 - 1\<close> for the master, which then rotates with every line.\<close>

lemma unreadable_log_rotates:
  "\<not> le_read_ok env (current_file l) \<Longrightarrow>
    master_rotate env l fs = reopen env l (rotate_loop env (filepath l) kMaxFilsNum fs)"
  by (simp add: master_rotate_def filesize_def kMaxFilesize_def split: option.splits)

text \<open>A second \<open>Initialize\<close> leaves the stream open and in an error state: nothing is written any more, to a file or to \<open>stderr\<close>.\<close>

lemma second_Initialize_silences:
  assumes "ofs_file (log_file l) = Some i" and "LocalLog_Initialize env (Some path) l fs = (r, l1, fs1)"
    and "le_getppid env2 = 0"
  shows "r = 0 \<and> WriteLog env2 l1 fs1 = (l1, fs1)"
  using assms by (auto simp: LocalLog_Initialize_def ofs_open_def WriteLog_def ofs_put_def Let_def)

section \<open>Examples\<close>

definition demo_fs :: file_system where
  "demo_fs = \<lparr>dir = (\<lambda>_. None), inode_data = (\<lambda>_. []), next_inode = 0\<rparr>"

definition demo_log_env :: "int \<Rightarrow> log_env" where
  "demo_log_env ppid = \<lparr>le_getppid = ppid, le_time_first = 5, le_time_now = 100, le_open_ok = (\<lambda>_. True), le_read_ok = (\<lambda>_. True),
     le_rename_ok = (\<lambda>_ _. True), le_remove_ok = (\<lambda>_. True)\<rparr>"

definition demo_log_call :: log_call where
  "demo_log_call = \<lparr>lc_stamp = (\<lambda>_. ''[t''), lc_now = 7005, lc_uin = 0, lc_line = 1, lc_func = ''f'', lc_msg = ''hi''\<rparr>"

lemma demo_permitted: "all_permitted (demo_log_env p)" "le_getppid (demo_log_env p) = p"
  by (simp_all add: all_permitted_def demo_log_env_def)

lemma demo_links: "links_ok demo_fs"
  by (simp add: links_ok_def demo_fs_def)

lemma demo_line: "log_line demo_log_call = ''[t.5][f][1][0] hi'' @ [CHR 0x0A]"
proof -
  have "nat_to_string 0 = ''0''" "nat_to_string (Suc 0) = ''1''" "nat_to_string 5 = ''5''" by code_simp+
  then show ?thesis by (simp add: log_line_def log_header_def demo_log_call_def c_str_def kLogItemSize_def)
qed

theorem rotate_loop_equiv_witness:
  "rotate_loop (demo_log_env 1) ''a'' kMaxFilsNum (demo_fs\<lparr>dir := [''a.log'' \<mapsto> 3]\<rparr>) =
     demo_fs\<lparr>dir := shifted ''a'' 0 [''a.log'' \<mapsto> 3]\<rparr> \<and> shifted ''a'' 0 [''a.log'' \<mapsto> 3] (log_name ''a'' 1) = Some (3 :: nat)"
  using rotate_loop_equiv [OF demo_permitted(1), of 1 "''a''" "demo_fs\<lparr>dir := [''a.log'' \<mapsto> 3]\<rparr>" "[]"]
  by (simp add: kMaxFilsNum_def log_name_def [of _ 0])

definition demo_log :: local_log where
  "demo_log = LocalLog_Instance\<lparr>current_file := ''a.log'', filepath := ''a'', log_file := \<lparr>ofs_file = Some 0, ofs_fail = False\<rparr>, log_content := ''x''\<rparr>"

definition demo_log_fs :: file_system where
  "demo_log_fs = \<lparr>dir = [''a.log'' \<mapsto> 0], inode_data = (\<lambda>_. []), next_inode = 1\<rparr>"

theorem WriteLog_refines_witness:
  "generations ''a'' (snd (WriteLog (demo_log_env 1) demo_log demo_log_fs)) =
     spec_write [CHR ''x'', CHR 0x0A] (generations ''a'' demo_log_fs)"
proof -
  have ok: "master_ok demo_log demo_log_fs"
    by (auto simp: master_ok_def demo_log_def demo_log_fs_def links_ok_def log_name_def split: if_splits)
  have fits: "\<forall>i. dir demo_log_fs (current_file demo_log) = Some i \<longrightarrow>
      length (inode_data demo_log_fs i) + length (c_str (log_content demo_log)) + 1 < 2 ^ 32"
    by (simp add: demo_log_def demo_log_fs_def c_str_def)
  obtain l1 fs1 where w: "WriteLog (demo_log_env 1) demo_log demo_log_fs = (l1, fs1)" by fastforce
  have p: "filepath l1 = ''a''" using WriteLog_master [OF ok demo_permitted fits] w by (auto simp: demo_log_def)
  from WriteLog_refines [OF ok demo_permitted fits w] w p show ?thesis by (simp add: demo_log_def c_str_def)
qed


theorem worker_follows_rotation_witness:
  "\<exists>l1 fs1. WriteLog (demo_log_env 9) (demo_log\<lparr>lasts := Some 5\<rparr>) (demo_log_fs\<lparr>dir := [''a_1.log'' \<mapsto> 0]\<rparr>) = (l1, fs1) \<and>
     inode_data fs1 0 = [CHR ''x'', CHR 0x0A] \<and> ofs_file (log_file l1) = dir fs1 ''a.log'' \<and> lasts l1 = Some 5"
  using worker_follows_rotation [of "demo_log\<lparr>lasts := Some 5\<rparr>" 0 "demo_log_fs\<lparr>dir := [''a_1.log'' \<mapsto> 0]\<rparr>" "demo_log_env 9" 5]
    demo_permitted [of 9]
  by (auto simp: demo_log_def demo_log_fs_def c_str_def demo_log_env_def [of 9])

end
