(* ===== verification/Example_Udp.thy ===== *)
theory Example_Udp
  imports Example_Dns Local_Log
begin

text \<open>
  example/udp_client, example/udp_server and the builders of example/server: a client that sends one
  datagram and a server that sends it back.  The lines the builders write to the log are left out.
\<close>

section \<open>The client\<close>

text \<open>The address that \<open>inet_pton\<close> stores for \<open>127.0.0.1\<close>.\<close>

definition loopback :: u32 where
  "loopback = 0x0100007F"

lemma loopback_text: "inet_ntoa loopback = ''127.0.0.1''"
  by code_simp

text \<open>
  \<open>TestWork::Run\<close>: the time and what the other coroutines do in each sleep, the answers to the system calls,
  and \<open>sys_sendto\<close>, what \<open>::sendto\<close> returns for a datagram and an address.
\<close>

record udp_client_env =
  uc_sleep1 :: "u64 \<times> (frame \<Rightarrow> frame)"
  uc_sleep2 :: "u64 \<times> (frame \<Rightarrow> frame)"
  uc_socket :: int
  uc_getfl :: int
  uc_setfl :: "int \<Rightarrow> int"
  uc_sendto :: "string \<Rightarrow> u32 \<times> u16 \<Rightarrow> int"
  uc_recvfrom :: "(char list \<times> (u32 \<times> u16)) answer list"

definition udp_client_Run :: "udp_client_env \<Rightarrow> errno \<Rightarrow> frame \<Rightarrow> (int \<times> string list \<times> errno \<times> frame) option" where
  "udp_client_Run env e s =
     (let addr = (loopback, htons 32000);
          sendbuf = ''hello'';
          s1 = snd (uc_sleep1 env) (Sleep 1000 (fst (uc_sleep1 env)) s);
          s2 = snd (uc_sleep2 env) (Sleep 2000 (fst (uc_sleep2 env)) s1);
          out = [''sleep 1 second'', ''sleep 2 second'', ''client send pkg to udp server and receive the same content'',
                 ''in order to test, udp server will wait for 1 second after receiving pkg from client'',
                 ''send content: '' @ c_str sendbuf]
      in case UdpSendAndRecv (uc_socket env) (uc_getfl env) (uc_setfl env) (uc_sendto env sendbuf addr) (uc_recvfrom env) [] e s2 of
           None \<Rightarrow> None
         | Some (ret, e1, recvbuf, s3) \<Rightarrow>
             if ret < 0 then Some (-1, out @ [''UdpSendAndRecv error: ret='' @ int_to_string ret], e1, s3)
             else Some (0, out @ [''recv content: '' @ c_str recvbuf], e1, s3))"

definition udp_client_main :: "ptr \<Rightarrow> (u64 \<times> (frame \<Rightarrow> frame)) list \<Rightarrow> frame \<Rightarrow> (int \<times> frame) option option" where
  "udp_client_main w ks s =
     (let (ok, s1) = Frame_Init s in
      if \<not> ok then Some None
      else let (t, s2) = CreateThread w s1 in
        map_option (\<lambda>s3. Some (0, snd (Frame_Fini s3))) (wait_dead t ks s2))"

section \<open>The server\<close>

text \<open>
  \<open>TestWork::Run\<close> on the server: the result, the log, the datagrams the system has taken, and the framework.
\<close>

definition udp_server_Run :: "u64 \<times> (frame \<Rightarrow> frame) \<Rightarrow> (u32 \<Rightarrow> string \<Rightarrow> u32 \<times> u16 \<Rightarrow> int) \<Rightarrow> udp_req_info \<Rightarrow> frame \<Rightarrow>
    int \<times> string list \<times> (u32 \<times> string \<times> u32 \<times> u16) list \<times> frame" where
  "udp_server_Run sl answer q s =
     (let s1 = snd sl (Sleep 10000 (fst sl) s);
          r = UdpReqWork_Reply answer q (reqpkg q)
      in (0, [''new udp req: '' @ c_str (reqpkg q) @ ''|response after 10s'', ''rsp to client''],
          if r < 0 then [] else [(req_sockfd q, reqpkg q, srcaddr q)], s1))"

definition udp_BuildUdpBusinessWork :: "ptr \<Rightarrow> u32 \<Rightarrow> ptr" where
  "udp_BuildUdpBusinessWork work port = work"

definition udp_BuildStreamBusinessWork :: "u32 \<Rightarrow> ptr" where
  "udp_BuildStreamBusinessWork port = NULL"

definition udp_server_main :: "listen_sys \<Rightarrow> ptr \<Rightarrow> (u64 \<times> (frame \<Rightarrow> frame)) list \<Rightarrow> frame \<Rightarrow> (int \<times> int list \<times> frame) option" where
  "udp_server_main sys w ks s = map_option (\<lambda>(r, fds, s1). (0, fds, s1)) (UdpSrv sys 0 32000 w ks s)"

section \<open>The builders of the server example\<close>

definition MyUdpReqWork_Run :: "u64 \<times> (frame \<Rightarrow> frame) \<Rightarrow> (u32 \<Rightarrow> string \<Rightarrow> u32 \<times> u16 \<Rightarrow> int) \<Rightarrow> udp_req_info \<Rightarrow> frame \<Rightarrow>
    string list \<times> (u32 \<times> string \<times> u32 \<times> u16) list \<times> frame" where
  "MyUdpReqWork_Run sl answer q s =
     (let s1 = snd sl (Sleep 10000 (fst sl) s);
          r = UdpReqWork_Reply answer q (reqpkg q)
      in ([''new udp req: '' @ c_str (reqpkg q) @ ''|response after 10s'', ''rsp to client''],
          if r < 0 then [] else [(req_sockfd q, reqpkg q, srcaddr q)], s1))"

definition MyServer_BuildStreamBusinessWork :: "ptr \<Rightarrow> u32 \<Rightarrow> ptr" where
  "MyServer_BuildStreamBusinessWork work port = (if 8080 = port then work else NULL)"

definition MyServer_BuildUdpBusinessWork :: "ptr \<Rightarrow> u32 \<Rightarrow> ptr" where
  "MyServer_BuildUdpBusinessWork work port = (if 123456 = port then work else NULL)"

section \<open>From the client to the server and back\<close>

text \<open>A call of \<open>recvfrom\<close>, however long it waits, returns the datagram \<open>d\<close> of \<open>a\<close>.\<close>

definition arrives :: "int \<Rightarrow> (char list \<times> (u32 \<times> u16)) answer list \<Rightarrow> string \<Rightarrow> u32 \<times> u16 \<Rightarrow> bool" where
  "arrives fd w d a \<longleftrightarrow> (\<forall>e s. \<exists>e' s'. recvfrom fd 65536 w e s = Some (int (length d), e', Some (d, a), s'))"

lemma arrives_at_once: "length d \<le> 65536 \<Longrightarrow> arrives fd [Ok (d, a)] d a"
  by (simp add: arrives_def)

text \<open>One that had to wait for the socket and was interrupted first.\<close>

lemma arrives_later: "length d \<le> 65536 \<Longrightarrow> arrives fd [Err EINTR, Err EAGAIN, Woken {EV_READ} e k, Ok (d, a)] d a"
  by (simp add: arrives_def Let_def)

text \<open>A datagram that arrives while the mutex is free: what the builder decides.\<close>

lemma udp_srv_round_arrival:
  assumes "l_mtx (us_listener st) = Some 0" and "polite pid (ui_mtx i)"
    and "arrives (listenfd (us_listener st)) (ui_recvfrom i) d a" and "d \<noteq> []"
  shows "\<exists>st'. l_mtx (us_listener st') = Some 0 \<and>
    udp_srv_round AtomicCompareAndSet pid (Some build) i st =
     (let b = build (ucast (l_port (us_listener st)));
          q = \<lparr>req_sockfd = word_of_int (listenfd (us_listener st)), reqpkg = d, srcaddr = a,
               dstaddr = (l_ip (us_listener st), htons (l_port (us_listener st)))\<rparr>
      in if b = NULL then Some (st', Null_Deref)
         else Some (st'\<lparr>us_works := AList.update b q (us_works st'), us_frame := snd (CreateThread b (us_frame st'))\<rparr>, Next))"
proof -
  have m: "ui_mtx i (Some pid) = Some pid" using assms(2) by (simp add: polite_def)
  obtain e' s' where r: "recvfrom (listenfd (us_listener st)) 65536 (ui_recvfrom i) (us_errno st) (us_frame st) =
      Some (int (length d), e', Some (d, a), s')" using assms(3) unfolding arrives_def by blast
  show ?thesis
    by (rule exI [of _ "st\<lparr>us_errno := e', us_frame := s', us_listener := (us_listener st)\<lparr>l_mtx := Some 0\<rparr>\<rparr>"])
      (use assms(1,4) in \<open>simp add: udp_srv_round_def TryLock_atomic Unlock_atomic m r Let_def\<close>)
qed

text \<open>
  The datagram work of the server example is built for port 123456, which no port of 16 bits equals:
  every datagram makes the loop use a null pointer.
\<close>

lemma MyServer_no_udp_port: "MyServer_BuildUdpBusinessWork w (ucast (p :: u16)) = NULL"
proof -
  have "unat (ucast p :: u32) < 2 ^ 16" using unsigned_less [of p, where ?'a = nat] by (simp add: unsigned_ucast_eq take_bit_eq_mod)
  then have "ucast p \<noteq> (123456 :: u32)" by auto
  then show ?thesis by (auto simp: MyServer_BuildUdpBusinessWork_def)
qed

lemma MyServer_datagram_crashes:
  assumes "l_mtx (us_listener st) = Some 0" and "polite pid (ui_mtx i)"
    and "arrives (listenfd (us_listener st)) (ui_recvfrom i) d a" and "d \<noteq> []"
  shows "\<exists>st'. udp_srv_round AtomicCompareAndSet pid (Some (MyServer_BuildUdpBusinessWork w)) i st = Some (st', Null_Deref)"
  using udp_srv_round_arrival [OF assms, of "MyServer_BuildUdpBusinessWork w"] by (auto simp: MyServer_no_udp_port)

lemma udp_client_prints:
  assumes "0 \<le> uc_getfl env" and "0 \<le> uc_setfl env (uc_getfl env OR O_NONBLOCK)" and "0 \<le> uc_sendto env ''hello'' (loopback, htons 32000)"
    and "arrives (uc_socket env) (uc_recvfrom env) d x" and "d \<noteq> []"
  shows "\<exists>out e' s'. udp_client_Run env e s = Some (0, out @ [''recv content: '' @ c_str d], e', s')"
proof -
  define s2 where "s2 = snd (uc_sleep2 env) (Sleep 2000 (fst (uc_sleep2 env)) (snd (uc_sleep1 env) (Sleep 1000 (fst (uc_sleep1 env)) s)))"
  obtain e' s' where "recvfrom (uc_socket env) 65536 (uc_recvfrom env) e s2 = Some (int (length d), e', Some (d, x), s')"
    using assms(4) unfolding arrives_def by blast
  then have "UdpSendAndRecv (uc_socket env) (uc_getfl env) (uc_setfl env) (uc_sendto env ''hello'' (loopback, htons 32000)) (uc_recvfrom env) [] e s2 =
      Some (0, e', d, s')"
    using assms(1,2,3,5) by (simp add: UdpSendAndRecv_def SetNonBlock_def sendto_def)
  then show ?thesis unfolding udp_client_Run_def Let_def s2_def [symmetric] by auto
qed

text \<open>
  C24: The datagram example echoes.  When the server has received the client's datagram, its work object
  sends the same bytes back to the sender and leaves the mutex free; and when they arrive, the client
  prints what it sent and returns 0.  The calls may wait for the socket in any way.
\<close>

theorem udp_echo:
  assumes "l_mtx (us_listener st) = Some 0" and "polite pid (ui_mtx i)" and "b \<noteq> NULL"
    and "arrives (listenfd (us_listener st)) (ui_recvfrom i) ''hello'' a"
    and "0 \<le> answer (word_of_int (listenfd (us_listener st))) ''hello'' a"
    and "0 \<le> uc_getfl env" and "0 \<le> uc_setfl env (uc_getfl env OR O_NONBLOCK)" and "0 \<le> uc_sendto env ''hello'' (loopback, htons 32000)"
  shows "\<exists>st' q out sent s'. udp_srv_round AtomicCompareAndSet pid (Some (udp_BuildUdpBusinessWork b)) i st = Some (st', Next) \<and>
    l_mtx (us_listener st') = Some 0 \<and> map_of (us_works st') b = Some q \<and>
    udp_server_Run sl answer q s = (0, out, sent, s') \<and> sent = [(word_of_int (listenfd (us_listener st)), ''hello'', a)] \<and>
    ((\<forall>(fd, d, to) \<in> set sent. arrives (uc_socket env) (uc_recvfrom env) d x) \<longrightarrow>
      (\<exists>out' e' s''. udp_client_Run env e s0 = Some (0, out' @ [''recv content: hello''], e', s'')))"
proof -
  obtain st' where st': "l_mtx (us_listener st') = Some 0" "udp_srv_round AtomicCompareAndSet pid (Some (udp_BuildUdpBusinessWork b)) i st =
      Some (st'\<lparr>us_works := AList.update b \<lparr>req_sockfd = word_of_int (listenfd (us_listener st)), reqpkg = ''hello'', srcaddr = a,
          dstaddr = (l_ip (us_listener st), htons (l_port (us_listener st)))\<rparr> (us_works st'), us_frame := snd (CreateThread b (us_frame st'))\<rparr>, Next)"
    using udp_srv_round_arrival [OF assms(1,2,4), of "udp_BuildUdpBusinessWork b"] assms(3) by (auto simp: udp_BuildUdpBusinessWork_def Let_def)
  have "c_str ''hello'' = ''hello''" by (simp add: c_str_def)
  with udp_client_prints [OF assms(6-8), of "''hello''" x e s0] st' assms(5) show ?thesis
    by (auto simp: update_conv' udp_server_Run_def UdpReqWork_Reply_def sendto_def Let_def)
qed

definition demo_udp_client :: udp_client_env where
  "demo_udp_client = \<lparr>uc_sleep1 = (0, id), uc_sleep2 = (0, id), uc_socket = 7, uc_getfl = 0, uc_setfl = \<lambda>_. 0, uc_sendto = \<lambda>d _. int (length d),
     uc_recvfrom = [Err EINTR, Err EAGAIN, Woken {EV_READ} EINTR id, Ok (''hello'', (loopback, 0))]\<rparr>"

theorem udp_echo_witness:
  "\<exists>out e' s'. udp_client_Run demo_udp_client EINTR Frame_static = Some (0, out @ [''recv content: hello''], e', s')"
proof -
  let ?st = "\<lparr>us_listener = demo_listener\<lparr>l_mtx := Some 0\<rparr>, us_works = [], us_errno = EINTR, us_frame = Frame_static\<rparr>"
  let ?i = "\<lparr>ui_now = 0, ui_resume = id, ui_mtx = id, ui_recvfrom = [Ok (''hello'', (loopback, 9))]\<rparr>"
  have p: "polite 5 (ui_mtx ?i)" by (simp add: polite_def)
  have a: "arrives (listenfd (us_listener ?st)) (ui_recvfrom ?i) ''hello'' (loopback, 9)" by (simp add: arrives_at_once)
  have b: "arrives (uc_socket demo_udp_client) (uc_recvfrom demo_udp_client) ''hello'' (loopback, 0)" by (simp add: demo_udp_client_def arrives_later)
  have c: "0 \<le> uc_getfl demo_udp_client" "0 \<le> uc_setfl demo_udp_client (uc_getfl demo_udp_client OR O_NONBLOCK)"
    "0 \<le> uc_sendto demo_udp_client ''hello'' (loopback, htons 32000)" by (simp_all add: demo_udp_client_def)
  from udp_echo [OF _ p _ a _ c, of 3 "\<lambda>fd d to. int (length d)" "(0, id)" Frame_static "(loopback, 0)" EINTR Frame_static] b
  show ?thesis by auto
qed

end
