(* ===== verification/Example_Http.thy ===== *)
theory Example_Http
  imports Rpc_Exchange Example_Udp
begin

text \<open>
  The examples over HTTP: example/http_server and example/server answer every request with a greeting,
  example/rpc calls a method of a service, and example/http_client uses the clients in turn.  The lines
  the \<open>Serve\<close> functions and the builders write to the log are left out.
\<close>

section \<open>The greeting\<close>

text \<open>\<open>TestWork::Serve\<close> of the HTTP server; \<open>MyHttpReqWork::Serve\<close> of the server example has the same body.\<close>

definition hello_Serve :: "nat answer list \<Rightarrow> rpc_work \<Rightarrow> (int \<times> rpc_work) option" where
  "hello_Serve w st =
     map_option (\<lambda>st1. (0, st1)) (rpc_Reply w (st\<lparr>rw_hrsp := rs_SetContent ''hello world!'' (SetStatus 200 (rw_hrsp st))\<rparr>))"

definition MyHttpReqWork_Serve :: "nat answer list \<Rightarrow> rpc_work \<Rightarrow> (int \<times> rpc_work) option" where
  "MyHttpReqWork_Serve w st =
     map_option (\<lambda>st1. (0, st1)) (rpc_Reply w (st\<lparr>rw_hrsp := rs_SetContent ''hello world!'' (SetStatus 200 (rw_hrsp st))\<rparr>))"

definition http_BuildStreamBusinessWork :: "ptr \<Rightarrow> u32 \<Rightarrow> ptr" where
  "http_BuildStreamBusinessWork work p = work"

definition http_BuildUdpBusinessWork :: "u32 \<Rightarrow> ptr" where
  "http_BuildUdpBusinessWork p = NULL"

definition http_server_main :: "listen_sys \<Rightarrow> ptr \<Rightarrow> (u64 \<times> (frame \<Rightarrow> frame)) list \<Rightarrow> frame \<Rightarrow> (int \<times> int list \<times> frame) option" where
  "http_server_main sys w ks s = map_option (\<lambda>(r, fds, s1). (0, fds, s1)) (TcpSrv sys 0 8080 w ks s)"

text \<open>\<open>main\<close> of the server example up to the loop of its role: the result of \<open>main\<close>, or what \<open>Run\<close> enters.\<close>

definition server_main :: "boot_sys \<Rightarrow> frame \<Rightarrow> (int + (frame \<times> server_impl \<times> (int + work_mode))) option" where
  "server_main b s =
     (case Initialize b s ServerImpl_ctor of
        None \<Rightarrow> None
      | Some (r, s1, srv) \<Rightarrow>
          if r < 0 then Some (Inl (-1)) else (let (s2, x) = Server_Run s1 srv in Some (Inr (s2, srv, x))))"

section \<open>The service\<close>

text \<open>
  \<open>HttpServiceImpl::Foo\<close> sets the content of the response.  \<open>enc\<close> is the serialisation of a message with
  one field \<open>content\<close>, which both messages of service.proto are; \<open>dec\<close> tells which texts can be parsed.
\<close>

definition Foo :: "(string \<Rightarrow> string) \<Rightarrow> string \<Rightarrow> string" where
  "Foo enc request = enc ''world''"

definition example_service :: "(string \<Rightarrow> string) \<Rightarrow> (string \<Rightarrow> bool) \<Rightarrow> rpc_env" where
  "example_service enc dec = \<lparr>rp_method_count = \<lambda>_. 1, rp_FindMethodByName = \<lambda>_ m. m = ''Foo'',
     rp_ParseFromString = \<lambda>_ _ c. dec c, rp_CallMethod = \<lambda>_ _ c. Foo enc c, rp_effect = id\<rparr>"

definition rpc_mappings :: string where
  "rpc_mappings = ''/v1/queue/start  > Foo,'' @ ''/v1/queue/stop   > Foo,'' @ ''/v1/queue/stats/ > Foo''"

definition service_methods :: "string \<Rightarrow> string option" where
  "service_methods m = (if m = ''Foo'' then Some ''Service.Foo'' else None)"

text \<open>The builders; a \<open>TinycoRpc\<close> object refers to the routes of the server.\<close>

definition rpc_BuildStreamBusinessWork :: "server_impl \<Rightarrow> u32 \<Rightarrow> (string \<times> method_descriptor) list option" where
  "rpc_BuildStreamBusinessWork srv p = (if 8080 = p then Some (method_map srv) else None)"

definition rpc_BuildUdpBusinessWork :: "u32 \<Rightarrow> ptr" where
  "rpc_BuildUdpBusinessWork p = NULL"

definition rpc_server_main :: "boot_sys \<Rightarrow> ptr \<Rightarrow> frame \<Rightarrow> (int + (frame \<times> server_impl \<times> (int + work_mode))) option" where
  "rpc_server_main b svc s =
     (case Initialize b s ServerImpl_ctor of
        None \<Rightarrow> None
      | Some (r, s1, srv) \<Rightarrow>
          if r < 0 then Some (Inl (-1))
          else let (ok, srv1) = AddRpcService svc service_methods rpc_mappings srv in
            if \<not> ok then Some (Inl (-1)) else (let (s2, x) = Server_Run s1 srv1 in Some (Inr (s2, srv1, x))))"

text \<open>
  \<open>TestWork::Run\<close> of the RPC client; \<open>debug\<close> is \<open>DebugString\<close> of a response parsed from a text, and of one
  that was not.  \<open>tc\<close> and \<open>tr\<close> stand for the timeouts of a new controller.
\<close>

definition rpc_client_Run :: "op_env \<Rightarrow> (string \<Rightarrow> string) \<Rightarrow> (string \<Rightarrow> bool) \<Rightarrow> (string option \<Rightarrow> string) \<Rightarrow> int \<Rightarrow> int \<Rightarrow> op_state \<Rightarrow>
    (int \<times> string \<times> op_state) option option" where
  "rpc_client_Run env enc dec debug tc tr st =
     (let ch = Channel_InitServer \<lparr>ep_ip = loopback, ep_port = 8080\<rparr> \<lparr>server = EndPoint_ctor\<rparr>;
          c1 = set_recv_timoeut 2000 (set_connect_timoeut 1000 (Controller_ctor tc tr));
          c2 = c1\<lparr>hreq_header := SetUri ''/v1/queue/stop'' (hreq_header c1)\<rparr>
      in map_option (map_option (\<lambda>(c3, rsp, st1).
           (0, if c_error_code c3 = 0
               then ''CallMethod ret='' @ int_to_string (c_error_code c3) @ ''|response='' @ c_str (debug rsp)
               else ''CallMethod error_code='' @ int_to_string (c_error_code c3), st1)))
         (Channel_CallMethod env dec ch (enc ''hello'') c2 st))"

section \<open>The clients in turn\<close>

text \<open>
  \<open>TestWork::Run\<close> of the client example, in three parts: \<open>HttpGet\<close> at the end, before it the exchange over
  TLS, and before it the plain one.  The log is a list of texts; \<open>hc\<close> and \<open>hsc\<close> are closed by their
  destructors when \<open>Run\<close> returns, \<open>hsc\<close> first.
\<close>

definition baidu_request :: http_request where
  "baidu_request = rq_SetHeader ''Host'' ''baidu.com'' (SetUri ''/'' (SetMethod HTTP_REQUEST_METHOD_GET HttpRequest_ctor))"

definition http_client_op :: "op_env \<Rightarrow> op_state \<Rightarrow> (int \<times> string list \<times> op_state) option option" where
  "http_client_op env st =
     map_option (map_option (\<lambda>(ret, hrsp, st1).
       (0, [''test http op'',
            if ret < 0 then ''HttpGet error: ret='' @ int_to_string ret
            else ''new intf: ret='' @ int_to_string ret @ ''|'' @ c_str (rs_SerializeToString hrsp)], st1)))
     (HttpOp_HttpGet env ''https://www.baidu.com'' [] HttpResponse_ctor st)"

definition destroy_hsc :: "https_client \<Rightarrow> op_state \<Rightarrow> op_state" where
  "destroy_hsc hsc st = st\<lparr>os_closed := os_closed st @ hs_closed (HttpsClient_Close (hsc\<lparr>hs_closed := []\<rparr>))\<rparr>"

definition destroy_hc :: "http_client \<Rightarrow> op_state \<Rightarrow> op_state" where
  "destroy_hc hc st = st\<lparr>os_closed := os_closed st @ conn_closed (TcpConn_Close ((hc_conn hc)\<lparr>conn_closed := []\<rparr>))\<rparr>"

definition after_hsc :: "https_client \<Rightarrow> op_state \<Rightarrow> op_state" where
  "after_hsc hsc st = (os_leave (hs_errno hsc) (hs_frame hsc) [] (hs_closed hsc) st)\<lparr>os_ctx := hs_ctx hsc\<rparr>"

definition after_hc :: "http_client \<Rightarrow> string \<Rightarrow> op_state \<Rightarrow> op_state" where
  "after_hc hc out st = os_leave (conn_errno (hc_conn hc)) (conn_frame (hc_conn hc)) out (conn_closed (hc_conn hc)) st"

definition http_client_https :: "op_env \<Rightarrow> op_env \<Rightarrow> u32 \<Rightarrow> string \<Rightarrow> string \<Rightarrow> op_state \<Rightarrow> (int \<times> string list \<times> op_state) option option" where
  "http_client_https env env' ip rq rsp st =
     (case HttpsClient_Init (oe_https env) ip 443 1000 5000 500 (HttpsClient_ctor (os_ctx st) (dns_errno (os_dns st)) (dns_frame (os_dns st))) of
        None \<Rightarrow> None
      | Some (ret, hsc) \<Rightarrow>
          if ret < 0 then
            Some (Some (0, [''test https...'', ''ret='' @ int_to_string ret @ ''|'' @ c_str (fst (Https_GetErrorMsg hsc))],
              destroy_hsc hsc (after_hsc hsc st)))
          else
            (case HttpsClient_SendAndReceive (oe_https env) (oe_check env) rq hsc of
               None \<Rightarrow> None
             | Some (ret1, res, hsc1) \<Rightarrow>
                 (let out = [''test https...'', ''https request='' @ c_str rq] in
                  if ret1 < 0 then
                    Some (Some (0, out @ [''ret='' @ int_to_string ret1 @ ''|'' @ c_str (fst (Https_GetErrorMsg hsc1))],
                      destroy_hsc hsc1 (after_hsc hsc1 st)))
                  else
                    map_option (map_option (\<lambda>(r, out1, st1).
                      (r, out @ (''https response = '' @ c_str (case res of Some t \<Rightarrow> t | None \<Rightarrow> rsp)) # out1, destroy_hsc hsc1 st1)))
                    (http_client_op env' (after_hsc hsc1 st)))))"

definition http_client_Run :: "dns_sys \<Rightarrow> op_env \<Rightarrow> op_env \<Rightarrow> op_env \<Rightarrow> op_state \<Rightarrow> (int \<times> string list \<times> op_state) option option" where
  "http_client_Run sys env env' env'' st0 =
     (case Resolve sys ''baidu.com'' (os_dns st0) of
        None \<Rightarrow> None
      | Some (None, d) \<Rightarrow> Some (Some (0, [''dns resolve error, check your dns config''], st0\<lparr>os_dns := d\<rparr>))
      | Some (Some ip, d) \<Rightarrow>
          (let st = st0\<lparr>os_dns := d\<rparr> in
           case HttpClient_Init (oe_conn env) ip 80 (HttpClient_ctor (dns_errno d) (dns_frame d)) of
             None \<Rightarrow> None
           | Some (ret, hc) \<Rightarrow>
               if ret < 0 then
                 Some (Some (0, [''test http...'', ''ret = '' @ int_to_string ret @ ''|'' @ c_str (fst (HttpClient_GetErrorMsg hc))],
                   destroy_hc hc (after_hc hc [] st)))
               else
                 (let rq = rq_SerializeToString0 baidu_request; out = [''test http...'', ''http request='' @ c_str rq] in
                  case HttpClient_SendAndReceive (oe_conn env) (oe_check env) rq (oe_send env) (oe_recv env) hc of
                    None \<Rightarrow> None
                  | Some (ret1, sent, res, hc1) \<Rightarrow>
                      if ret1 < 0 then
                        Some (Some (0, out @ [''ret = '' @ int_to_string ret1 @ ''|'' @ c_str (fst (HttpClient_GetErrorMsg hc1))],
                          destroy_hc hc1 (after_hc hc1 sent st)))
                      else
                        (let rsp = (case res of Some t \<Rightarrow> t | None \<Rightarrow> []) in
                         map_option (map_option (\<lambda>(r, out1, st1). (r, out @ (''http response='' @ c_str rsp) # out1, destroy_hc hc1 st1)))
                           (http_client_https env' env'' ip rq rsp (after_hc hc1 sent st))))))"

definition http_client_main :: "ptr \<Rightarrow> (u64 \<times> (frame \<Rightarrow> frame)) list \<Rightarrow> frame \<Rightarrow> (int \<times> frame) option option" where
  "http_client_main w ks s =
     (let (ok, s1) = Frame_Init s in
      if \<not> ok then Some None
      else let (t, s2) = CreateThread w s1 in
        map_option (\<lambda>s3. Some (0, snd (Frame_Fini s3))) (wait_dead t ks s2))"

section \<open>What the examples do\<close>

lemma hello_is_call_response: "rs_SetContent ''hello world!'' (SetStatus 200 HttpResponse_ctor) = call_response ''hello world!''"
  by (simp add: call_response_def SetStatus_def HttpResponse_ctor_def)

lemma get_request_fields:
  "rq_method (get_request u []) = HTTP_REQUEST_METHOD_GET" "struri (get_request u []) = uri u" "rq_content (get_request u []) = []"
  "rq_headers (get_request u []) = [(''Host'', host u)]"
  by (simp_all add: get_request_def set_extra_def op_defs HttpRequest_ctor_def)

lemma get_request_serializes: "rq_SerializeToString (get_request u []) = Some (rq_SerializeToString0 (get_request u []))"
  by (simp add: rq_SerializeToString0_def rq_SerializeToString_def get_request_fields Let_def)

text \<open>The greeting keeps the contract of a \<open>Serve\<close> for requests without a \<open>Connection\<close> header.\<close>

lemma hello_Serve_replies:
  assumes "rq_GetHeader ''Connection'' q = []" and "t' = rs_SerializeToString (call_response ''hello world!'')"
    and "drains (length t') w" and "length t' < 2 ^ 31"
  shows "\<exists>st1. hello_Serve w (rpc_work_of fd (q, HttpResponse_ctor, e, s)) = Some (0, st1) \<and> rw_sent st1 = t'"
proof -
  let ?st = "(rpc_work_of fd (q, HttpResponse_ctor, e, s))\<lparr>rw_hrsp := call_response ''hello world!''\<rparr>"
  have f: "rw_hreq ?st = q" "rw_hrsp ?st = call_response ''hello world!''" "rw_sent ?st = []" by (simp_all add: rpc_work_of_def)
  have t: "rs_SerializeToString (replied q (call_response ''hello world!'')) = t'" using replied_text [OF assms(1)] assms(2) by simp
  obtain e' s' where "rpc_Reply w ?st = Some (?st\<lparr>rw_hrsp := replied q (call_response ''hello world!''), rw_sent := t', rw_errno := e', rw_frame := s'\<rparr>)"
    using rpc_Reply_sends [of ?st w] assms(3,4) unfolding f t by (simp only: append_Nil) blast
  moreover have "hello_Serve w (rpc_work_of fd (q, HttpResponse_ctor, e, s)) = map_option (\<lambda>st1. (0, st1)) (rpc_Reply w ?st)"
    unfolding hello_is_call_response [symmetric] by (simp add: hello_Serve_def rpc_work_of_def)
  ultimately show ?thesis by simp
qed

interpretation hello: replying_handler hello_Serve "\<lambda>q. rq_GetHeader ''Connection'' q = []"
  "\<lambda>q. rs_SerializeToString (call_response ''hello world!'')"
  by unfold_locales (rule hello_Serve_replies; simp)

lemma MyHttpReqWork_is_hello: "MyHttpReqWork_Serve = hello_Serve"
  by (intro ext) (simp add: MyHttpReqWork_Serve_def hello_Serve_def)


lemma split_mappings: "Split rpc_mappings CHR '','' = [''/v1/queue/start  > Foo'', ''/v1/queue/stop   > Foo'', ''/v1/queue/stats/ > Foo'']"
  by code_simp

lemma split_mapping:
  "map trim (Split ''/v1/queue/start  > Foo'' CHR ''>'') = [''/v1/queue/start'', ''Foo'']"
  "map trim (Split ''/v1/queue/stop   > Foo'' CHR ''>'') = [''/v1/queue/stop'', ''Foo'']"
  "map trim (Split ''/v1/queue/stats/ > Foo'' CHR ''>'') = [''/v1/queue/stats/'', ''Foo'']"
  by code_simp+

text \<open>The three routes of the RPC server.\<close>

lemma rpc_routes:
  assumes "AddRpcService svc service_methods rpc_mappings srv = (ok, srv')" and "k \<in> {''/v1/queue/start'', ''/v1/queue/stop'', ''/v1/queue/stats/''}"
  shows "ok \<and> map_of (method_map srv') k = Some \<lparr>service = svc, md_method = ''Foo'', full_name = ''Service.Foo''\<rparr>"
proof -
  have two: "length m = 2 \<and> trim (m ! 0) = a \<and> trim (m ! Suc 0) = b" if "map trim m = [a, b]" for m a b
    using that by (auto simp: map_eq_Cons_conv)
  note parts = split_mapping [THEN two]
  have d: "service_methods ''Foo'' = Some ''Service.Foo''" by (simp add: service_methods_def)
  show ?thesis
    using assms by (auto simp: AddRpcService_def split_mappings parts d Let_def update_conv')
qed

text \<open>
  C22: The RPC example works.  Once \<open>main\<close> of the server has reached its loop, a connection to port 8080 is
  served with routes that send \<open>/v1/queue/stop\<close> to \<open>Foo\<close>; given the bytes the client sends, \<open>Run\<close> replies with
  the response of \<open>Foo\<close>, and given those bytes the client prints error code 0 and that response.
\<close>

theorem rpc_example:
  assumes main: "rpc_server_main b svc s0 = Some (Inr (s1, srv, role))" and work: "rpc_BuildStreamBusinessWork srv 8080 = Some mm"
    and msgs: "dec (enc ''hello'')" "dec (enc ''world'')"
    and url: "env_url henv ''/v1/queue/stop'' = Some [UF_PATH \<mapsto> (0, 14)]"
    and req: "t = rq_SerializeToString0 (call_request ''/v1/queue/stop'' (enc ''hello''))" "client_sends env t" "server_receives henv xs t"
      "parser_reads (env_exec henv) t"
    and rsp: "t' = rs_SerializeToString (call_response (enc ''world''))" "drains (length t') w" "length t' < 2 ^ 31" "client_receives env t'"
      "response_reads (oe_exec env) t'"
    and conn: "connects env \<lparr>server = \<lparr>ep_ip = loopback, ep_port = 8080\<rparr>\<rparr>"
    and serve: "env_Serve henv = serve_with (TinycoRpc_Serve (example_service enc dec) mm w) fd"
  shows "(\<exists>q st1 st2. TinycoRpc_Serve (example_service enc dec) mm w (rpc_work_of fd (q, HttpResponse_ctor, e, s)) = Some (0, st1) \<and>
      rw_sent st1 = t' \<and> hreq st2 = rw_hreq st1 \<and> hrsp st2 = rw_hrsp st1 \<and>
      HttpSrvWork_Run henv fd (map (\<lambda>c. [Ok c]) xs) HttpRequest_ctor HttpResponse_ctor e s =
        (st2, if keepalive (hreq st2) then Running else Returned 0)) \<and>
    (\<exists>st'. rpc_client_Run env enc dec debug tc tr st =
      Some (Some (0, ''CallMethod ret=0|response='' @ c_str (debug (Some (enc ''world''))), st')) \<and> os_sent st' = os_sent st @ t)"
proof
  let ?md = "\<lparr>service = svc, md_method = ''Foo'', full_name = ''Service.Foo''\<rparr>" and ?env = "example_service enc dec"
  obtain srv0 ok where "AddRpcService svc service_methods rpc_mappings srv0 = (ok, srv)"
    using main by (auto simp: rpc_server_main_def split: option.splits prod.splits if_splits)
  then have mm: "map_of mm ''/v1/queue/stop'' = Some ?md"
    using rpc_routes work by (auto simp: rpc_BuildStreamBusinessWork_def)
  obtain u where u: "ParseUrl (env_url henv) (env_unescape henv) ''/v1/queue/stop'' URL_ctor = Some (0, u)" "path u = ''/v1/queue/stop''"
    by (simp add: ParseUrl_def url has_and_set_def url_port_def substr_def URL_ctor_def Let_def)
  have r: "enc ''world'' = rp_CallMethod ?env (service ?md) (md_method ?md) (enc ''hello'')" by (simp add: example_service_def Foo_def)
  show "\<exists>q st1 st2. TinycoRpc_Serve ?env mm w (rpc_work_of fd (q, HttpResponse_ctor, e, s)) = Some (0, st1) \<and>
      rw_sent st1 = t' \<and> hreq st2 = rw_hreq st1 \<and> hrsp st2 = rw_hrsp st1 \<and>
      HttpSrvWork_Run henv fd (map (\<lambda>c. [Ok c]) xs) HttpRequest_ctor HttpResponse_ctor e s =
        (st2, if keepalive (hreq st2) then Running else Returned 0)"
    unfolding rsp(1)
    by (rule server_answers [OF _ _ u(1) _ _ _ _ r req(4) [unfolded req(1)] req(3) [unfolded req(1)] rsp(2,3) [unfolded rsp(1)] serve])
      (simp_all add: mm u(2) example_service_def msgs)
  let ?c = "\<lambda>c. c\<lparr>hreq_header := SetUri ''/v1/queue/stop'' (hreq_header c)\<rparr>"
  let ?c1 = "?c (set_recv_timoeut 2000 (set_connect_timoeut 1000 (Controller_ctor tc tr)))"
  have c: "hreq_header ?c1 = SetUri ''/v1/queue/stop'' (SetMethod HTTP_REQUEST_METHOD_POST HttpRequest_ctor)" "c_error_code ?c1 = 0"
    by (simp_all add: Controller_ctor_def set_recv_timoeut_def set_connect_timoeut_def)
  obtain st' where "Channel_CallMethod env dec \<lparr>server = \<lparr>ep_ip = loopback, ep_port = 8080\<rparr>\<rparr> (enc ''hello'') ?c1 st =
      Some (Some (?c1, Some (enc ''world''), st'))" "os_sent st' = os_sent st @ t"
    using client_returns [where parse = dec, OF c(1) conn req(2) [unfolded req(1)] rsp(4,5) [unfolded rsp(1)] msgs(2), of st] req(1) by blast
  moreover have "int_to_string 0 = ''0''" by code_simp
  ultimately show "\<exists>st'. rpc_client_Run env enc dec debug tc tr st =
      Some (Some (0, ''CallMethod ret=0|response='' @ c_str (debug (Some (enc ''world''))), st')) \<and> os_sent st' = os_sent st @ t"
    using c(2) by (simp add: rpc_client_Run_def Channel_InitServer_def Let_def)
qed

text \<open>The client example returns 0 on every path, and what it prints of a failed plain exchange has no message.\<close>

lemma http_client_returns_0: "http_client_Run sys env env' env'' st = Some (Some (r, out, st')) \<Longrightarrow> r = 0"
  by (auto simp: http_client_Run_def http_client_https_def http_client_op_def Let_def split: option.splits prod.splits if_splits)

lemma http_client_prints_no_reason:
  assumes "Resolve sys ''baidu.com'' (os_dns st) = Some (Some ip, d)"
    and "HttpClient_Init (oe_conn env) ip 80 (HttpClient_ctor (dns_errno d) (dns_frame d)) = Some (ret, hc)" and "ret < 0"
  shows "\<exists>st'. http_client_Run sys env env' env'' st = Some (Some (0, [''test http...'', ''ret = '' @ int_to_string ret @ ''|''], st'))"
  using assms HttpClient_no_message(1) [OF assms(2)] HttpClient_no_message(3) by (simp add: http_client_Run_def c_str_def)

section \<open>Concrete runs\<close>

text \<open>A parser of \<open>http://\<close> URLs with a host of one letter.\<close>

definition demo_http_url :: "string \<Rightarrow> parsed_url option" where
  "demo_http_url s = Some [UF_SCHEMA \<mapsto> (0, 4), UF_HOST \<mapsto> (7, 1), UF_PATH \<mapsto> (8, length s - 8)]"

lemma call_response_text:
  "c \<noteq> [] \<Longrightarrow> rs_SerializeToString (call_response c) =
    ''HTTP/1.1 200 OK'' @ crlf @ ''Content-Length: '' @ nat_to_string (length c) @ crlf @ crlf @ c"
proof -
  have "nat_to_string 200 = ''200''" by code_simp
  then show ?thesis using digits_nonempty [of "length c"]
    by (simp add: rs_SerializeToString_def call_response_fields int_to_string_def reason_def)
qed


theorem rpc_example_witness:
  "\<exists>env st'. rpc_client_Run env id (\<lambda>_. True) (\<lambda>r. the r) 0 0 demo_op_state = Some (Some (0, ''CallMethod ret=0|response=world'', st'))"
proof -
  define t where "t = rq_SerializeToString0 (call_request ''/v1/queue/stop'' (id ''hello''))"
  define t' where "t' = rs_SerializeToString (call_response (id ''world''))"
  obtain s1 srv0 where i: "Initialize (demo_boot Map.empty) Frame_static ServerImpl_ctor = Some (0, s1, srv0)" using demo_boots by blast
  obtain ok srv where a: "AddRpcService 4 service_methods rpc_mappings srv0 = (ok, srv)" by (meson surj_pair)
  obtain s2 role where r: "Server_Run s1 srv = (s2, role)" by (meson surj_pair)
  have main: "rpc_server_main (demo_boot Map.empty) 4 Frame_static = Some (Inr (s2, srv, role))"
    using i a r rpc_routes [OF a, of "''/v1/queue/stop''"] by (simp add: rpc_server_main_def)
  have work: "rpc_BuildStreamBusinessWork srv 8080 = Some (method_map srv)" by (simp add: rpc_BuildStreamBusinessWork_def)
  have "nat_to_string (length ''world'') = ''5''" by code_simp
  then have n: "t \<noteq> []" "length t \<le> 512" "t' \<noteq> []" "length t' \<le> 512"
    by (simp_all add: t_def t'_def call_response_text crlf_def rq_SerializeToString0_def rq_SerializeToString_def call_request_fields
        HTTP_REQUEST_METHOD_POST_def HTTP_REQUEST_METHOD_GET_def Let_def)
  let ?h = "TinycoRpc_Serve (example_service id (\<lambda>_. True)) (method_map srv) [Ok (length t')]"
  note srvs = one_piece_server [OF n(1,2), of ?h] and cl = one_piece_client [OF n]
  have url: "env_url (one_piece ?h t) ''/v1/queue/stop'' = Some [UF_PATH \<mapsto> (0, 14)]" by (simp add: one_piece_def demo_path_url_def numeral_eq_Suc)
  have conn: "connects (demo_cenv t t') \<lparr>server = \<lparr>ep_ip = loopback, ep_port = 8080\<rparr>\<rparr>"
    by (simp add: connects_def demo_cenv_def demo_op_env_def loopback_def)
  have "c_str (the (Some (id ''world''))) = ''world''" by (simp add: c_str_def)
  with rpc_example [where dec = "\<lambda>_. True" and enc = id and debug = "\<lambda>r. the r" and st = demo_op_state and tc = 0 and tr = 0 and e = EINTR and s = Frame_static,
      OF main work TrueI TrueI url t_def cl(1) srvs(1,2) t'_def cl(4,5,2,3) conn srvs(3)] show ?thesis by auto
qed

end
