(* ===== verification/Proc_Title.thy ===== *)
theory Proc_Title
  imports Tinyco_Prelude
begin

text \<open>
  util/setproctitle.c for Linux with glibc: the title of a process is written over the strings of its
  arguments and its environment, after these have been copied.  Memory is a function from addresses to
  bytes; \<open>malloc\<close> is a parameter, and that it returns blocks nobody else uses is a hypothesis where it
  is needed.
\<close>

section \<open>Memory\<close>

text \<open>What the C library answers: the block of the \<open>n\<close>-th allocation or 0, whether \<open>setenv\<close> finds memory,
  and the highest address strings are read up to.\<close>

record spt_sys =
  sp_malloc :: "nat \<Rightarrow> nat \<Rightarrow> ptr"
  sp_setenv_ok :: "string \<Rightarrow> bool"
  sp_top :: nat

definition EINVAL :: int where "EINVAL = 22"
definition ENOMEM :: int where "ENOMEM = 12"

definition mem_write :: "nat \<Rightarrow> char list \<Rightarrow> (nat \<Rightarrow> char) \<Rightarrow> nat \<Rightarrow> char" where
  "mem_write a xs m = (\<lambda>x. if a \<le> x \<and> x < a + length xs then xs ! (x - a) else m x)"

definition strlen :: "spt_sys \<Rightarrow> (nat \<Rightarrow> char) \<Rightarrow> nat \<Rightarrow> nat" where
  "strlen sys m a = length (takeWhile (\<lambda>x. m x \<noteq> CHR 0x00) [a..<sp_top sys])"

definition c_string :: "spt_sys \<Rightarrow> (nat \<Rightarrow> char) \<Rightarrow> nat \<Rightarrow> string" where
  "c_string sys m a = map m [a..<a + strlen sys m a]"

section \<open>State\<close>

text \<open>\<open>SPT\<close>, and the process: memory, the two vectors, and the names glibc keeps.\<close>

record spt =
  spt_arg0 :: ptr
  spt_base :: ptr
  spt_end :: ptr
  spt_nul :: ptr
  spt_reset :: bool
  spt_error :: int

definition SPT_static :: spt where
  "SPT_static = \<lparr>spt_arg0 = NULL, spt_base = NULL, spt_end = NULL, spt_nul = NULL, spt_reset = False, spt_error = 0\<rparr>"

text \<open>\<open>environ\<close> is the vector the process was started with, or the one \<open>setenv\<close> has built.\<close>

datatype environment = Original | Copied "(string \<times> string) list"

record proc =
  mem :: "nat \<Rightarrow> char"
  argv :: "ptr list"
  envp :: "ptr list"
  environ :: environment
  program_invocation_name :: ptr
  program_invocation_short_name :: ptr
  allocs :: nat
  SPT :: spt

definition argv_at :: "ptr list \<Rightarrow> nat \<Rightarrow> ptr" where
  "argv_at av i = (if i < length av then av ! i else NULL)"

text \<open>The number of rounds of the loops over \<open>argv\<close>, which go on behind \<open>argc\<close> as long as there are entries.\<close>

definition argv_rounds :: "nat \<Rightarrow> ptr list \<Rightarrow> nat" where
  "argv_rounds argc av = argc + length (takeWhile (\<lambda>a. a \<noteq> NULL) (drop argc av))"

definition strdup :: "spt_sys \<Rightarrow> ptr \<Rightarrow> proc \<Rightarrow> ptr \<times> proc" where
  "strdup sys a p =
     (let s = c_string sys (mem p) a; b = sp_malloc sys (allocs p) (length s + 1); p1 = p\<lparr>allocs := Suc (allocs p)\<rparr>
      in if b = NULL then (NULL, p1) else (b, p1\<lparr>mem := mem_write b (s @ [CHR 0x00]) (mem p)\<rparr>))"

section \<open>Operations\<close>

definition spt_min :: "nat \<Rightarrow> nat \<Rightarrow> nat" where
  "spt_min a b = (if a < b then a else b)"

definition spt_clearenv :: "proc \<Rightarrow> int \<times> proc" where
  "spt_clearenv p = (0, p\<lparr>environ := Copied []\<rparr>)"

text \<open>\<open>setenv(name, value, 1)\<close>: the error number, 0 for success.\<close>

definition setenv :: "spt_sys \<Rightarrow> string \<Rightarrow> string \<Rightarrow> proc \<Rightarrow> int \<times> proc" where
  "setenv sys name v p =
     (if name = [] \<or> CHR ''='' \<in> set name then (EINVAL, p)
      else if \<not> sp_setenv_ok sys name then (ENOMEM, p)
      else (0, p\<lparr>environ := Copied (AList.update name v (case environ p of Copied e \<Rightarrow> e | Original \<Rightarrow> []))\<rparr>))"

fun copyenv_loop :: "spt_sys \<Rightarrow> ptr list \<Rightarrow> proc \<Rightarrow> int \<times> proc" where
  "copyenv_loop sys [] p = (0, p)"
| "copyenv_loop sys (a # as) p =
     (let s = c_string sys (mem p) a in
      if CHR ''='' \<notin> set s then copyenv_loop sys as p
      else case setenv sys (takeWhile (\<lambda>c. c \<noteq> CHR ''='') s) (tl (dropWhile (\<lambda>c. c \<noteq> CHR ''='') s)) p of
        (error, p1) \<Rightarrow> if error \<noteq> 0 then (error, p1\<lparr>environ := Original\<rparr>) else copyenv_loop sys as p1)"

definition spt_copyenv :: "spt_sys \<Rightarrow> proc \<Rightarrow> int \<times> proc" where
  "spt_copyenv sys p =
     (if environ p \<noteq> Original then (0, p)
      else case spt_clearenv p of
        (error, p1) \<Rightarrow> if error \<noteq> 0 then (error, p1\<lparr>environ := Original\<rparr>)
                       else copyenv_loop sys (takeWhile (\<lambda>a. a \<noteq> NULL) (envp p)) p1)"

fun copyargs_loop :: "spt_sys \<Rightarrow> nat list \<Rightarrow> proc \<Rightarrow> int \<times> proc" where
  "copyargs_loop sys [] p = (0, p)"
| "copyargs_loop sys (i # is) p =
     (if argv_at (argv p) i = NULL then copyargs_loop sys is p
      else case strdup sys (argv_at (argv p) i) p of
        (tmp, p1) \<Rightarrow> if tmp = NULL then (ENOMEM, p1) else copyargs_loop sys is (p1\<lparr>argv := (argv p1)[i := tmp]\<rparr>))"

definition spt_copyargs :: "spt_sys \<Rightarrow> nat \<Rightarrow> proc \<Rightarrow> int \<times> proc" where
  "spt_copyargs sys argc p = copyargs_loop sys [1..<argv_rounds argc (argv p)] p"

text \<open>The two loops that look for the end of the strings.\<close>

definition grow_end :: "spt_sys \<Rightarrow> (nat \<Rightarrow> char) \<Rightarrow> ptr \<Rightarrow> nat \<Rightarrow> nat" where
  "grow_end sys m a e = (if a = NULL \<or> a < e then e else a + strlen sys m a + 1)"

definition args_end :: "spt_sys \<Rightarrow> nat \<Rightarrow> proc \<Rightarrow> nat \<Rightarrow> nat" where
  "args_end sys argc p e = fold (grow_end sys (mem p)) (map (argv_at (argv p)) [0..<argv_rounds argc (argv p)]) e"

definition envs_end :: "spt_sys \<Rightarrow> proc \<Rightarrow> nat \<Rightarrow> nat" where
  "envs_end sys p e = fold (grow_end sys (mem p)) (takeWhile (\<lambda>a. a \<noteq> NULL) (envp p)) e"

definition spt_fail :: "int \<Rightarrow> proc \<Rightarrow> proc" where
  "spt_fail error p = p\<lparr>SPT := (SPT p)\<lparr>spt_error := error\<rparr>\<rparr>"

definition spt_init :: "spt_sys \<Rightarrow> nat \<Rightarrow> proc \<Rightarrow> proc" where
  "spt_init sys argc p =
     (let base = argv_at (argv p) 0 in
      if base = NULL then p
      else
        let nul = base + strlen sys (mem p) base;
            e = envs_end sys p (args_end sys argc p (nul + 1));
            (arg0, p1) = strdup sys base p;
            p1 = p1\<lparr>SPT := (SPT p1)\<lparr>spt_arg0 := arg0\<rparr>\<rparr>
        in if arg0 = NULL then spt_fail ENOMEM p1
           else case strdup sys (program_invocation_name p1) p1 of
             (tmp, p2) \<Rightarrow>
               if tmp = NULL then spt_fail ENOMEM p2
               else case strdup sys (program_invocation_short_name p2) (p2\<lparr>program_invocation_name := tmp\<rparr>) of
                 (tmp, p3) \<Rightarrow>
                   if tmp = NULL then spt_fail ENOMEM p3
                   else case spt_copyenv sys (p3\<lparr>program_invocation_short_name := tmp\<rparr>) of
                     (error, p4) \<Rightarrow>
                       if error \<noteq> 0 then spt_fail error p4
                       else case spt_copyargs sys argc p4 of
                         (error, p5) \<Rightarrow>
                           if error \<noteq> 0 then spt_fail error p5
                           else p5\<lparr>SPT := (SPT p5)\<lparr>spt_nul := nul, spt_base := base, spt_end := e\<rparr>\<rparr>)"

definition SPT_MAXTITLE :: nat where "SPT_MAXTITLE = 255"

text \<open>
  The argument of \<open>setproctitle\<close>: what the format and its arguments give, \<open>None\<close> when \<open>vsnprintf\<close> fails,
  or a null pointer.  \<open>e\<close> is \<open>errno\<close>.
\<close>

datatype title = Format "string option" | No_Format

definition title_text :: "spt_sys \<Rightarrow> title \<Rightarrow> proc \<Rightarrow> string option" where
  "title_text sys t p = (case t of Format s \<Rightarrow> s | No_Format \<Rightarrow> Some (c_string sys (mem p) (spt_arg0 (SPT p))))"

text \<open>A decrement of a \<open>size_t\<close>.\<close>

definition size_pred :: "nat \<Rightarrow> nat" where
  "size_pred n = (if n = 0 then 2 ^ 64 - 1 else n - 1)"

text \<open>The part that writes: clear the space, copy the title, and mark the old end of the first argument.\<close>

definition write_title :: "spt \<Rightarrow> string \<Rightarrow> (nat \<Rightarrow> char) \<Rightarrow> nat \<Rightarrow> char" where
  "write_title q s m =
     (let base = spt_base q; space = spt_end q - base;
          buf = take SPT_MAXTITLE s;
          cleared = (if \<not> spt_reset q then space else spt_min (SPT_MAXTITLE + 1) space);
          len = spt_min (length s) (size_pred (spt_min (SPT_MAXTITLE + 1) space));
          m1 = mem_write base (replicate cleared (CHR 0x00)) m;
          m2 = mem_write base (take len buf) m1;
          nul = base + len
      in if nul < spt_nul q then m2(spt_nul q := CHR ''.'')
         else if nul = spt_nul q \<and> nul + 1 < spt_end q then m2(spt_nul q := CHR '' '', nul + 1 := CHR 0x00)
         else m2)"

definition setproctitle :: "spt_sys \<Rightarrow> title \<Rightarrow> int \<Rightarrow> proc \<Rightarrow> proc" where
  "setproctitle sys t e p =
     (if spt_base (SPT p) = NULL then p
      else case title_text sys t p of
        None \<Rightarrow> spt_fail e p
      | Some s \<Rightarrow>
          if s = [] then spt_fail e p
          else p\<lparr>mem := write_title (SPT p) s (mem p), SPT := (SPT p)\<lparr>spt_reset := True\<rparr>\<rparr>)"

text \<open>\<open>ServerImpl::SetProcTitle\<close>.\<close>

definition SetProcTitle :: "spt_sys \<Rightarrow> string \<Rightarrow> int \<Rightarrow> proc \<Rightarrow> proc" where
  "SetProcTitle sys s e p = setproctitle sys (Format (Some s)) e p"

section \<open>Strings in memory\<close>

text \<open>The string \<open>s\<close> with its null character stands at \<open>a\<close>, below the highest address.\<close>

definition str_at :: "spt_sys \<Rightarrow> (nat \<Rightarrow> char) \<Rightarrow> nat \<Rightarrow> string \<Rightarrow> bool" where
  "str_at sys m a s \<longleftrightarrow> (\<forall>k < length s. m (a + k) = s ! k) \<and> m (a + length s) = CHR 0x00 \<and> CHR 0x00 \<notin> set s \<and>
     a + length s < sp_top sys"


lemma strlen_str_at:
  assumes "str_at sys m a s"
  shows "strlen sys m a = length s"
proof -
  have below: "a + length s < sp_top sys" using assms by (simp add: str_at_def)
  have "[a..<sp_top sys] = [a..<a + length s] @ [a + length s..<sp_top sys]"
    using upt_add_eq_append [of a "a + length s" "sp_top sys - (a + length s)"] below by simp
  then have split: "[a..<sp_top sys] = [a..<a + length s] @ (a + length s) # [Suc (a + length s)..<sp_top sys]"
    by (simp only: upt_conv_Cons [OF below])
  have "m x \<noteq> CHR 0x00" if "x \<in> set [a..<a + length s]" for x
  proof -
    have k: "x - a < length s" "a + (x - a) = x" using that by auto
    have "m x = s ! (x - a)" using assms [unfolded str_at_def, THEN conjunct1, rule_format, OF k(1)] k(2) by simp
    moreover have "s ! (x - a) \<in> set s" using k(1) by simp
    ultimately show ?thesis using assms unfolding str_at_def by metis
  qed
  then have "takeWhile (\<lambda>x. m x \<noteq> CHR 0x00) [a..<sp_top sys] = [a..<a + length s]"
    unfolding split using assms by (simp add: takeWhile_append str_at_def)
  then show ?thesis by (simp add: strlen_def)
qed

lemma c_string_str_at: "str_at sys m a s \<Longrightarrow> c_string sys m a = s"
  by (rule nth_equalityI) (simp_all add: c_string_def strlen_str_at str_at_def)

lemma str_at_cong:
  "str_at sys m a s \<Longrightarrow> (\<And>x. a \<le> x \<Longrightarrow> x \<le> a + length s \<Longrightarrow> m1 x = m x) \<Longrightarrow> str_at sys m1 a s"
  by (simp add: str_at_def)

lemma mem_write_in: "k < length xs \<Longrightarrow> mem_write a xs m (a + k) = xs ! k"
  by (simp add: mem_write_def)

lemma mem_write_out: "x < a \<or> a + length xs \<le> x \<Longrightarrow> mem_write a xs m x = m x"
  by (auto simp: mem_write_def)

section \<open>The title\<close>

text \<open>Once there is a base the end of the first argument lies in the space of the title.\<close>

definition spt_ok :: "proc \<Rightarrow> bool" where
  "spt_ok p \<longleftrightarrow> spt_base (SPT p) \<noteq> NULL \<longrightarrow> spt_base (SPT p) \<le> spt_nul (SPT p) \<and> spt_nul (SPT p) < spt_end (SPT p)"

lemma spt_len:
  "0 < space \<Longrightarrow> spt_min n (size_pred (spt_min (SPT_MAXTITLE + 1) space)) = min n (min SPT_MAXTITLE (space - 1))"
  by (auto simp: spt_min_def size_pred_def)

lemma setproctitle_SPT:
  "spt_base (SPT (setproctitle sys t e p)) = spt_base (SPT p)" "spt_end (SPT (setproctitle sys t e p)) = spt_end (SPT p)"
  "spt_nul (SPT (setproctitle sys t e p)) = spt_nul (SPT p)" "argv (setproctitle sys t e p) = argv p"
  "environ (setproctitle sys t e p) = environ p"
  by (simp_all add: setproctitle_def spt_fail_def split: option.splits)

lemma write_title_eq:
  assumes "spt_base q \<le> spt_nul q" and "spt_nul q < spt_end q" and "len = min (length s) (min SPT_MAXTITLE (spt_end q - spt_base q - 1))"
    and "cleared = (if \<not> spt_reset q then spt_end q - spt_base q else min (SPT_MAXTITLE + 1) (spt_end q - spt_base q))"
  shows "write_title q s m =
    (let m2 = mem_write (spt_base q) (take len s) (mem_write (spt_base q) (replicate cleared (CHR 0x00)) m); nul = spt_base q + len
     in if nul < spt_nul q then m2(spt_nul q := CHR ''.'')
        else if nul = spt_nul q \<and> nul + 1 < spt_end q then m2(spt_nul q := CHR '' '', nul + 1 := CHR 0x00)
        else m2)"
proof -
  have sp: "0 < spt_end q - spt_base q" using assms(1,2) by simp
  have "spt_min (SPT_MAXTITLE + 1) x = min (SPT_MAXTITLE + 1) x" for x by (simp add: spt_min_def)
  moreover have "take len (take SPT_MAXTITLE s) = take len s" using assms(3) by simp
  ultimately show ?thesis unfolding write_title_def spt_len [OF sp] assms(3,4) Let_def by simp
qed

lemma write_title_outside:
  assumes "spt_base q \<le> spt_nul q" and "spt_nul q < spt_end q" and "x \<notin> {spt_base q..<spt_end q}"
  shows "write_title q s m x = m x"
proof -
  define len where "len = min (length s) (min SPT_MAXTITLE (spt_end q - spt_base q - 1))"
  define cleared where
    "cleared = (if \<not> spt_reset q then spt_end q - spt_base q else min (SPT_MAXTITLE + 1) (spt_end q - spt_base q))"
  have "cleared \<le> spt_end q - spt_base q" "spt_base q + len < spt_end q" using assms by (simp_all add: cleared_def len_def)
  moreover from this have "mem_write (spt_base q) (replicate cleared (CHR 0x00)) m x = m x"
    "mem_write (spt_base q) (take len s) m1 x = m1 x" for m1
    using assms by (auto intro!: mem_write_out)
  ultimately show ?thesis unfolding write_title_eq [OF assms(1,2) len_def cleared_def] Let_def using assms by auto
qed

lemma setproctitle_outside:
  "spt_ok p \<Longrightarrow> x \<notin> {spt_base (SPT p)..<spt_end (SPT p)} \<Longrightarrow> mem (setproctitle sys t e p) x = mem p x"
  by (auto simp: setproctitle_def spt_fail_def spt_ok_def write_title_outside split: option.splits)

text \<open>
  C14: no title writes outside the space it was given.  Whatever the title, every byte outside
  the space between \<open>SPT.base\<close> and \<open>SPT.end\<close> is as before.
\<close>

theorem setproctitle_in_bounds:
  assumes "spt_ok p" and "x \<notin> {spt_base (SPT p)..<spt_end (SPT p)}"
  shows "mem (setproctitle sys t e p) x = mem p x \<and> spt_ok (setproctitle sys t e p)"
  using setproctitle_outside [OF assms] assms(1) by (simp add: spt_ok_def setproctitle_SPT)

text \<open>
  The string a title of \<open>s\<close> leaves at the base: as much of \<open>s\<close> as fits, and a blank behind it when it
  is as long as the first argument was and there is room.
\<close>

definition shown :: "spt \<Rightarrow> string \<Rightarrow> string" where
  "shown q s =
     (let len = min (length s) (min SPT_MAXTITLE (spt_end q - spt_base q - 1)) in
      take len s @ (if spt_base q + len = spt_nul q \<and> spt_base q + len + 1 < spt_end q then '' '' else []))"

lemma write_title_shows:
  assumes q: "spt_base q \<le> spt_nul q" "spt_nul q < spt_end q" "spt_end q \<le> sp_top sys" and s: "CHR 0x00 \<notin> set s"
  shows "str_at sys (write_title q s m) (spt_base q) (shown q s)"
proof -
  define len where "len = min (length s) (min SPT_MAXTITLE (spt_end q - spt_base q - 1))"
  define cleared where
    "cleared = (if \<not> spt_reset q then spt_end q - spt_base q else min (SPT_MAXTITLE + 1) (spt_end q - spt_base q))"
  define m2 where "m2 = mem_write (spt_base q) (take len s) (mem_write (spt_base q) (replicate cleared (CHR 0x00)) m)"
  note w = write_title_eq [OF q(1,2) len_def cleared_def, of m, folded m2_def, unfolded Let_def]
  have len: "spt_base q + len < spt_end q" "len < cleared" "length (take len s) = len" "len \<le> length s"
    using q by (auto simp: len_def cleared_def)
  have at: "m2 (spt_base q + k) = s ! k" if "k < len" for k
    using that len(3) by (simp add: m2_def mem_write_in)
  have nul: "m2 (spt_base q + len) = CHR 0x00"
  proof -
    have "m2 (spt_base q + len) = mem_write (spt_base q) (replicate cleared (CHR 0x00)) m (spt_base q + len)"
      unfolding m2_def by (rule mem_write_out) (simp add: len(3))
    then show ?thesis using len(2) by (simp add: mem_write_in)
  qed
  have zero: "CHR 0x00 \<notin> set (take len s)" using s by (meson in_set_takeD)
  show ?thesis
  proof (cases "spt_base q + len = spt_nul q \<and> spt_base q + len + 1 < spt_end q")
    case True
    then have "write_title q s m = m2(spt_base q + len := CHR '' '', spt_base q + len + 1 := CHR 0x00)" unfolding w by simp
    moreover have "shown q s = take len s @ '' ''" using True unfolding shown_def len_def [symmetric] Let_def by simp
    ultimately show ?thesis using at len zero True q(3)
      by (simp add: str_at_def nth_append less_Suc_eq)
  next
    case False
    then have s1: "shown q s = take len s" unfolding shown_def len_def [symmetric] Let_def by simp
    have "write_title q s m x = m2 x" if "x \<le> spt_base q + len" for x
      using that False unfolding w by auto
    then show ?thesis using at nul len zero q(3) by (simp add: s1 str_at_def)
  qed
qed

text \<open>
  C26: a title is shown.  After \<open>setproctitle\<close> with a text that is neither empty nor contains a null
  character, the string at \<open>SPT.base\<close> is the text, cut to 255 characters and to the space there is, with
  one blank behind it when it ends exactly where the first argument ended.
\<close>

theorem setproctitle_shows:
  assumes "spt_ok p" and "spt_base (SPT p) \<noteq> NULL" and "spt_end (SPT p) \<le> sp_top sys"
    and "s \<noteq> []" and "CHR 0x00 \<notin> set s"
  shows "c_string sys (mem (SetProcTitle sys s e p)) (spt_base (SPT p)) = shown (SPT p) s"
  using assms
  by (auto simp: SetProcTitle_def setproctitle_def title_text_def spt_ok_def intro!: c_string_str_at write_title_shows)

section \<open>What the copies keep\<close>

text \<open>
  What \<open>malloc\<close> promises: blocks below the highest address that overlap neither the addresses \<open>live\<close>
  nor each other.
\<close>

definition good_malloc :: "spt_sys \<Rightarrow> nat set \<Rightarrow> bool" where
  "good_malloc sys live \<longleftrightarrow>
     (\<forall>n k. sp_malloc sys n k \<noteq> NULL \<longrightarrow> {sp_malloc sys n k..<sp_malloc sys n k + k} \<inter> live = {} \<and> sp_malloc sys n k + k \<le> sp_top sys) \<and>
     (\<forall>n n' k k'. n \<noteq> n' \<longrightarrow> sp_malloc sys n k \<noteq> NULL \<longrightarrow> sp_malloc sys n' k' \<noteq> NULL \<longrightarrow>
       {sp_malloc sys n k..<sp_malloc sys n k + k} \<inter> {sp_malloc sys n' k'..<sp_malloc sys n' k' + k'} = {})"

text \<open>A string in a block of one of the first \<open>n\<close> allocations.\<close>

definition copied_at :: "spt_sys \<Rightarrow> nat \<Rightarrow> (nat \<Rightarrow> char) \<Rightarrow> ptr \<Rightarrow> string \<Rightarrow> bool" where
  "copied_at sys n m b s \<longleftrightarrow> b \<noteq> NULL \<and> (\<exists>j < n. sp_malloc sys j (length s + 1) = b) \<and> str_at sys m b s"

lemma strdup_keeps:
  assumes good: "good_malloc sys live" and d: "strdup sys a p = (b, p1)"
  shows "allocs p1 = Suc (allocs p)" "argv p1 = argv p" "envp p1 = envp p" "environ p1 = environ p" "SPT p1 = SPT p"
    "\<forall>x \<in> live. mem p1 x = mem p x" "copied_at sys (allocs p) (mem p) c t \<Longrightarrow> copied_at sys (allocs p1) (mem p1) c t"
proof -
  let ?s = "c_string sys (mem p) a"
  from d show fields: "allocs p1 = Suc (allocs p)" "argv p1 = argv p" "envp p1 = envp p" "environ p1 = environ p" "SPT p1 = SPT p"
    by (auto simp: strdup_def Let_def split: if_splits)
  have out: "mem p1 x = mem p x" if "b = NULL \<or> x \<notin> {b..<b + (length ?s + 1)}" for x
    using d that by (auto simp: strdup_def Let_def mem_write_out split: if_splits)
  have b: "b \<noteq> NULL \<Longrightarrow> sp_malloc sys (allocs p) (length ?s + 1) = b"
    using d by (auto simp: strdup_def Let_def split: if_splits)
  show "\<forall>x \<in> live. mem p1 x = mem p x"
    using good b out unfolding good_malloc_def by (metis disjoint_iff)
  assume c: "copied_at sys (allocs p) (mem p) c t"
  then obtain j where j: "j < allocs p" "sp_malloc sys j (length t + 1) = c" "c \<noteq> NULL" "str_at sys (mem p) c t"
    by (auto simp: copied_at_def)
  have "{c..<c + (length t + 1)} \<inter> {b..<b + (length ?s + 1)} = {}" if "b \<noteq> NULL"
    using good b [OF that] that j unfolding good_malloc_def by (metis less_irrefl)
  then have "mem p1 x = mem p x" if "c \<le> x" "x \<le> c + length t" for x
    using that by (intro out) (auto simp: disjoint_iff)
  then have "str_at sys (mem p1) c t" using j(4) by (rule_tac str_at_cong)
  with j fields(1) show "copied_at sys (allocs p1) (mem p1) c t" by (auto simp: copied_at_def intro: less_SucI)
qed

lemma strdup_copies:
  assumes "good_malloc sys live" and "strdup sys a p = (b, p1)" and "b \<noteq> NULL" and "str_at sys (mem p) a s"
  shows "copied_at sys (allocs p1) (mem p1) b s"
proof -
  have c: "c_string sys (mem p) a = s" using assms(4) by (rule c_string_str_at)
  have b: "sp_malloc sys (allocs p) (length s + 1) = b" "mem p1 = mem_write b (s @ [CHR 0x00]) (mem p)" "allocs p1 = Suc (allocs p)"
    using assms(2,3) c by (auto simp: strdup_def Let_def split: if_splits)
  have "b + (length s + 1) \<le> sp_top sys" using assms(1,3) b(1) unfolding good_malloc_def by metis
  moreover have "mem p1 (b + k) = (s @ [CHR 0x00]) ! k" if "k \<le> length s" for k
    using that by (simp add: b(2) mem_write_in)
  ultimately have "str_at sys (mem p1) b s" using assms(4) by (auto simp: str_at_def nth_append)
  with assms(3) b show ?thesis unfolding copied_at_def by auto
qed

text \<open>Every argument is a string in live memory.\<close>

definition args_live :: "spt_sys \<Rightarrow> nat set \<Rightarrow> proc \<Rightarrow> nat list \<Rightarrow> (nat \<Rightarrow> string) \<Rightarrow> bool" where
  "args_live sys live p is f \<longleftrightarrow> (\<forall>i \<in> set is. argv_at (argv p) i \<noteq> NULL \<longrightarrow>
     str_at sys (mem p) (argv_at (argv p) i) (f i) \<and> {argv_at (argv p) i..argv_at (argv p) i + length (f i)} \<subseteq> live)"

lemma args_live_cong:
  assumes "args_live sys live p is f" and "\<forall>x \<in> live. mem p1 x = mem p x" and "set js \<subseteq> set is"
    and "\<forall>i \<in> set js. argv_at (argv p1) i = argv_at (argv p) i"
  shows "args_live sys live p1 js f"
  unfolding args_live_def
proof (intro ballI impI)
  fix i assume i: "i \<in> set js" "argv_at (argv p1) i \<noteq> NULL"
  let ?a = "argv_at (argv p) i"
  have a: "argv_at (argv p1) i = ?a" "str_at sys (mem p) ?a (f i)" "{?a..?a + length (f i)} \<subseteq> live"
    using assms(1,3,4) i unfolding args_live_def by auto
  from a(2) have "str_at sys (mem p1) ?a (f i)" using assms(2) a(3) by (auto intro!: str_at_cong [OF a(2)])
  with a show "str_at sys (mem p1) (argv_at (argv p1) i) (f i) \<and> {argv_at (argv p1) i..argv_at (argv p1) i + length (f i)} \<subseteq> live"
    by simp
qed

lemma argv_at_update: "argv_at (av[i := a]) j = (if j = i \<and> i < length av then a else argv_at av j)"
  by (auto simp: argv_at_def)

lemma copyargs_loop_copies:
  assumes "good_malloc sys live" and "copyargs_loop sys is p = (0, p1)" and "distinct is" and "args_live sys live p is f"
  shows "(\<forall>i \<in> set is. argv_at (argv p) i \<noteq> NULL \<longrightarrow> copied_at sys (allocs p1) (mem p1) (argv_at (argv p1) i) (f i)) \<and>
    (\<forall>i. i \<notin> set is \<longrightarrow> argv_at (argv p1) i = argv_at (argv p) i) \<and> environ p1 = environ p \<and> SPT p1 = SPT p \<and>
    (\<forall>c t. copied_at sys (allocs p) (mem p) c t \<longrightarrow> copied_at sys (allocs p1) (mem p1) c t)"
  using assms(2-4)
proof (induction "is" arbitrary: p)
  case Nil
  then show ?case by simp
next
  case (Cons i "is")
  show ?case
  proof (cases "argv_at (argv p) i = NULL")
    case True
    have "args_live sys live p is f" using Cons.prems(3) by (simp add: args_live_def)
    with Cons True show ?thesis by auto
  next
    case False
    obtain b p2 where d: "strdup sys (argv_at (argv p) i) p = (b, p2)" by fastforce
    define p3 where "p3 = p2\<lparr>argv := (argv p2)[i := b]\<rparr>"
    have b: "b \<noteq> NULL" "copyargs_loop sys is p3 = (0, p1)"
      using Cons.prems(1) False d by (auto simp: p3_def ENOMEM_def split: if_splits)
    note k = strdup_keeps [OF assms(1) d]
    have i: "i < length (argv p)" using False by (simp add: argv_at_def split: if_splits)
    have at: "argv_at (argv p3) j = (if j = i then b else argv_at (argv p) j)" for j
      using i by (simp add: p3_def k(2) argv_at_update)
    have "args_live sys live p3 is f"
      by (rule args_live_cong [OF Cons.prems(3)]) (use k(6) Cons.prems(2) at in \<open>auto simp: p3_def\<close>)
    with Cons.IH [OF b(2)] Cons.prems(2) have ih:
      "\<forall>j \<in> set is. argv_at (argv p3) j \<noteq> NULL \<longrightarrow> copied_at sys (allocs p1) (mem p1) (argv_at (argv p1) j) (f j)"
      "\<forall>j. j \<notin> set is \<longrightarrow> argv_at (argv p1) j = argv_at (argv p3) j" "environ p1 = environ p3" "SPT p1 = SPT p3"
      "\<forall>c t. copied_at sys (allocs p3) (mem p3) c t \<longrightarrow> copied_at sys (allocs p1) (mem p1) c t" by auto
    have "str_at sys (mem p) (argv_at (argv p) i) (f i)" using Cons.prems(3) False by (simp add: args_live_def)
    then have "copied_at sys (allocs p3) (mem p3) b (f i)"
      using strdup_copies [OF assms(1) d b(1)] by (simp add: p3_def)
    moreover have "argv_at (argv p1) i = b" using ih(2) Cons.prems(2) at by simp
    ultimately have new: "copied_at sys (allocs p1) (mem p1) (argv_at (argv p1) i) (f i)" using ih(5) by blast
    have old: "\<forall>c t. copied_at sys (allocs p) (mem p) c t \<longrightarrow> copied_at sys (allocs p1) (mem p1) c t"
      using ih(5) k(7) by (simp add: p3_def)
    have rest: "copied_at sys (allocs p1) (mem p1) (argv_at (argv p1) j) (f j)" if "j \<in> set is" "argv_at (argv p) j \<noteq> NULL" for j
    proof -
      have "argv_at (argv p3) j = argv_at (argv p) j" using that(1) Cons.prems(2) by (auto simp: at)
      with ih(1) that show ?thesis by simp
    qed
    have same: "argv_at (argv p1) j = argv_at (argv p) j" if "j \<notin> set (i # is)" for j using that ih(2) by (simp add: at)
    show ?thesis using new old rest same ih(3,4) k(4,5) by (simp add: p3_def)
  qed
qed

text \<open>The environment as the entries of the vector define it; an entry without \<open>=\<close> is passed over.\<close>

definition env_entry :: "string \<Rightarrow> (string \<times> string) list \<Rightarrow> (string \<times> string) list" where
  "env_entry s e = (if CHR ''='' \<notin> set s then e
     else AList.update (takeWhile (\<lambda>c. c \<noteq> CHR ''='') s) (tl (dropWhile (\<lambda>c. c \<noteq> CHR ''='') s)) e)"

lemma copyenv_loop_copies:
  "copyenv_loop sys as p = (0, p1) \<Longrightarrow> environ p = Copied e \<Longrightarrow>
    p1 = p\<lparr>environ := Copied (fold env_entry (map (c_string sys (mem p)) as) e)\<rparr>"
proof (induction as arbitrary: p e)
  case Nil
  then show ?case by simp
next
  case (Cons a as)
  show ?case
  proof (cases "CHR ''='' \<in> set (c_string sys (mem p) a)")
    case False
    with Cons show ?thesis by (simp add: Let_def env_entry_def)
  next
    case True
    let ?e = "env_entry (c_string sys (mem p) a) e"
    have "copyenv_loop sys as (p\<lparr>environ := Copied ?e\<rparr>) = (0, p1)"
      using Cons.prems True by (auto simp: Let_def setenv_def env_entry_def EINVAL_def ENOMEM_def split: if_splits)
    from Cons.IH [OF this] show ?thesis by simp
  qed
qed

lemma spt_copyenv_copies:
  "spt_copyenv sys p = (0, p1) \<Longrightarrow> environ p = Original \<Longrightarrow>
    p1 = p\<lparr>environ := Copied (fold env_entry (map (c_string sys (mem p)) (takeWhile (\<lambda>a. a \<noteq> NULL) (envp p))) [])\<rparr>"
  using copyenv_loop_copies [of sys "takeWhile (\<lambda>a. a \<noteq> NULL) (envp p)" "p\<lparr>environ := Copied []\<rparr>" p1 "[]"]
  by (simp add: spt_copyenv_def spt_clearenv_def)

text \<open>The operations before the last assignment leave \<open>SPT.base\<close> alone.\<close>

lemma strdup_SPT: "strdup sys a p = (b, p1) \<Longrightarrow> SPT p1 = SPT p"
  by (auto simp: strdup_def Let_def split: if_splits)

lemma copyenv_loop_SPT: "copyenv_loop sys as p = (r, p1) \<Longrightarrow> SPT p1 = SPT p"
  by (induction sys as p rule: copyenv_loop.induct) (auto simp: Let_def setenv_def split: if_splits)

lemma spt_copyenv_SPT: "spt_copyenv sys p = (r, p1) \<Longrightarrow> SPT p1 = SPT p"
  by (auto simp: spt_copyenv_def spt_clearenv_def dest: copyenv_loop_SPT split: if_splits)

lemma copyargs_loop_SPT: "copyargs_loop sys is p = (r, p1) \<Longrightarrow> SPT p1 = SPT p"
proof (induction "is" arbitrary: p)
  case Nil
  then show ?case by simp
next
  case (Cons i "is")
  obtain b p2 where d: "strdup sys (argv_at (argv p) i) p = (b, p2)" by fastforce
  with Cons strdup_SPT [OF d] show ?case by (fastforce split: if_splits)
qed

lemma spt_init_success:
  assumes "spt_base (SPT p) = NULL" and "spt_base (SPT (spt_init sys argc p)) \<noteq> NULL"
  obtains arg0 p1 n1 p2 n2 p3 p4 p5 where
    "strdup sys (argv_at (argv p) 0) p = (arg0, p1)"
    "strdup sys (program_invocation_name p1) (p1\<lparr>SPT := (SPT p1)\<lparr>spt_arg0 := arg0\<rparr>\<rparr>) = (n1, p2)"
    "strdup sys (program_invocation_short_name p2) (p2\<lparr>program_invocation_name := n1\<rparr>) = (n2, p3)"
    "spt_copyenv sys (p3\<lparr>program_invocation_short_name := n2\<rparr>) = (0, p4)" "spt_copyargs sys argc p4 = (0, p5)"
    "spt_init sys argc p = p5\<lparr>SPT := (SPT p5)\<lparr>spt_nul := argv_at (argv p) 0 + strlen sys (mem p) (argv_at (argv p) 0),
       spt_base := argv_at (argv p) 0,
       spt_end := envs_end sys p (args_end sys argc p (argv_at (argv p) 0 + strlen sys (mem p) (argv_at (argv p) 0) + 1))\<rparr>\<rparr>"
    "argv_at (argv p) 0 \<noteq> NULL"
proof -
  obtain arg0 p1 where 1: "strdup sys (argv_at (argv p) 0) p = (arg0, p1)" by fastforce
  obtain n1 p2 where 2: "strdup sys (program_invocation_name p1) (p1\<lparr>SPT := (SPT p1)\<lparr>spt_arg0 := arg0\<rparr>\<rparr>) = (n1, p2)" by fastforce
  obtain n2 p3 where 3: "strdup sys (program_invocation_short_name p2) (p2\<lparr>program_invocation_name := n1\<rparr>) = (n2, p3)" by fastforce
  obtain r4 p4 where 4: "spt_copyenv sys (p3\<lparr>program_invocation_short_name := n2\<rparr>) = (r4, p4)" by fastforce
  obtain r5 p5 where 5: "spt_copyargs sys argc p4 = (r5, p5)" by fastforce
  have base: "spt_base (SPT p1) = NULL" "spt_base (SPT p2) = NULL" "spt_base (SPT p3) = NULL" "spt_base (SPT p4) = NULL"
      "spt_base (SPT p5) = NULL"
    using assms(1) strdup_SPT [OF 1] strdup_SPT [OF 2] strdup_SPT [OF 3] spt_copyenv_SPT [OF 4]
      copyargs_loop_SPT [OF 5 [unfolded spt_copyargs_def]] by simp_all
  define q where "q = p5\<lparr>SPT := (SPT p5)\<lparr>spt_nul := argv_at (argv p) 0 + strlen sys (mem p) (argv_at (argv p) 0),
       spt_base := argv_at (argv p) 0,
       spt_end := envs_end sys p (args_end sys argc p (argv_at (argv p) 0 + strlen sys (mem p) (argv_at (argv p) 0) + 1))\<rparr>\<rparr>"
  have eq: "spt_init sys argc p = (if argv_at (argv p) 0 = NULL then p
      else if arg0 = NULL then spt_fail ENOMEM (p1\<lparr>SPT := (SPT p1)\<lparr>spt_arg0 := arg0\<rparr>\<rparr>)
      else if n1 = NULL then spt_fail ENOMEM p2 else if n2 = NULL then spt_fail ENOMEM p3
      else if r4 \<noteq> 0 then spt_fail r4 p4 else if r5 \<noteq> 0 then spt_fail r5 p5 else q)"
    using 1 2 3 4 5 by (simp add: spt_init_def Let_def q_def)
  have "argv_at (argv p) 0 \<noteq> NULL" "r4 = 0" "r5 = 0" "spt_init sys argc p = q"
    using assms base by (auto simp: eq spt_fail_def split: if_splits)
  with 1 2 3 4 5 show thesis by (intro that) (simp_all add: q_def)
qed

lemma grow_end_ge: "e \<le> fold (grow_end sys m) as e"
proof (induction as arbitrary: e)
  case (Cons a as)
  have "e \<le> grow_end sys m a e" by (auto simp: grow_end_def)
  also have "\<dots> \<le> fold (grow_end sys m) as (grow_end sys m a e)" by (rule Cons.IH)
  finally show ?case by simp
qed simp

lemma spt_init_ok:
  assumes "spt_base (SPT p) = NULL"
  shows "spt_ok (spt_init sys argc p)"
proof (cases "spt_base (SPT (spt_init sys argc p)) = NULL")
  case True
  then show ?thesis by (simp add: spt_ok_def)
next
  case False
  let ?n = "argv_at (argv p) 0 + strlen sys (mem p) (argv_at (argv p) 0)"
  obtain p5 where "spt_init sys argc p = p5\<lparr>SPT := (SPT p5)\<lparr>spt_nul := ?n, spt_base := argv_at (argv p) 0,
      spt_end := envs_end sys p (args_end sys argc p (?n + 1))\<rparr>\<rparr>"
    by (rule spt_init_success [OF assms False]) blast
  moreover have "?n + 1 \<le> envs_end sys p (args_end sys argc p (?n + 1))"
    unfolding envs_end_def args_end_def by (meson grow_end_ge order_trans)
  ultimately show ?thesis by (simp add: spt_ok_def)
qed

text \<open>Strings of the environment in live memory.\<close>

definition envs_live :: "spt_sys \<Rightarrow> nat set \<Rightarrow> proc \<Rightarrow> bool" where
  "envs_live sys live p \<longleftrightarrow> (\<forall>a \<in> set (takeWhile (\<lambda>a. a \<noteq> NULL) (envp p)).
     str_at sys (mem p) a (c_string sys (mem p) a) \<and> {a..a + length (c_string sys (mem p) a)} \<subseteq> live)"

lemma envs_live_same:
  assumes "envs_live sys live p" and "\<forall>x \<in> live. m x = mem p x"
  shows "map (c_string sys m) (takeWhile (\<lambda>a. a \<noteq> NULL) (envp p)) = map (c_string sys (mem p)) (takeWhile (\<lambda>a. a \<noteq> NULL) (envp p))"
proof (rule map_cong [OF refl])
  fix a assume "a \<in> set (takeWhile (\<lambda>a. a \<noteq> NULL) (envp p))"
  then have a: "str_at sys (mem p) a (c_string sys (mem p) a)" "{a..a + length (c_string sys (mem p) a)} \<subseteq> live"
    using assms(1) by (auto simp: envs_live_def)
  from a(2) have "str_at sys m a (c_string sys (mem p) a)" using assms(2) by (auto intro!: str_at_cong [OF a(1)])
  then show "c_string sys m a = c_string sys (mem p) a" by (rule c_string_str_at)
qed

lemma spt_init_copies:
  assumes "spt_base (SPT p) = NULL" and "environ p = Original" and good: "good_malloc sys live"
    and args: "args_live sys live p [1..<argv_rounds argc (argv p)] f" and envs: "envs_live sys live p"
    and "spt_base (SPT (spt_init sys argc p)) \<noteq> NULL"
  shows "environ (spt_init sys argc p) = Copied (fold env_entry (map (c_string sys (mem p)) (takeWhile (\<lambda>a. a \<noteq> NULL) (envp p))) [])"
    and "\<forall>i \<in> set [1..<argv_rounds argc (argv p)]. argv_at (argv p) i \<noteq> NULL \<longrightarrow>
      copied_at sys (allocs (spt_init sys argc p)) (mem (spt_init sys argc p)) (argv_at (argv (spt_init sys argc p)) i) (f i)"
proof -
  obtain arg0 p1 n1 p2 n2 p3 p4 p5 where 1: "strdup sys (argv_at (argv p) 0) p = (arg0, p1)"
    and 2: "strdup sys (program_invocation_name p1) (p1\<lparr>SPT := (SPT p1)\<lparr>spt_arg0 := arg0\<rparr>\<rparr>) = (n1, p2)"
    and 3: "strdup sys (program_invocation_short_name p2) (p2\<lparr>program_invocation_name := n1\<rparr>) = (n2, p3)"
    and 4: "spt_copyenv sys (p3\<lparr>program_invocation_short_name := n2\<rparr>) = (0, p4)" and 5: "spt_copyargs sys argc p4 = (0, p5)"
    and 6: "spt_init sys argc p = p5\<lparr>SPT := SPT (spt_init sys argc p)\<rparr>"
    by (rule spt_init_success [OF assms(1,6)]) simp
  note k1 = strdup_keeps [OF good 1] and k2 = strdup_keeps [OF good 2] and k3 = strdup_keeps [OF good 3]
  have p3: "argv p3 = argv p" "envp p3 = envp p" "environ p3 = Original" "\<forall>x \<in> live. mem p3 x = mem p x"
    using k1(2-4,6) k2(2-4,6) k3(2-4,6) assms(2) by simp_all
  have p4: "p4 = p3\<lparr>program_invocation_short_name := n2,
      environ := Copied (fold env_entry (map (c_string sys (mem p)) (takeWhile (\<lambda>a. a \<noteq> NULL) (envp p))) [])\<rparr>"
    unfolding envs_live_same [OF envs p3(4), symmetric] using spt_copyenv_copies [OF 4] p3 by simp
  have "args_live sys live p4 [1..<argv_rounds argc (argv p4)] f"
    by (rule args_live_cong [OF args]) (simp_all add: p4 p3)
  from copyargs_loop_copies [OF good 5 [unfolded spt_copyargs_def] _ this] have l:
    "\<forall>i \<in> set [1..<argv_rounds argc (argv p)]. argv_at (argv p) i \<noteq> NULL \<longrightarrow>
       copied_at sys (allocs p5) (mem p5) (argv_at (argv p5) i) (f i)" "environ p5 = environ p4"
    by (simp_all add: p4 p3(1))
  show "environ (spt_init sys argc p) = Copied (fold env_entry (map (c_string sys (mem p)) (takeWhile (\<lambda>a. a \<noteq> NULL) (envp p))) [])"
    using l(2) by (subst 6) (simp add: p4)
  show "\<forall>i \<in> set [1..<argv_rounds argc (argv p)]. argv_at (argv p) i \<noteq> NULL \<longrightarrow>
      copied_at sys (allocs (spt_init sys argc p)) (mem (spt_init sys argc p)) (argv_at (argv (spt_init sys argc p)) i) (f i)"
    using l(1) by (subst (1 2 3) 6) simp
qed

definition set_titles :: "spt_sys \<Rightarrow> (title \<times> int) list \<Rightarrow> proc \<Rightarrow> proc" where
  "set_titles sys ts p = fold (\<lambda>(t, e). setproctitle sys t e) ts p"

lemma set_titles_keeps:
  "spt_ok p \<Longrightarrow> spt_ok (set_titles sys ts p) \<and> argv (set_titles sys ts p) = argv p \<and> environ (set_titles sys ts p) = environ p \<and>
    (\<forall>x. x \<notin> {spt_base (SPT p)..<spt_end (SPT p)} \<longrightarrow> mem (set_titles sys ts p) x = mem p x)"
proof (induction ts arbitrary: p)
  case Nil
  then show ?case by (simp add: set_titles_def)
next
  case (Cons te ts)
  obtain t e where te: "te = (t, e)" by (cases te)
  have ok: "spt_ok (setproctitle sys t e p)" using Cons.prems by (simp add: spt_ok_def setproctitle_SPT)
  have "set_titles sys (te # ts) p = set_titles sys ts (setproctitle sys t e p)" by (simp add: set_titles_def te)
  with Cons.IH [OF ok] setproctitle_outside [OF Cons.prems] show ?case by (simp add: setproctitle_SPT)
qed

text \<open>
  C25: titles do not destroy the arguments and the environment.  When \<open>spt_init\<close> has succeeded, then
  after any titles every argument but the first still reads as at the start, though its memory has
  been written over, and \<open>environ\<close> has the variables the process was started with.
\<close>

theorem titles_keep_arguments:
  assumes "SPT p = SPT_static" and "environ p = Original" and "good_malloc sys live"
    and "args_live sys live p [1..<argv_rounds argc (argv p)] (\<lambda>i. c_string sys (mem p) (argv_at (argv p) i))"
    and "envs_live sys live p" and "p1 = spt_init sys argc p" and "spt_base (SPT p1) \<noteq> NULL"
    and "{spt_base (SPT p1)..<spt_end (SPT p1)} \<subseteq> live" and "p2 = set_titles sys ts p1"
  shows "environ p2 = Copied (fold env_entry (map (c_string sys (mem p)) (takeWhile (\<lambda>a. a \<noteq> NULL) (envp p))) []) \<and>
    (\<forall>i. 1 \<le> i \<and> i < argv_rounds argc (argv p) \<and> argv_at (argv p) i \<noteq> NULL \<longrightarrow>
      c_string sys (mem p2) (argv_at (argv p2) i) = c_string sys (mem p) (argv_at (argv p) i))"
proof -
  have base: "spt_base (SPT p) = NULL" using assms(1) by (simp add: SPT_static_def)
  note c = spt_init_copies [OF base assms(2-5), folded assms(6), OF assms(7)]
  have ok: "spt_ok p1" using spt_init_ok [OF base] assms(6) by simp
  note k = set_titles_keeps [OF ok, of sys ts, folded assms(9)]
  have "c_string sys (mem p2) (argv_at (argv p2) i) = s" if "copied_at sys (allocs p1) (mem p1) (argv_at (argv p1) i) s" for i s
  proof -
    let ?b = "argv_at (argv p1) i"
    from that obtain j where j: "sp_malloc sys j (length s + 1) = ?b" "?b \<noteq> NULL" "str_at sys (mem p1) ?b s"
      by (auto simp: copied_at_def)
    then have "{?b..<?b + (length s + 1)} \<inter> live = {}" using assms(3) unfolding good_malloc_def by metis
    then have "x \<notin> {spt_base (SPT p1)..<spt_end (SPT p1)}" if "?b \<le> x" "x \<le> ?b + length s" for x
      using that assms(8) by fastforce
    then have "str_at sys (mem p2) ?b s" using k by (intro str_at_cong [OF j(3)]) simp
    then show ?thesis using k by (simp add: c_string_str_at)
  qed
  then show ?thesis using c k by simp
qed

text \<open>
  The strings of a process as the kernel lays them out: one behind the other from \<open>a\<close> up to \<open>b\<close>.
\<close>

fun packed :: "spt_sys \<Rightarrow> (nat \<Rightarrow> char) \<Rightarrow> ptr list \<Rightarrow> nat \<Rightarrow> nat \<Rightarrow> bool" where
  "packed sys m [] a b \<longleftrightarrow> a = b"
| "packed sys m (x # xs) a b \<longleftrightarrow> x = a \<and> packed sys m xs (a + strlen sys m x + 1) b"

lemma packed_append: "packed sys m (xs @ ys) a b \<longleftrightarrow> (\<exists>c. packed sys m xs a c \<and> packed sys m ys c b)"
  by (induction xs arbitrary: a) auto

lemma packed_end: "packed sys m xs a b \<Longrightarrow> a \<noteq> NULL \<Longrightarrow> fold (grow_end sys m) xs a = b"
  by (induction xs arbitrary: a) (auto simp: grow_end_def)

text \<open>
  The space for titles is exactly the memory of the strings.  When the arguments and the
  variables of the environment lie one behind the other, as Linux starts a process, the end that
  \<open>spt_init\<close> finds is the end of the last of them.
\<close>

theorem spt_init_finds_space:
  assumes "argv p = base # args @ [NULL]" and "base \<noteq> NULL" and "NULL \<notin> set args" and "argc = Suc (length args)"
    and "packed sys (mem p) (base # args @ takeWhile (\<lambda>a. a \<noteq> NULL) (envp p)) base e"
    and "spt_base (SPT p) = NULL" and "spt_base (SPT (spt_init sys argc p)) \<noteq> NULL"
  shows "spt_base (SPT (spt_init sys argc p)) = base \<and> spt_end (SPT (spt_init sys argc p)) = e"
proof -
  let ?n = "base + strlen sys (mem p) base + 1"
  have a0: "argv_at (argv p) 0 = base" by (simp add: argv_at_def assms(1))
  have rounds: "argv_rounds argc (argv p) = Suc (length args)" by (simp add: argv_rounds_def assms(1,4))
  have "map (argv_at (argv p)) [0..<Suc (length args)] = base # args"
    by (rule nth_equalityI) (auto simp: argv_at_def assms(1) nth_append nth_Cons' simp del: upt_Suc)
  then have args: "args_end sys argc p ?n = fold (grow_end sys (mem p)) args ?n"
    by (simp add: args_end_def rounds grow_end_def assms(2) del: upt_Suc)
  obtain c where c: "packed sys (mem p) args ?n c" "packed sys (mem p) (takeWhile (\<lambda>a. a \<noteq> NULL) (envp p)) c e"
    using assms(5) by (auto simp: packed_append)
  have "args_end sys argc p ?n = c" using packed_end [OF c(1)] args by simp
  moreover from this have "c \<noteq> NULL" using grow_end_ge [of ?n sys "mem p" args] args by simp
  ultimately have "envs_end sys p (args_end sys argc p ?n) = e" using packed_end [OF c(2)] by (simp add: envs_end_def)
  then show ?thesis by (rule_tac spt_init_success [OF assms(6,7)]) (simp add: a0)
qed

text \<open>After a failure of \<open>spt_init\<close> titles are ignored.\<close>

lemma no_title_without_base: "spt_base (SPT p) = NULL \<Longrightarrow> setproctitle sys t e p = p"
  by (simp add: setproctitle_def)

text \<open>An entry of the environment with an empty name makes \<open>spt_init\<close> fail: \<open>setenv\<close> refuses it.\<close>

lemma empty_name_fails:
  "c_string sys (mem p) a = CHR ''='' # v \<Longrightarrow> copyenv_loop sys (a # as) p = (EINVAL, p\<lparr>environ := Original\<rparr>)"
  by (simp add: setenv_def EINVAL_def)

section \<open>Examples\<close>

text \<open>A process \<open>ab c\<close> with the variable \<open>X=1\<close>, its strings at 10, 13 and 15.\<close>

definition demo_spt :: spt_sys where
  "demo_spt = \<lparr>sp_malloc = (\<lambda>n k. if k \<le> 5 \<and> n < 8 then 20 + 5 * n else 0), sp_setenv_ok = (\<lambda>_. True), sp_top = 60\<rparr>"

definition demo_image :: string where
  "demo_image = ''ab'' @ [CHR 0x00] @ ''c'' @ [CHR 0x00] @ ''X=1'' @ [CHR 0x00]"

definition demo_proc :: proc where
  "demo_proc = \<lparr>mem = mem_write 10 demo_image (\<lambda>_. CHR 0x00), argv = [10, 13, 0], envp = [15, 0], environ = Original,
     program_invocation_name = 10, program_invocation_short_name = 10, allocs = 0, SPT = SPT_static\<rparr>"

lemma demo_spt_good: "good_malloc demo_spt {..<20}"
proof -
  have "{20 + 5 * n..<20 + 5 * n + k} \<inter> {20 + 5 * n'..<20 + 5 * n' + k'} = {}"
    if "n \<noteq> n'" "k \<le> 5" "k' \<le> 5" for n n' k k' :: nat
    using that by (cases "n < n'") (auto simp: not_less)
  then show ?thesis unfolding good_malloc_def demo_spt_def by auto
qed

lemma demo_strings: "str_at demo_spt (mem demo_proc) 10 ''ab''" "str_at demo_spt (mem demo_proc) 13 ''c''"
  "str_at demo_spt (mem demo_proc) 15 ''X=1''"
  by (auto simp: str_at_def demo_proc_def demo_image_def demo_spt_def mem_write_def less_Suc_eq)

lemmas demo_reads = demo_strings [THEN c_string_str_at] demo_strings [THEN strlen_str_at]

lemma demo_argv: "argv_at (argv demo_proc) 0 = 10" "argv_at (argv demo_proc) 1 = 13" "argv_rounds 2 (argv demo_proc) = 2"
  by (simp_all add: argv_at_def argv_rounds_def demo_proc_def)

lemma demo_live: "args_live demo_spt {..<20} demo_proc [1..<argv_rounds 2 (argv demo_proc)] (\<lambda>i. c_string demo_spt (mem demo_proc) (argv_at (argv demo_proc) i))"
  "envs_live demo_spt {..<20} demo_proc"
proof -
  have "[1..<argv_rounds 2 (argv demo_proc)] = [1]" by (simp only: demo_argv) (simp add: upt_rec)
  then show "args_live demo_spt {..<20} demo_proc [1..<argv_rounds 2 (argv demo_proc)] (\<lambda>i. c_string demo_spt (mem demo_proc) (argv_at (argv demo_proc) i))"
    using demo_strings by (simp add: args_live_def demo_argv [simplified] demo_reads) auto
  show "envs_live demo_spt {..<20} demo_proc"
    using demo_strings by (simp add: envs_live_def demo_reads demo_proc_def [THEN arg_cong [where f = envp]]) auto
qed

lemma demo_space: "spt_base (SPT (spt_init demo_spt 2 demo_proc)) = 10" "spt_nul (SPT (spt_init demo_spt 2 demo_proc)) = 12"
  "spt_end (SPT (spt_init demo_spt 2 demo_proc)) = 19"
  by code_simp+

lemma demo_base: "spt_base (SPT demo_proc) = NULL" "SPT demo_proc = SPT_static" "environ demo_proc = Original"
  by (simp_all add: demo_proc_def SPT_static_def)

theorem setproctitle_in_bounds_witness:
  "mem (setproctitle demo_spt (Format (Some ''worker'')) 0 (spt_init demo_spt 2 demo_proc)) 25 = mem (spt_init demo_spt 2 demo_proc) 25"
  using setproctitle_in_bounds [OF spt_init_ok [OF demo_base(1)], of 25 demo_spt 2 demo_spt "Format (Some ''worker'')" 0]
  by (simp add: demo_space)

theorem setproctitle_shows_witness:
  "c_string demo_spt (mem (SetProcTitle demo_spt ''tinyco: worker'' 0 (spt_init demo_spt 2 demo_proc))) 10 = ''tinyco: ''"
  using setproctitle_shows [OF spt_init_ok [OF demo_base(1)], of demo_spt 2 demo_spt "''tinyco: worker''" 0]
  by (simp add: demo_space shown_def SPT_MAXTITLE_def demo_spt_def [THEN arg_cong [where f = sp_top]])

theorem titles_keep_arguments_witness:
  "environ (set_titles demo_spt [(Format (Some ''w''), 0)] (spt_init demo_spt 2 demo_proc)) = Copied [(''X'', ''1'')] \<and>
   c_string demo_spt (mem (set_titles demo_spt [(Format (Some ''w''), 0)] (spt_init demo_spt 2 demo_proc)))
     (argv_at (argv (set_titles demo_spt [(Format (Some ''w''), 0)] (spt_init demo_spt 2 demo_proc))) 1) = ''c''"
proof -
  have e: "takeWhile (\<lambda>a. a \<noteq> NULL) (envp demo_proc) = [15]" by (simp add: demo_proc_def)
  have "{spt_base (SPT (spt_init demo_spt 2 demo_proc))..<spt_end (SPT (spt_init demo_spt 2 demo_proc))} \<subseteq> {..<20}"
    by (auto simp: demo_space)
  from titles_keep_arguments [OF demo_base(2,3) demo_spt_good demo_live refl _ this refl, of "[(Format (Some ''w''), 0)]"]
  show ?thesis unfolding e by (simp add: demo_space demo_argv [simplified] demo_reads env_entry_def)
qed

theorem spt_init_finds_space_witness:
  "spt_base (SPT (spt_init demo_spt 2 demo_proc)) = 10 \<and> spt_end (SPT (spt_init demo_spt 2 demo_proc)) = 19"
proof -
  have e: "takeWhile (\<lambda>a. a \<noteq> NULL) (envp demo_proc) = [15]" by (simp add: demo_proc_def)
  have k: "packed demo_spt (mem demo_proc) (10 # [13] @ takeWhile (\<lambda>a. a \<noteq> NULL) (envp demo_proc)) 10 19"
    unfolding e by (simp add: demo_reads)
  have a: "argv demo_proc = 10 # [13] @ [NULL]" by (simp add: demo_proc_def)
  have b: "spt_base (SPT (spt_init demo_spt 2 demo_proc)) \<noteq> NULL" by (simp add: demo_space)
  show ?thesis by (rule spt_init_finds_space [OF a _ _ _ k demo_base(1) b]) simp_all
qed

end
