(* ===== verification/Signals.thy ===== *)
theory Signals
  imports Server_Impl
begin

text \<open>
  The way of a signal: the handler \<open>AllInOneCallback\<close> writes its number into the socket pair, the
  coroutine of \<open>SignalHelper::Run\<close> reads it, \<open>SignalCallback\<close> notes the dead worker, and the next
  round of the master replaces it.
\<close>

section \<open>Numbers on the socket\<close>

lemma byte_of: "word_of_nat (unat x mod 256) = take_bit 8 (x :: u32)"
  by (rule word_unat_eq_iff [THEN iffD2]) (simp add: unat_of_nat take_bit_eq_mod unat_mod)

lemma bytes_int_int_bytes: "bytes_int (int_bytes sig) = sig"
proof -
  have "bytes_int (int_bytes sig) =
      push_bit 8 (push_bit 8 (push_bit 8 (take_bit 8 (drop_bit 24 sig)) OR take_bit 8 (drop_bit 16 sig)) OR take_bit 8 (drop_bit 8 sig)) OR take_bit 8 sig"
    by (simp add: bytes_int_def int_bytes_def byte_of)
  also have "\<dots> = sig"
  proof (rule bit_word_eqI)
    fix n assume "n < LENGTH(32)"
    have "n < 8 \<or> 8 \<le> n \<and> n < 16 \<or> 16 \<le> n \<and> n < 24 \<or> 24 \<le> n" by linarith
    with \<open>n < LENGTH(32)\<close> show "bit (push_bit 8 (push_bit 8 (push_bit 8 (take_bit 8 (drop_bit 24 sig)) OR take_bit 8 (drop_bit 16 sig)) OR
        take_bit 8 (drop_bit 8 sig)) OR take_bit 8 sig) n = bit sig n"
      by (elim disjE) (auto simp: bit_simps)
  qed
  finally show ?thesis .
qed

lemma length_int_bytes: "length (int_bytes sig) = 4"
  by (simp add: int_bytes_def)

section \<open>From the handler to the callback\<close>

text \<open>What the handler has sent makes one round of the reading coroutine call \<open>SignalCallback\<close> with the signal.\<close>

lemma signal_delivered:
  assumes "AllInOneCallback sig w e s srv = Some (r, e1, out, s1)" and "drains 4 w"
    and "recv (sig_read_fd srv') 4 w' e2 s2 = Some (int (length out), e3, out, s3)"
  shows "r = 4 \<and> signal_round w' waits e2 s2 srv' = map_option (\<lambda>srv1. (True, e3, s3, srv1)) (SignalCallback waits (sint sig) srv')"
proof -
  have "\<exists>e' s'. send (sig_write_fd srv) (int_bytes sig) w e s = Some (int (length (int_bytes sig)), e', int_bytes sig, s')"
    by (rule send_drains) (use assms(2) in \<open>simp_all add: length_int_bytes\<close>)
  then have "out = int_bytes sig" "r = 4" using assms(1) by (auto simp: AllInOneCallback_def length_int_bytes)
  with assms(3) show ?thesis by (simp add: signal_round_def length_int_bytes bytes_int_int_bytes)
qed

text \<open>
  C16: a worker that dies is replaced.  The handler of \<open>SIGCHLD\<close> sends the number of the signal; when the
  coroutine reads those bytes and \<open>waitpid\<close> gives the process id of a worker, the next round of the
  master forks a new one in its place and frees the mutexes the dead one held, and nothing else of the
  server has changed.
\<close>

theorem dead_worker_replaced:
  assumes "mode srv = WM_MASTER" and "restart_worker_pid srv = []" and "0 < pid" and "0 < forked"
    and "\<exists>w \<in> set (worker_processes srv). worker_pid w = pid" and "\<forall>l \<in> set (listeners srv). l_mtx l \<noteq> None"
    and "AllInOneCallback (word_of_int SIGCHLD) w e s srv = Some (r, e1, out, s1)" and "drains 4 w"
    and "recv (sig_read_fd srv) 4 w' e2 s2 = Some (int (length out), e3, out, s3)"
  shows "\<exists>srv1 xs w ys. signal_round w' ((pid, ec) # as) e2 s2 srv = Some (True, e3, s3, srv1) \<and>
    worker_processes srv = xs @ w # ys \<and> worker_pid w = pid \<and>
    master_round [forked] srv1 =
      (srv\<lparr>worker_processes := xs @ w\<lparr>worker_pid := forked\<rparr> # ys,
           listeners := map (\<lambda>l. if l_mtx l = Some (word_of_int pid) then l\<lparr>l_mtx := Some 0\<rparr> else l) (listeners srv)\<rparr>,
       All_Done)"
proof -
  have "sint (word_of_int SIGCHLD :: u32) = SIGCHLD" by (simp add: SIGCHLD_def)
  then have sr: "signal_round w' ((pid, ec) # as) e2 s2 srv = map_option (\<lambda>srv1. (True, e3, s3, srv1)) (SignalCallback ((pid, ec) # as) SIGCHLD srv)"
    using signal_delivered [OF assms(7-9)] by simp
  obtain srv1 where "SignalCallback ((pid, ec) # as) SIGCHLD srv = Some srv1"
    using assms(1,3) by (simp add: SignalCallback_def)
  with restart_round [OF assms(1-6) this] sr show ?thesis by simp
qed

theorem dead_worker_replaced_witness:
  "\<exists>e3 s3 srv1. signal_round [Err EINTR, Ok (int_bytes 17)] [(100, EINTR)] EINTR Frame_static demo_master = Some (True, e3, s3, srv1) \<and>
     map worker_pid (worker_processes (fst (master_round [200] srv1))) = [200]"
proof -
  let ?d = demo_master
  have m: "mode ?d = WM_MASTER" "restart_worker_pid ?d = []"
    "\<exists>w \<in> set (worker_processes ?d). worker_pid w = 100" "\<forall>l \<in> set (listeners ?d). l_mtx l \<noteq> None"
    by (simp_all add: demo_master_def ServerImpl_ctor_def)
  have d: "drains 4 [Ok 4 :: nat answer]" by (rule drains_at_once) simp
  obtain e1 s1 where c: "AllInOneCallback (word_of_int SIGCHLD) [Ok 4] EINTR Frame_static ?d = Some (4, e1, int_bytes 17, s1)"
    using send_drains [of "int_bytes 17" "[Ok 4]" "sig_write_fd ?d" EINTR Frame_static] d
    by (auto simp: AllInOneCallback_def SIGCHLD_def length_int_bytes)
  have r: "recv (sig_read_fd ?d) 4 [Err EINTR, Ok (int_bytes 17)] EINTR Frame_static = Some (int (length (int_bytes 17)), EINTR, int_bytes 17, Frame_static)"
    by (simp add: length_int_bytes)
  from dead_worker_replaced [OF m(1,2) _ _ m(3,4) c d r, of 200 EINTR "[]"] show ?thesis
    by (auto simp: demo_master_def Cons_eq_append_conv)
qed

end
