(* ===== verification/Http_Session.thy ===== *)
theory Http_Session
  imports Http_Server
begin

text \<open>
  A connection that is kept alive.  The abstract server takes whole messages, one after the other; the
  receive loop of \<open>HttpSrvWork::Run\<close> on the pieces in which they arrive does the same.
\<close>

section \<open>The abstract server\<close>

text \<open>The objects of a connection: request, response, \<open>errno\<close> and the framework.\<close>

type_synonym objects = "http_request \<times> http_response \<times> errno \<times> frame"

text \<open>
  One message: it is parsed into the request object and served.  \<open>None\<close> when the parser does not accept
  it.
\<close>

definition spec_serve :: "http_env \<Rightarrow> string \<Rightarrow> objects \<Rightarrow> objects option" where
  "spec_serve env t = (\<lambda>(q, p, e, s).
     case ParseHttpRequest (env_exec env) (env_url env) (env_unescape env) t (Some q) of
       Some (ret, Some q1) \<Rightarrow> if ret = 0 then Some (env_Serve env (q1, p, e, s)) else None
     | _ \<Rightarrow> None)"

text \<open>Messages until the connection is not kept alive: the objects, and whether the server goes on.\<close>

fun spec_session :: "http_env \<Rightarrow> string list \<Rightarrow> objects \<Rightarrow> (objects \<times> bool) option" where
  "spec_session env [] x = Some (x, True)"
| "spec_session env (t # ts) x =
     (case spec_serve env t x of
        None \<Rightarrow> None
      | Some y \<Rightarrow> if keepalive (fst y) then spec_session env ts y else Some (y, False))"

section \<open>The loop refines it\<close>

definition objects_of :: "http_work \<Rightarrow> objects" where
  "objects_of st = (hreq st, hrsp st, work_errno st, work_frame st)"

text \<open>A message in pieces the loop can receive, complete with the last one and not before.\<close>

definition whole_in :: "http_env \<Rightarrow> string list \<Rightarrow> bool" where
  "whole_in env xs \<longleftrightarrow> xs \<noteq> [] \<and> fits 512 0 xs \<and>
     (\<forall>i. 0 < i \<and> i < length xs \<longrightarrow> CheckPkg (env_check env) (concat (take i xs)) = 0) \<and>
     CheckPkg (env_check env) (concat xs) = int (length (concat xs))"

lemma run_loop_session:
  assumes "\<forall>xs \<in> set xss. whole_in env xs" and "collected [] st" and "length (req st) = 512 * 2 ^ j"
    and "spec_session env (map concat xss) (objects_of st) = Some (y, goes_on)"
  shows "\<exists>st'. run_loop env fd (map (\<lambda>c. [Ok c]) (concat xss)) st = (st', if goes_on then Running else Returned 0) \<and>
    objects_of st' = y \<and> collected [] st'"
  using assms
proof (induction xss arbitrary: st j)
  case (Cons xs xss)
  have w: "whole_in env xs" using Cons.prems(1) by simp
  then obtain cs c where xs: "xs = cs @ [c]" unfolding whole_in_def by (meson rev_exhaust)
  have "2 * length (req st) < 2 ^ 32" using Cons.prems(2) by (simp add: collected_def)
  then have fit: "fits (length (req st)) 0 (cs @ [c])"
    using fits_larger [of 512 0 xs j] w by (simp add: whole_in_def xs Cons.prems(3))
  have more: "\<forall>i. 0 < i \<and> i \<le> length cs \<longrightarrow> CheckPkg (env_check env) (concat (take i cs)) = 0"
    using w by (simp add: whole_in_def xs)
  have whole: "CheckPkg (env_check env) (concat (cs @ [c])) = int (length (concat (cs @ [c])))"
    using w unfolding whole_in_def xs by blast
  obtain q1 where q1: "ParseHttpRequest (env_exec env) (env_url env) (env_unescape env) (concat (cs @ [c])) (Some (hreq st)) = Some (0, Some q1)"
    "spec_serve env (concat xs) (objects_of st) = Some (env_Serve env (q1, hrsp st, work_errno st, work_frame st))"
    using Cons.prems(4) unfolding xs by (auto simp: spec_serve_def objects_of_def split: option.splits if_splits)
  obtain q2 p2 e2 s2 where serve: "env_Serve env (q1, hrsp st, work_errno st, work_frame st) = (q2, p2, e2, s2)" by (metis prod_cases4)
  obtain st1 where st1: "collected [] st1" "doubled st st1" "objects_of st1 = (q2, p2, e2, s2)"
    "run_loop env fd (map (\<lambda>c. [Ok c]) (cs @ [c]) @ map (\<lambda>c. [Ok c]) (concat xss)) st =
      (if keepalive q2 then run_loop env fd (map (\<lambda>c. [Ok c]) (concat xss)) st1 else (st1, Returned 0))"
    using run_loop_request [OF Cons.prems(2) fit more whole q1(1) serve, of fd "map (\<lambda>c. [Ok c]) (concat xss)"]
    by (auto simp: objects_of_def)
  obtain k where "length (req st1) = 512 * 2 ^ k" using st1(2) Cons.prems(3) by (auto simp: doubled_def power_add [symmetric])
  from Cons.IH [OF _ st1(1) this] Cons.prems(1,4) q1(2) serve st1 show ?case
    by (cases "keepalive q2") (auto simp: xs)
qed (auto simp: objects_of_def)

text \<open>
  C5: the server of a connection is the abstract server.  Messages that arrive one after the other, each in
  any pieces the loop can receive, are parsed and served in order, each once, with the objects the one
  before left; the loop goes on as long as the connection is kept alive and then returns 0.
\<close>

theorem Run_refines_session:
  assumes "\<forall>xs \<in> set xss. whole_in env xs" and "spec_session env (map concat xss) (q, p, e, s) = Some (y, goes_on)"
  shows "\<exists>st. HttpSrvWork_Run env fd (map (\<lambda>c. [Ok c]) (concat xss)) q p e s = (st, if goes_on then Running else Returned 0) \<and>
    objects_of st = y \<and> collected [] st"
  unfolding HttpSrvWork_Run_def
  by (rule run_loop_session [OF assms(1) collected_start, where j = 0]) (use assms(2) in \<open>simp_all add: length_resize objects_of_def\<close>)

text \<open>An example: two messages of four bytes, the second in two pieces.\<close>

theorem Run_refines_session_witness:
  "\<exists>st. HttpSrvWork_Run (demo_env 4) 5 (map (\<lambda>c. [Ok c]) [''GET!'', ''GE'', ''T?'']) HttpRequest_ctor HttpResponse_ctor EINTR Frame_static =
     (st, Running) \<and> collected [] st"
proof -
  have "whole_in (demo_env 4) [''GET!'']" "whole_in (demo_env 4) [''GE'', ''T?'']"
    by (auto simp: whole_in_def demo_CheckPkg Let_def less_Suc_eq)
  then have w: "\<forall>xs \<in> set [[''GET!''], [''GE'', ''T?'']]. whole_in (demo_env 4) xs" by simp
  obtain y where y: "spec_session (demo_env 4) (map concat [[''GET!''], [''GE'', ''T?'']]) (HttpRequest_ctor, HttpResponse_ctor, EINTR, Frame_static) = Some (y, True)"
    by (auto simp: spec_serve_def demo_env_def ParseHttpRequest_def decide_keepalive_def method_of_def op_defs HttpRequest_ctor_def Let_def)
  from Run_refines_session [OF w y, of 5] show ?thesis by auto
qed

end
