(* ===== verification/Spec2Isabelle.thy ===== *)
theory Spec2Isabelle
  imports Example_Http Proc_Title Signals Http_Session
begin

text \<open>
  A verification of tinyco, a coroutine framework for network servers in C++.

  \<^bold>\<open>The program.\<close>  A process runs one scheduler, \<open>Frame\<close> (frame.h, frame.cc).  Coroutines are
  \<open>Thread\<close> objects (thread.h, thread.cc) with a saved context; they give the processor up by
  waiting for a descriptor, by sleeping or by ending, and the main loop polls libevent and wakes
  sleepers.  On top of it stand blocking socket calls, listeners with a mutex shared by the worker
  processes (listener.*, mutex.*), the accepting loops (server.h), a master that keeps worker
  processes alive (server.cc), HTTP messages, parsing, a server and clients (http/), a resolver (dns/), remote
  calls over HTTP (rpc/), logging and process titles (util/), and example programs (example/).

  \<^bold>\<open>Theories.\<close>
  \<^item> \<open>Tinyco_Prelude\<close>: machine types, theorem collections, list and word facts, and the locale of a
    transition system with an invariant.
  \<^item> \<open>Std_Heap\<close>: \<open>std::push_heap\<close> and \<open>std::pop_heap\<close> as libstdc++ computes them, with the locale of
    the contract the sleepers rely on.
  \<^item> \<open>Coroutine\<close>: \<open>Stack\<close>, \<open>Thread\<close>, \<open>ThreadWrapper\<close> of thread.h and thread.cc.
  \<^item> \<open>Frame_Sched\<close>, \<open>Frame_Inv\<close>, \<open>Frame_Step\<close>, \<open>Frame_Props\<close>: the static members of \<open>Frame\<close> as a record, its
    operations up to the point where they switch, the invariant \<open>frame_inv\<close>, the operations as a
    step relation, and the properties of the scheduler: no crash is reachable, wake-ups are exact
    and ordered, the run queue is fair, the timeout is exact below \<open>2\<^sup>3\<^sup>1\<close> ms.
  \<^item> \<open>Frame_IO\<close>: \<open>accept\<close>, \<open>connect\<close>, \<open>send\<close>, \<open>recv\<close>, \<open>recvfrom\<close> and the two round trips of frame.cc.  The
    locale \<open>blocking_call\<close> states what a blocking call may do to the scheduler; all five calls are
    interpretations.
  \<^item> \<open>Mutex\<close>: the mutex classes of mutex.h and mutex.cc, the locale \<open>process_lock\<close> of what the server
    relies on, and the atomic mutex as a system of processes that may die and be restarted.
  \<^item> \<open>Util_String\<close>, \<open>Util_Net\<close>: \<open>Split\<close> and the trimming functions of util/string.*, the number formats of
    the C++ library, and the texts of addresses and end points of util/network.*.
  \<^item> \<open>Http_Message\<close>: \<open>URL\<close>, \<open>HttpRequest\<close>, \<open>HttpResponse\<close> with the locale \<open>header_map\<close>, serialisation, and a
    reference reader for it.
  \<^item> \<open>Http_Parser\<close>, \<open>Http_Exchange\<close>: http_tool.*, what \<open>HttpParserImpl\<close> does around http_parser and libcurl, for
    requests and responses; parsing undoes serialising.
  \<^item> \<open>Http_Server\<close>, \<open>Http_Session\<close>: the receive loop of \<open>HttpSrvWork\<close> and \<open>Reply\<close>, and the refinement of an
    abstract server of whole messages by the loop on the pieces in which they arrive.
  \<^item> \<open>Listener\<close>, \<open>Server_Work\<close>, \<open>Server_Impl\<close>, \<open>Signals\<close>: listener.*, server.h and server.cc: listening sockets,
    the accepting loops, the configuration, signals, start, master and workers of \<open>ServerImpl\<close>, and the
    way of a signal from its handler to the restart of a worker.
  \<^item> \<open>Tcp_Client\<close>, \<open>Https_Client\<close>, \<open>Dns\<close>, \<open>Http_Op\<close>: http/tcp_conn.*, http_client.*, https_client.*, http_op.* and
    dns/: connections, the two clients with their log texts, the resolver with its cache, \<open>HttpGet\<close> and
    \<open>HttpPost\<close>.
  \<^item> \<open>Rpc\<close>, \<open>Rpc_Exchange\<close>: rpc/: \<open>TinycoRpc::Serve\<close>, \<open>Channel\<close> and \<open>Controller\<close>, and a call from the client through
    the server and back.  The locale \<open>replying_handler\<close> is the contract between \<open>Run\<close> and a \<open>Serve\<close>, kept by the
    one of \<open>TinycoRpc\<close> and by the one of the HTTP example.
  \<^item> \<open>Local_Log\<close>: util/log.* and util/time.h over a model of names, files and \<open>ofstream\<close>: the rotation is a shift
    of the generations, the master's log is an abstract list of generations, workers follow it.
  \<^item> \<open>Proc_Title\<close>: the Linux branch of util/setproctitle.c over memory as a map from addresses to bytes: titles
    stay in their space, are shown, and leave the arguments and the environment alone.
  \<^item> \<open>Example_Dns\<close>, \<open>Example_Udp\<close>, \<open>Example_Http\<close>: the programs of example/, and what they do together.
  This theory adds what \<open>HttpPost\<close> and the server do together.

  \<^bold>\<open>Conventions.\<close>  Pointers are natural numbers with 0 as null, a use of a null or deleted object is
  a value of the result (\<open>Crashed\<close>, \<open>Null_Deref\<close>, \<open>Crash\<close>), and a result \<open>-n\<close> stands for \<open>-__LINE__\<close> at
  line \<open>n\<close>.  Integers whose width matters are words; a \<open>size_t\<close> difference wraps.  What the system, libevent,
  http_parser, jsoncpp, protobuf, OpenSSL, c-ares and user code answer are parameters; where a theorem
  needs something of them, it is a hypothesis with a definition of its own (\<open>parser_reads\<close>,
  \<open>response_reads\<close>, \<open>good_malloc\<close>, \<open>all_permitted\<close>, \<open>answers\<close>) and an instance that satisfies it.
  A call that may block consumes a script of answers, and \<open>None\<close> says that the script ends before the
  call returns, so no statement about a result holds because a loop does not end: \<open>send_completes\<close>,
  \<open>Run_refines_session\<close> and \<open>rpc_call_returns\<close> prove that the result is reached.  There is no other fuel.
  While a coroutine is suspended the others act, as a function on the state that is part of the script.

  \<^bold>\<open>Context switches.\<close>  \<open>Frame::Schedule\<close> ends in \<open>setcontext\<close>.  A coroutine is resumed after its own call;
  the context was saved in a function that has returned by then, which the C library does not define but
  which works here because the call that follows has the same frame.  The model takes the resumption for
  granted.

  \<^bold>\<open>What is shown.\<close>  For each part the properties that make it correct come first: invariants of the
  scheduler and the accepting loop, exclusion and refinement of the locks, the results of the socket
  calls, round trips of messages, queries, mappings, addresses and strings, the refinement of abstract
  servers and logs, bounds of what is written, and the work of the master.  The end-to-end theorems join the
  parts over the bytes on a connection, in any pieces: \<open>post_reaches_Serve\<close>, \<open>hello_world\<close>, \<open>rpc_call_returns\<close>,
  \<open>rpc_example\<close>, \<open>udp_echo\<close> and \<open>dead_worker_replaced\<close>.  The rest are theorems about inputs on which the code
  fails: among them a write behind the buffer of the HTTP server, a datagram that stops the datagram server,
  and a null pointer in the stream server.

  \<^bold>\<open>Not modelled.\<close>  util/defer.h, which nothing uses, and work.h, an interface without state; the branches of
  util/setproctitle.c for other systems; \<open>main\<close> of the RPC client, which calls a private function.  Signal masks
  have no counterpart: a signal is a step the environment takes.  Of libevent the model has the set of
  registered events and one callback per poll.  Of log lines only those of \<open>Local_Log\<close> and of the examples are
  modelled; what the other parts log has no effect on them.  The remaining lines of the headers are
  declarations.
\<close>

section \<open>From the client to the server\<close>

lemma post_request_fields:
  "rq_method (post_request u [] c) = HTTP_REQUEST_METHOD_POST" "struri (post_request u [] c) = uri u"
  "rq_content (post_request u [] c) = c"
  "rq_headers (post_request u [] c) = [(''Host'', host u), (''Content-Length'', nat_to_string (length c))]"
  by (simp_all add: post_request_def set_extra_def op_defs HttpRequest_ctor_def)

lemma post_request_clean:
  assumes "clean_url u"
  shows "\<forall>h \<in> set (rq_headers (post_request u [] c)). snd h \<noteq> [] \<longrightarrow> clean_header h"
proof -
  have "CHR 0x0D \<notin> set (nat_to_string n)" for n using int_to_string_no_cr [of "int n"] by (simp add: int_to_string_def)
  with assms show ?thesis by (simp add: post_request_fields clean_header_def clean_url_def)
qed

lemma post_request_serializes: "rq_SerializeToString (post_request u [] c) = Some (rq_SerializeToString0 (post_request u [] c))"
  by (simp add: rq_SerializeToString0_def rq_SerializeToString_def post_request_fields HTTP_REQUEST_METHOD_POST_def
        HTTP_REQUEST_METHOD_GET_def Let_def)

text \<open>
  C6: what \<open>HttpPost\<close> sends reaches \<open>Serve\<close>.  The serialised request, cut into any pieces the server can
  receive, makes the receive loop call \<open>Serve\<close> once, with a request that has the method, the URI,
  the \<open>Host\<close> header and the body the client put in, given a parser that behaves as documented.
\<close>

theorem post_reaches_Serve:
  assumes clean: "clean_url u" and url: "ParseUrl (env_url env) (env_unescape env) (uri u) URL_ctor \<noteq> None"
    and reads: "parser_reads (env_exec env) (rq_SerializeToString0 (post_request u [] c))"
    and cut: "fits 512 0 (cs @ [d])" "concat (cs @ [d]) = rq_SerializeToString0 (post_request u [] c)"
    and more: "\<forall>i. 0 < i \<and> i \<le> length cs \<longrightarrow> CheckPkg (env_check env) (concat (take i cs)) = 0"
    and whole: "CheckPkg (env_check env) (concat (cs @ [d])) = int (length (concat (cs @ [d])))"
  shows "\<exists>q st. rq_method q = HTTP_REQUEST_METHOD_POST \<and> struri q = uri u \<and> rq_content q = c \<and> rq_GetHeader ''Host'' q = host u \<and>
    (hreq st, hrsp st, work_errno st, work_frame st) = env_Serve env (q, p, e, s) \<and>
    HttpSrvWork_Run env fd (map (\<lambda>x. [Ok x]) (cs @ [d])) HttpRequest_ctor p e s =
      (st, if keepalive (hreq st) then Running else Returned 0)"
proof -
  let ?r = "post_request u [] c"
  obtain q where q: "ParseHttpRequest (env_exec env) (env_url env) (env_unescape env) (concat (cs @ [d])) (Some HttpRequest_ctor) =
      Some (0, Some q)" "rq_method q = rq_method ?r" "struri q = struri ?r" "rq_content q = rq_content ?r"
      "\<forall>f. rq_GetHeader f q = rq_GetHeader f ?r"
    using parse_serialized [OF post_request_serializes reads _ _ _ post_request_clean [OF clean], of "env_url env" "env_unescape env"]
      clean url unfolding cut(2) by (auto simp: post_request_fields clean_url_def rq_GetHeader_def)
  obtain q2 p2 e2 s2 where serve: "env_Serve env (q, p, e, s) = (q2, p2, e2, s2)" by (cases "env_Serve env (q, p, e, s)")
  from run_reassembles [OF cut(1) more whole q(1) serve, of fd "[]"] obtain st where st:
    "hreq st = q2" "hrsp st = p2" "work_errno st = e2" "work_frame st = s2"
    "HttpSrvWork_Run env fd (map (\<lambda>x. [Ok x]) (cs @ [d])) HttpRequest_ctor p e s =
      (if keepalive q2 then run_loop env fd [] st else (st, Returned 0))" by auto
  with q serve show ?thesis
    by (intro exI [of _ q] exI [of _ st]) (simp add: post_request_fields rq_GetHeader_def)
qed

theorem post_reaches_Serve_witness:
  "\<exists>env cs d q st. concat (cs @ [d]) = rq_SerializeToString0 (post_request (URL_ctor\<lparr>uri := ''/a'', host := ''h''\<rparr>) [] ''hi'') \<and>
     rq_content q = ''hi'' \<and>
     (hreq st, hrsp st, work_errno st, work_frame st) = env_Serve env (q, HttpResponse_ctor, EINTR, Frame_static) \<and>
     HttpSrvWork_Run env 5 (map (\<lambda>x. [Ok x]) (cs @ [d])) HttpRequest_ctor HttpResponse_ctor EINTR Frame_static =
       (st, if keepalive (hreq st) then Running else Returned 0)"
proof -
  define u where "u = URL_ctor\<lparr>uri := ''/a'', host := ''h''\<rparr>"
  define t where "t = rq_SerializeToString0 (post_request u [] ''hi'')"
  define env where "env = (demo_env (length t))\<lparr>env_exec := plain_parser\<rparr>"
  have d: "nat_to_string (Suc (Suc 0)) = ''2''" by code_simp
  have s: "t = ''POST /a HTTP/1.1'' @ crlf @ ''Host: h'' @ crlf @ ''Content-Length: 2'' @ crlf @ crlf @ ''hi''"
    by (simp add: t_def u_def rq_SerializeToString0_def rq_SerializeToString_def post_request_fields d HTTP_REQUEST_METHOD_POST_def
          HTTP_REQUEST_METHOD_GET_def Let_def)
  have n: "t \<noteq> []" "length t \<le> 512" by (simp_all add: s crlf_def)
  have fit: "fits 512 0 ([] @ [t])" using n by (simp add: Let_def)
  have e: "env_check env = env_check (demo_env (length t))" "env_exec env = plain_parser" "env_url env = no_url"
    by (simp_all add: env_def demo_env_def)
  have url: "ParseUrl (env_url env) (env_unescape env) (uri u) URL_ctor \<noteq> None"
    by (simp add: e ParseUrl_def no_url_def)
  have reads: "parser_reads (env_exec env) (rq_SerializeToString0 (post_request u [] ''hi''))"
    unfolding e by (rule plain_parser_reads)
  have more: "\<forall>i. 0 < i \<and> i \<le> length ([] :: string list) \<longrightarrow> CheckPkg (env_check env) (concat (take i [])) = 0" by simp
  have whole: "CheckPkg (env_check env) (concat ([] @ [t])) = int (length (concat ([] @ [t])))"
    using n demo_CheckPkg [of "length t" t] by (simp add: e)
  have clean: "clean_url u" by (simp add: clean_url_def u_def)
  have cat: "concat ([] @ [t]) = rq_SerializeToString0 (post_request u [] ''hi'')" by (simp add: t_def)
  from post_reaches_Serve [OF clean url reads fit cat more whole, of HttpResponse_ctor EINTR Frame_static 5]
  obtain q st where "rq_content q = ''hi''"
    "(hreq st, hrsp st, work_errno st, work_frame st) = env_Serve env (q, HttpResponse_ctor, EINTR, Frame_static)"
    "HttpSrvWork_Run env 5 (map (\<lambda>x. [Ok x]) ([] @ [t])) HttpRequest_ctor HttpResponse_ctor EINTR Frame_static =
       (st, if keepalive (hreq st) then Running else Returned 0)" by blast
  with cat show ?thesis unfolding u_def by blast
qed

end
